theory Spec2Isabelle
  imports Main "HOL-Library.Word" "HOL-Library.Char_ord" "HOL-Library.List_Lexorder"
    "HOL-Library.Multiset"
begin

section \<open>Witcher Tracker: tokenizer, classifier and inventory\<close>

text \<open>
  A shallow embedding of the C++ sources: \<^verbatim>\<open>Utils.cpp\<close> (tokenizer and grammar checks),
  \<^verbatim>\<open>Potion.cpp\<close>, \<^verbatim>\<open>Monster.cpp\<close>, \<^verbatim>\<open>Inventory.cpp\<close> (the world state and its
  handlers) and \<^verbatim>\<open>main.cpp\<close> (\<^verbatim>\<open>execute_line\<close>).

  Conventions.
  \<^item> \<^verbatim>\<open>std::string\<close> is \<^typ>\<open>string\<close> (a list of bytes); \<^verbatim>\<open>operator<\<close> on strings is the
    lexicographic order on unsigned bytes, which is \<open>(<)\<close> on \<^typ>\<open>char list\<close> here.
  \<^item> \<^verbatim>\<open>int\<close> is \<^typ>\<open>32 word\<close>, read through \<^const>\<open>sint\<close>; \<open>+\<close> and \<open>-\<close> wrap around
    (two's complement), as the compiled program does.
  \<^item> The global \<^verbatim>\<open>Utils::words\<close> is passed explicitly; \<^verbatim>\<open>word_count\<close> is its length.
    Indices are \<^typ>\<open>nat\<close>; a loop bound \<^verbatim>\<open>i < word_count - 1\<close> is written \<open>i + 1 < length ws\<close>.
  \<^item> Everything that ends the process or has no defined result is a value of \<open>halt\<close>,
    returned as \<open>Inl\<close>: \<^verbatim>\<open>exit(0)\<close>, an uncaught exception of \<^verbatim>\<open>std::stoi\<close>, and a read
    past the end of \<^verbatim>\<open>words\<close> or of the line.
  \<^item> \<^verbatim>\<open>std::map<std::string, V>\<close> is an association list kept in ascending key order
    (its iteration order); \<^verbatim>\<open>std::set<std::string>\<close> is an ascending list without
    duplicates.
  \<^item> Each handler returns the new state and the one line it prints (without the newline).
\<close>

subsection \<open>Results\<close>

datatype halt =
    Exit0                 \<comment> \<open>\<^verbatim>\<open>exit(0)\<close>\<close>
  | StoiOutOfRange        \<comment> \<open>uncaught \<^verbatim>\<open>std::out_of_range\<close> from \<^verbatim>\<open>std::stoi\<close>\<close>
  | StoiInvalidArgument   \<comment> \<open>uncaught \<^verbatim>\<open>std::invalid_argument\<close> from \<^verbatim>\<open>std::stoi\<close>\<close>
  | WordsOutOfBounds      \<comment> \<open>\<^verbatim>\<open>words[i]\<close> with \<^verbatim>\<open>i >= words.size()\<close>\<close>
  | LineOutOfBounds       \<comment> \<open>\<^verbatim>\<open>line[i]\<close> with \<^verbatim>\<open>i > line.size()\<close> or \<^verbatim>\<open>i < 0\<close>\<close>

definition bindE :: "halt + 'a \<Rightarrow> ('a \<Rightarrow> halt + 'b) \<Rightarrow> halt + 'b" where
  "bindE m f = (case m of Inl e \<Rightarrow> Inl e | Inr x \<Rightarrow> f x)"

type_synonym cpp_int = "32 word"

subsection \<open>Characters and tokens (\<^verbatim>\<open>Utils.cpp\<close>)\<close>

definition is_space :: "char \<Rightarrow> bool" where
  \<comment> \<open>\<^verbatim>\<open>\s\<close> of the regular expression and \<^verbatim>\<open>isspace\<close> in the C locale\<close>
  "is_space c = (let n = (of_char c :: nat) in n = 32 \<or> (9 \<le> n \<and> n \<le> 13))"

definition is_alpha :: "char \<Rightarrow> bool" where
  "is_alpha c = (let n = (of_char c :: nat) in (65 \<le> n \<and> n \<le> 90) \<or> (97 \<le> n \<and> n \<le> 122))"

definition is_digit :: "char \<Rightarrow> bool" where
  "is_digit c = (let n = (of_char c :: nat) in 48 \<le> n \<and> n \<le> 57)"

text \<open>
  \<^verbatim>\<open>split_line\<close>: the successive matches of \<^verbatim>\<open>[^\s,?]+|[?,]\<close>. A match of the first
  alternative is a maximal run of characters other than whitespace, comma and question
  mark; \<open>cur\<close> is the run read so far.
\<close>

fun split_acc :: "string \<Rightarrow> string \<Rightarrow> string list" where
  "split_acc cur [] = (if cur = [] then [] else [cur])"
| "split_acc cur (c # cs) =
     (if c = CHR '','' \<or> c = CHR ''?'' then
        (if cur = [] then [] else [cur]) @ [c] # split_acc [] cs
      else if is_space c then (if cur = [] then [] else [cur]) @ split_acc [] cs
      else split_acc (cur @ [c]) cs)"

definition split_line :: "string \<Rightarrow> string list" where
  "split_line line = split_acc [] line"

definition word_at :: "string list \<Rightarrow> nat \<Rightarrow> halt + string" where
  "word_at ws i = (if i < length ws then Inr (ws ! i) else Inl WordsOutOfBounds)"

definition is_alphabetical :: "string \<Rightarrow> bool" where
  "is_alphabetical str = list_all is_alpha str"

definition is_integer :: "string \<Rightarrow> bool" where
  "is_integer str = list_all is_digit str"

definition digit_val :: "char \<Rightarrow> nat" where
  "digit_val c = of_char c - 48"

definition digits_value :: "string \<Rightarrow> nat" where
  "digits_value ds = foldl (\<lambda>a c. 10 * a + digit_val c) 0 ds"

definition INT_MAX :: int where
  "INT_MAX = 2147483647"

definition INT_MIN :: int where
  "INT_MIN = - 2147483648"

text \<open>
  \<^verbatim>\<open>std::stoi\<close> (base 10): leading whitespace is skipped, one sign is accepted, then the
  longest run of digits is read. No digit: \<^verbatim>\<open>std::invalid_argument\<close>; a value outside
  \<^verbatim>\<open>int\<close>: \<^verbatim>\<open>std::out_of_range\<close>.
\<close>

definition stoi :: "string \<Rightarrow> halt + cpp_int" where
  "stoi str =
     (let s1 = dropWhile is_space str;
          neg = (s1 \<noteq> [] \<and> hd s1 = CHR ''-'');
          s2 = (if s1 \<noteq> [] \<and> (hd s1 = CHR ''-'' \<or> hd s1 = CHR ''+'') then tl s1 else s1);
          ds = takeWhile is_digit s2
      in if ds = [] then Inl StoiInvalidArgument
         else let v = (if neg then - int (digits_value ds) else int (digits_value ds))
              in if v < INT_MIN \<or> INT_MAX < v then Inl StoiOutOfRange
                 else Inr (word_of_int v))"


lemma bindE_cong [fundef_cong]:
  "m = m' \<Longrightarrow> (\<And>x. m' = Inr x \<Longrightarrow> f x = f' x) \<Longrightarrow> bindE m f = bindE m' f'"
  by (simp add: bindE_def split: sum.splits)

lemma word_at_Inr_iff: "word_at ws i = Inr w \<longleftrightarrow> i < length ws \<and> w = ws ! i"
  by (auto simp: word_at_def)

text \<open>\<^verbatim>\<open>words[i] == s\<close>, and the short-circuit \<^verbatim>\<open>&&\<close> of two such tests.\<close>

definition word_is :: "string list \<Rightarrow> nat \<Rightarrow> string \<Rightarrow> halt + bool" where
  "word_is ws i s = bindE (word_at ws i) (\<lambda>w. Inr (w = s))"

definition andE :: "halt + bool \<Rightarrow> halt + bool \<Rightarrow> halt + bool" where
  "andE a b = bindE a (\<lambda>x. if x then b else Inr False)"

text \<open>The remainder of C++ integer division: its sign is the sign of the dividend.\<close>

definition cpp_rem :: "int \<Rightarrow> int \<Rightarrow> int" where
  "cpp_rem a b = sgn a * (\<bar>a\<bar> mod \<bar>b\<bar>)"

subsection \<open>Multi-word names (\<^verbatim>\<open>is_valid_potion_name\<close>)\<close>

text \<open>
  \<^verbatim>\<open>line.find(w)\<close> converted to \<^verbatim>\<open>int\<close>: the index of the first occurrence of \<open>w\<close>, and
  \<open>-1\<close> (\<^verbatim>\<open>npos\<close>) when there is none.
\<close>

fun find_from :: "string \<Rightarrow> string \<Rightarrow> nat \<Rightarrow> int" where
  "find_from w [] k = (if w = [] then int k else - 1)"
| "find_from w (c # cs) k =
     (if take (length w) (c # cs) = w then int k else find_from w cs (Suc k))"

definition str_find :: "string \<Rightarrow> string \<Rightarrow> int" where
  "str_find line w = find_from w line 0"

definition line_at :: "string \<Rightarrow> int \<Rightarrow> halt + char" where
  \<comment> \<open>\<^verbatim>\<open>line[i]\<close>; \<^verbatim>\<open>line[line.size()]\<close> is the terminating zero byte\<close>
  "line_at line i =
     (if 0 \<le> i \<and> i < int (length line) then Inr (line ! nat i)
      else if i = int (length line) then Inr (CHR 0x00)
      else Inl LineOutOfBounds)"

function no_double_space :: "string \<Rightarrow> int \<Rightarrow> int \<Rightarrow> halt + bool" where
  "no_double_space line i e =
     (if i < e then
        bindE (line_at line i) (\<lambda>c1.
          if c1 = CHR '' '' then
            bindE (line_at line (i + 1)) (\<lambda>c2.
              if c2 = CHR '' '' then Inr False else no_double_space line (i + 1) e)
          else no_double_space line (i + 1) e)
      else Inr True)"
  by pat_completeness auto
termination
  by (relation "measure (\<lambda>(line, i, e). nat (e - i))") auto

definition is_valid_potion_name :: "string list \<Rightarrow> string \<Rightarrow> nat \<Rightarrow> nat \<Rightarrow> halt + bool" where
  "is_valid_potion_name ws line start_index end_index =
     bindE (word_at ws start_index) (\<lambda>start_word.
     bindE (word_at ws end_index) (\<lambda>end_word.
       let start_index_in_line = str_find line start_word;
           end_index_in_line = str_find line end_word + int (length end_word) - 1
       in if \<not> list_all (\<lambda>i. is_alphabetical (ws ! i)) [start_index ..< Suc end_index]
          then Inr False
          else no_double_space line start_index_in_line end_index_in_line))"

subsection \<open>Sentence and question classification\<close>

definition detect_type :: "string list \<Rightarrow> int" where
  "detect_type ws =
     (if length ws = 0 then - 1
      else if ws ! (length ws - 1) = ''?'' then 1
      else if ws ! 0 = ''Exit'' \<and> length ws = 1 then 2
      else 0)"

text \<open>
  The loop shared by \<^verbatim>\<open>is_valid_loot\<close> and the second half of \<^verbatim>\<open>is_valid_trade\<close>
  (the same statements in both): \<^verbatim>\<open>while (curr_index < word_count - 1)\<close>.
\<close>

function ingredient_groups :: "string list \<Rightarrow> nat \<Rightarrow> halt + bool" where
  "ingredient_groups ws i =
     (if i + 1 < length ws then
        bindE (word_at ws i) (\<lambda>w.
          if \<not> is_integer w then Inr False
          else bindE (stoi w) (\<lambda>cnt.
            if sint cnt \<le> 0 then Inr False
            else bindE (word_at ws (i + 1)) (\<lambda>ing.
              if \<not> is_alphabetical ing then Inr False
              else bindE (if i + 2 + 1 < length ws then word_is ws (i + 2) '','' else Inr True)
                (\<lambda>comma_ok. if \<not> comma_ok then Inr False else ingredient_groups ws (i + 3)))))
      else Inr True)"
  by pat_completeness auto
termination
  by (relation "measure (\<lambda>(ws, i). length ws - i)") auto

definition is_valid_loot :: "string list \<Rightarrow> halt + bool" where
  "is_valid_loot ws =
     (if length ws mod 3 \<noteq> 1 \<or> length ws < 4 then Inr False else ingredient_groups ws 2)"

text \<open>
  The first loop of \<^verbatim>\<open>is_valid_trade\<close> (\<^verbatim>\<open>while (true)\<close>): \<open>None\<close> is
  \<^verbatim>\<open>return false\<close>, \<open>Some j\<close> the index after \<^verbatim>\<open>for\<close> at the \<^verbatim>\<open>break\<close>.
\<close>

function trade_trophy_groups :: "string list \<Rightarrow> nat \<Rightarrow> halt + nat option" where
  "trade_trophy_groups ws i =
     bindE (word_at ws i) (\<lambda>w.
       if \<not> is_integer w then Inr None
       else bindE (stoi w) (\<lambda>cnt.
         if sint cnt \<le> 0 then Inr None
         else bindE (word_at ws (i + 1)) (\<lambda>ing.
           if \<not> is_alphabetical ing then Inr None
           else bindE (word_at ws (i + 3)) (\<lambda>w3.
             if w3 = ''for'' then
               bindE (word_at ws (i + 2)) (\<lambda>w2.
                 if w2 \<noteq> ''trophy'' then Inr None else Inr (Some (i + 4)))
             else
               bindE (word_at ws (i + 2)) (\<lambda>w2.
                 if w2 \<noteq> '','' then Inr None else trade_trophy_groups ws (i + 3))))))"
  by pat_completeness auto
termination
  by (relation "measure (\<lambda>(ws, i). length ws - i)") (auto simp: word_at_Inr_iff)

definition is_valid_trade :: "string list \<Rightarrow> halt + bool" where
  "is_valid_trade ws =
     bindE (trade_trophy_groups ws 2) (\<lambda>r.
       case r of
         None \<Rightarrow> Inr False
       | Some curr_index \<Rightarrow>
           if cpp_rem (int (length ws) - int curr_index) 3 \<noteq> 2 then Inr False
           else ingredient_groups ws curr_index)"

definition is_valid_sign_knowledge :: "string list \<Rightarrow> halt + bool" where
  "is_valid_sign_knowledge ws =
     (if length ws \<noteq> 8 then Inr False
      else bindE (andE (word_is ws 4 ''is'')
                   (andE (word_is ws 5 ''effective'') (word_is ws 6 ''against''))) (\<lambda>shape.
        if shape then
          bindE (word_at ws 2) (\<lambda>sign.
            if \<not> is_alphabetical sign then Inr False
            else bindE (word_at ws 7) (\<lambda>monster.
              if \<not> is_alphabetical monster then Inr False else Inr True))
        else Inr False))"

definition is_valid_potion_knowledge :: "string list \<Rightarrow> nat \<Rightarrow> halt + bool" where
  "is_valid_potion_knowledge ws curr_index =
     bindE (andE (word_is ws (curr_index + 2) ''effective'')
                 (word_is ws (curr_index + 3) ''against'')) (\<lambda>shape.
       if shape then
         bindE (word_at ws (curr_index + 4)) (\<lambda>monster.
         bindE (word_at ws (length ws - 1)) (\<lambda>last_word.
           if monster \<noteq> last_word then Inr False
           else if \<not> is_alphabetical monster then Inr False
           else Inr True))
       else Inr False)"

text \<open>The loop of \<^verbatim>\<open>is_valid_potion_recipe\<close>: \<^verbatim>\<open>while (curr_index <= word_count - 1)\<close>.\<close>

function recipe_groups :: "string list \<Rightarrow> nat \<Rightarrow> halt + bool" where
  "recipe_groups ws i =
     (if i < length ws then
        bindE (word_at ws i) (\<lambda>w.
          if \<not> is_integer w then Inr False
          else bindE (stoi w) (\<lambda>cnt.
            if sint cnt \<le> 0 then Inr False
            else bindE (word_at ws (i + 1)) (\<lambda>ing.
              if \<not> is_alphabetical ing then Inr False
              else bindE (if i + 2 < length ws then word_is ws (i + 2) '','' else Inr True)
                (\<lambda>comma_ok. if \<not> comma_ok then Inr False else recipe_groups ws (i + 3)))))
      else Inr True)"
  by pat_completeness auto
termination
  by (relation "measure (\<lambda>(ws, i). length ws - i)") auto

definition is_valid_potion_recipe :: "string list \<Rightarrow> nat \<Rightarrow> halt + bool" where
  "is_valid_potion_recipe ws curr_index =
     (if cpp_rem (int (length ws) - int curr_index) 3 \<noteq> 2 then Inr False
      else recipe_groups ws curr_index)"

definition is_valid_encounter :: "string list \<Rightarrow> halt + bool" where
  "is_valid_encounter ws =
     (if length ws \<noteq> 4 then Inr False
      else bindE (word_at ws 3) (\<lambda>monster.
        if \<not> is_alphabetical monster then Inr False else Inr True))"


text \<open>
  The scan for the word \<^verbatim>\<open>potion\<close> in \<^verbatim>\<open>detect_sentence_type\<close>:
  \<^verbatim>\<open>while (words[curr_index] != "potion" && curr_index < word_count)\<close>. The name it
  builds is not used by the classifier; its reads of \<^verbatim>\<open>words\<close> are kept.
\<close>

function scan_potion :: "string list \<Rightarrow> nat \<Rightarrow> halt + nat" where
  "scan_potion ws i =
     bindE (word_at ws i) (\<lambda>w.
       if w \<noteq> ''potion'' \<and> i < length ws then
         bindE (word_at ws (i + 1)) (\<lambda>next_word. scan_potion ws (i + 1))
       else Inr i)"
  by pat_completeness auto
termination
  by (relation "measure (\<lambda>(ws, i). length ws - i)") (auto simp: word_at_Inr_iff)

definition learns_potion :: "string list \<Rightarrow> string \<Rightarrow> halt + int" where
  \<comment> \<open>the \<^verbatim>\<open>else\<close> branch of \<^verbatim>\<open>words[3] == "sign"\<close>\<close>
  "learns_potion ws line =
     (if ''potion'' \<notin> set (drop 2 ws) then Inr (- 1)
      else bindE (scan_potion ws 2) (\<lambda>curr_index.
        bindE (is_valid_potion_name ws line 2 (curr_index - 1)) (\<lambda>name_ok.
          if \<not> name_ok then Inr (- 1)
          else bindE (word_is ws curr_index ''potion'') (\<lambda>at_potion.
            if \<not> at_potion then Inr (- 1)
            else bindE (word_is ws (curr_index + 1) ''is'') (\<lambda>is_knowledge.
              if is_knowledge then
                bindE (is_valid_potion_knowledge ws curr_index) (\<lambda>ok.
                  if \<not> ok then Inr (- 1) else Inr 4)
              else
                bindE (andE (word_is ws (curr_index + 1) ''consists'')
                            (word_is ws (curr_index + 2) ''of'')) (\<lambda>is_recipe.
                  if is_recipe then
                    bindE (is_valid_potion_recipe ws (curr_index + 3)) (\<lambda>ok.
                      if \<not> ok then Inr (- 1) else Inr 5)
                  else Inr (- 1)))))))"

definition detect_sentence_type :: "string list \<Rightarrow> string \<Rightarrow> halt + int" where
  "detect_sentence_type ws line =
     bindE (word_at ws 0) (\<lambda>w0.
       if w0 \<noteq> ''Geralt'' then Inr (- 1)
       else if length ws \<le> 2 then Inr (- 1)
       else bindE (word_at ws 2) (\<lambda>w2.
         if w2 = '','' then Inr (- 1)
         else bindE (word_at ws (length ws - 1)) (\<lambda>last_word.
           if last_word = '','' then Inr (- 1)
           else bindE (word_at ws 1) (\<lambda>w1.
             if w1 = ''loots'' then
               bindE (is_valid_loot ws) (\<lambda>ok. if \<not> ok then Inr (- 1) else Inr 0)
             else if w1 = ''trades'' then
               bindE (is_valid_trade ws) (\<lambda>ok. if \<not> ok then Inr (- 1) else Inr 1)
             else if w1 = ''brews'' then
               bindE (is_valid_potion_name ws line 2 (length ws - 1)) (\<lambda>ok.
                 if \<not> ok then Inr (- 1) else Inr 2)
             else if w1 = ''learns'' then
               (if length ws < 8 then Inr (- 1)
                else bindE (word_at ws 3) (\<lambda>w3.
                  if w3 = ''sign'' then
                    bindE (is_valid_sign_knowledge ws) (\<lambda>ok. if \<not> ok then Inr (- 1) else Inr 3)
                  else learns_potion ws line))
             else if w1 = ''encounters'' \<and> w2 = ''a'' then
               bindE (is_valid_encounter ws) (\<lambda>ok. if \<not> ok then Inr (- 1) else Inr 6)
             else Inr (- 1)))))"

text \<open>
  \<^verbatim>\<open>detect_question_type\<close> is a sequence of \<^verbatim>\<open>if\<close> blocks, each of which returns or falls
  through to the next. A block is modelled by a function whose result \<open>None\<close> is the
  fall-through.
\<close>

definition question_ingredient :: "string list \<Rightarrow> halt + int option" where
  "question_ingredient ws =
     bindE (andE (word_is ws 0 ''Total'') (word_is ws 1 ''ingredient'')) (\<lambda>here.
       if here then
         bindE (word_at ws 2) (\<lambda>w2.
           if w2 \<noteq> ''?'' \<and> length ws = 4 then
             (if \<not> is_alphabetical w2 then Inr (Some (- 1)) else Inr (Some 0))
           else if w2 = ''?'' \<and> length ws = 3 then Inr (Some 1)
           else Inr None)
       else Inr None)"

definition question_potion :: "string list \<Rightarrow> string \<Rightarrow> halt + int option" where
  "question_potion ws line =
     bindE (andE (word_is ws 0 ''Total'') (word_is ws 1 ''potion'')) (\<lambda>here.
       if here then
         bindE (if length ws = 3 then word_is ws 2 ''?'' else Inr False) (\<lambda>total.
           if total then Inr (Some 3)
           else bindE (is_valid_potion_name ws line 2 (length ws - 2)) (\<lambda>ok.
             if \<not> ok then Inr (Some (- 1))
             else bindE (word_at ws (length ws - 1)) (\<lambda>last_word.
               if last_word \<noteq> ''?'' then Inr (Some (- 1)) else Inr (Some 2))))
       else Inr None)"

definition question_trophy :: "string list \<Rightarrow> halt + int option" where
  "question_trophy ws =
     bindE (andE (word_is ws 0 ''Total'') (word_is ws 1 ''trophy'')) (\<lambda>here.
       if here then
         bindE (if length ws = 3 then word_is ws 2 ''?'' else Inr False) (\<lambda>total.
           if total then Inr (Some 5)
           else bindE (if length ws = 4
                       then bindE (word_at ws 2) (\<lambda>w2. Inr (is_alphabetical w2))
                       else Inr False) (\<lambda>specific.
             if specific then
               bindE (word_at ws (length ws - 1)) (\<lambda>last_word.
                 if last_word \<noteq> ''?'' then Inr (Some (- 1)) else Inr (Some 4))
             else Inr None))
       else Inr None)"

definition question_monster :: "string list \<Rightarrow> halt + int option" where
  "question_monster ws =
     bindE (andE (word_is ws 0 ''What'') (andE (word_is ws 1 ''is'')
             (andE (word_is ws 2 ''effective'') (word_is ws 3 ''against'')))) (\<lambda>here.
       if here then
         (if length ws \<noteq> 6 then Inr (Some (- 1))
          else bindE (word_at ws 4) (\<lambda>monster.
            if \<not> is_alphabetical monster then Inr (Some (- 1)) else Inr (Some 6)))
       else Inr None)"

text \<open>
  The scan for \<^verbatim>\<open>?\<close> of the formula question:
  \<^verbatim>\<open>while (words[curr_index] != "?" && curr_index < word_count)\<close>.
\<close>

function scan_question_mark :: "string list \<Rightarrow> nat \<Rightarrow> halt + nat" where
  "scan_question_mark ws i =
     bindE (word_at ws i) (\<lambda>w.
       if w \<noteq> ''?'' \<and> i < length ws then
         bindE (word_at ws (i + 1)) (\<lambda>next_word. scan_question_mark ws (i + 1))
       else Inr i)"
  by pat_completeness auto
termination
  by (relation "measure (\<lambda>(ws, i). length ws - i)") (auto simp: word_at_Inr_iff)

definition question_formula :: "string list \<Rightarrow> string \<Rightarrow> halt + int option" where
  "question_formula ws line =
     bindE (andE (word_is ws 0 ''What'') (andE (word_is ws 1 ''is'') (word_is ws 2 ''in'')))
       (\<lambda>here.
         if here then
           bindE (scan_question_mark ws 3) (\<lambda>curr_index.
             bindE (is_valid_potion_name ws line 3 (curr_index - 1)) (\<lambda>ok.
               if \<not> ok then Inr (Some (- 1))
               else bindE (word_is ws curr_index ''?'') (\<lambda>at_mark.
                 if \<not> at_mark then Inr (Some (- 1))
                 else if length ws = curr_index + 1 then Inr (Some 7)
                 else Inr None)))
         else Inr None)"

definition or_else :: "halt + int option \<Rightarrow> halt + int option \<Rightarrow> halt + int option" where
  "or_else a b = bindE a (\<lambda>r. case r of Some v \<Rightarrow> Inr (Some v) | None \<Rightarrow> b)"

definition detect_question_type :: "string list \<Rightarrow> string \<Rightarrow> halt + int" where
  "detect_question_type ws line =
     bindE (or_else (question_ingredient ws)
             (or_else (question_potion ws line)
               (or_else (question_trophy ws)
                 (or_else (question_monster ws) (question_formula ws line)))))
       (\<lambda>r. case r of Some v \<Rightarrow> Inr v | None \<Rightarrow> Inr (- 1))"


subsection \<open>Containers\<close>

text \<open>
  \<^verbatim>\<open>std::map\<close>: \<^verbatim>\<open>m.find(k)\<close> is \<^const>\<open>map_of\<close>, \<^verbatim>\<open>m[k] = v\<close> is \<open>map_put\<close>,
  \<^verbatim>\<open>m.erase(k)\<close> is \<open>map_erase\<close>. \<^verbatim>\<open>std::set::insert\<close> is \<open>set_insert\<close>.
\<close>

fun map_put :: "string \<Rightarrow> 'v \<Rightarrow> (string \<times> 'v) list \<Rightarrow> (string \<times> 'v) list" where
  "map_put k v [] = [(k, v)]"
| "map_put k v ((k', v') # m) =
     (if k = k' then (k, v) # m
      else if k < k' then (k, v) # (k', v') # m
      else (k', v') # map_put k v m)"

definition map_erase :: "string \<Rightarrow> (string \<times> 'v) list \<Rightarrow> (string \<times> 'v) list" where
  "map_erase k m = filter (\<lambda>p. fst p \<noteq> k) m"

fun set_insert :: "string \<Rightarrow> string list \<Rightarrow> string list" where
  "set_insert x [] = [x]"
| "set_insert x (y # ys) =
     (if x = y then y # ys
      else if x < y then x # y # ys
      else y # set_insert x ys)"

subsection \<open>Potion (\<^verbatim>\<open>Potion.cpp\<close>) and Monster (\<^verbatim>\<open>Monster.cpp\<close>)\<close>

text \<open>A \<^verbatim>\<open>Potion\<close> has one member, the vector of its ingredients.\<close>

type_synonym Potion = "(string \<times> cpp_int) list"

definition ingredient_before :: "string \<times> cpp_int \<Rightarrow> string \<times> cpp_int \<Rightarrow> bool" where
  \<comment> \<open>the comparison given to \<^verbatim>\<open>std::sort\<close>\<close>
  "ingredient_before a b =
     (if snd a = snd b then fst a < fst b else sint (snd a) > sint (snd b))"

text \<open>
  \<^verbatim>\<open>Potion::get_ingredients\<close> sorts the member in place and returns it. The comparison is
  a strict total order on pairs, so the sorted vector does not depend on the algorithm
  of \<^verbatim>\<open>std::sort\<close>; insertion sort computes it.
\<close>

fun insert_ingredient :: "string \<times> cpp_int \<Rightarrow> Potion \<Rightarrow> Potion" where
  "insert_ingredient a [] = [a]"
| "insert_ingredient a (b # bs) =
     (if ingredient_before b a then b # insert_ingredient a bs else a # b # bs)"

definition get_ingredients :: "Potion \<Rightarrow> Potion" where
  "get_ingredients p = foldr insert_ingredient p []"

record Monster =
  signs_against :: "string list"
  potions_against :: "string list"

definition new_monster :: Monster where
  "new_monster = \<lparr>signs_against = [], potions_against = []\<rparr>"

definition add_sign :: "string \<Rightarrow> Monster \<Rightarrow> Monster" where
  "add_sign sign m = m\<lparr>signs_against := set_insert sign (signs_against m)\<rparr>"

definition add_potion :: "string \<Rightarrow> Monster \<Rightarrow> Monster" where
  "add_potion potion m = m\<lparr>potions_against := set_insert potion (potions_against m)\<rparr>"

subsection \<open>Inventory (\<^verbatim>\<open>Inventory.cpp\<close>)\<close>

record Inventory =
  ingredients :: "(string \<times> cpp_int) list"
  trophies :: "(string \<times> cpp_int) list"
  potion_counts :: "(string \<times> cpp_int) list"
  potions :: "(string \<times> Potion) list"
  monsters :: "(string \<times> Monster) list"

definition empty_inventory :: Inventory where
  "empty_inventory =
     \<lparr>ingredients = [], trophies = [], potion_counts = [], potions = [], monsters = []\<rparr>"

definition add_ingredient :: "string \<Rightarrow> cpp_int \<Rightarrow> Inventory \<Rightarrow> Inventory" where
  "add_ingredient name cnt s =
     (case map_of (ingredients s) name of
        Some c \<Rightarrow> s\<lparr>ingredients := map_put name (c + cnt) (ingredients s)\<rparr>
      | None \<Rightarrow> s\<lparr>ingredients := map_put name cnt (ingredients s)\<rparr>)"

definition decrease_trophy :: "string \<Rightarrow> cpp_int \<Rightarrow> Inventory \<Rightarrow> Inventory" where
  "decrease_trophy name cnt s =
     (case map_of (trophies s) name of
        Some c \<Rightarrow>
          if sint (c - cnt) \<le> 0 then s\<lparr>trophies := map_erase name (trophies s)\<rparr>
          else s\<lparr>trophies := map_put name (c - cnt) (trophies s)\<rparr>
      | None \<Rightarrow> s)"

definition use_ingredient :: "string \<Rightarrow> cpp_int \<Rightarrow> Inventory \<Rightarrow> Inventory" where
  "use_ingredient name cnt s =
     (case map_of (ingredients s) name of
        Some c \<Rightarrow>
          if sint (c - cnt) \<le> 0 then s\<lparr>ingredients := map_erase name (ingredients s)\<rparr>
          else s\<lparr>ingredients := map_put name (c - cnt) (ingredients s)\<rparr>
      | None \<Rightarrow> s)"

text \<open>
  The loop of \<^verbatim>\<open>handle_loot\<close>, which is also the last loop of \<^verbatim>\<open>handle_trade\<close>:
  \<^verbatim>\<open>while (curr_index < word_count - 1)\<close>.
\<close>

function add_ingredients_from :: "string list \<Rightarrow> nat \<Rightarrow> Inventory \<Rightarrow> halt + Inventory" where
  "add_ingredients_from ws i s =
     (if i + 1 < length ws then
        bindE (word_at ws i) (\<lambda>w.
        bindE (stoi w) (\<lambda>cnt.
        bindE (word_at ws (i + 1)) (\<lambda>ing.
          add_ingredients_from ws (i + 3) (add_ingredient ing cnt s))))
      else Inr s)"
  by pat_completeness auto
termination
  by (relation "measure (\<lambda>(ws, i, s). length ws - i)") auto

definition handle_loot :: "string list \<Rightarrow> Inventory \<Rightarrow> halt + Inventory \<times> string" where
  "handle_loot ws s =
     bindE (add_ingredients_from ws 2 s) (\<lambda>s'. Inr (s', ''Alchemy ingredients obtained''))"

text \<open>
  The first loop of \<^verbatim>\<open>handle_trade\<close> (\<^verbatim>\<open>while (true)\<close>), with the local map
  \<^verbatim>\<open>trophies_to_trade\<close>: \<open>None\<close> is the early return after \<^verbatim>\<open>Not enough trophies\<close>,
  \<open>Some (j, tt)\<close> the index after \<^verbatim>\<open>for\<close> and the map at the \<^verbatim>\<open>break\<close>.
\<close>

function collect_trophies ::
  "string list \<Rightarrow> nat \<Rightarrow> (string \<times> cpp_int) list \<Rightarrow> Inventory
     \<Rightarrow> halt + (nat \<times> (string \<times> cpp_int) list) option" where
  "collect_trophies ws i tt s =
     bindE (word_at ws i) (\<lambda>w.
     bindE (stoi w) (\<lambda>cnt.
     bindE (word_at ws (i + 1)) (\<lambda>trophy.
       if (case map_of (trophies s) trophy of None \<Rightarrow> True | Some c \<Rightarrow> sint c < sint cnt)
       then Inr None
       else bindE (word_at ws (i + 3)) (\<lambda>w3.
         if w3 = ''for'' then Inr (Some (i + 4, map_put trophy cnt tt))
         else collect_trophies ws (i + 3) (map_put trophy cnt tt) s))))"
  by pat_completeness auto
termination
  by (relation "measure (\<lambda>(ws, i, tt, s). length ws - i)") (auto simp: word_at_Inr_iff)

definition handle_trade :: "string list \<Rightarrow> Inventory \<Rightarrow> halt + Inventory \<times> string" where
  "handle_trade ws s =
     bindE (collect_trophies ws 2 [] s) (\<lambda>r.
       case r of
         None \<Rightarrow> Inr (s, ''Not enough trophies'')
       | Some (curr_index, trophies_to_trade) \<Rightarrow>
           bindE (add_ingredients_from ws curr_index
                    (fold (\<lambda>pair. decrease_trophy (fst pair) (snd pair)) trophies_to_trade s))
             (\<lambda>s'. Inr (s', ''Trade successful'')))"

text \<open>Words joined by single spaces, as the name-building loops do.\<close>

fun join_words :: "string list \<Rightarrow> string" where
  "join_words [] = []"
| "join_words [w] = w"
| "join_words (w # v # ws) = w @ '' '' @ join_words (v # ws)"

definition handle_brew :: "string list \<Rightarrow> Inventory \<Rightarrow> halt + Inventory \<times> string" where
  "handle_brew ws s =
     (let potion_name = join_words (drop 2 ws) in
      case map_of (potions s) potion_name of
        None \<Rightarrow> Inr (s, ''No formula for '' @ potion_name)
      | Some p \<Rightarrow>
          let ingredients_needed = get_ingredients p;
              s1 = s\<lparr>potions := map_put potion_name ingredients_needed (potions s)\<rparr>
          in if list_ex (\<lambda>pair. case map_of (ingredients s1) (fst pair) of
                                    None \<Rightarrow> True
                                  | Some c \<Rightarrow> sint c < sint (snd pair)) ingredients_needed
             then Inr (s1, ''Not enough ingredients'')
             else
               let s2 = fold (\<lambda>pair. use_ingredient (fst pair) (snd pair)) ingredients_needed s1;
                   c = (case map_of (potion_counts s2) potion_name of None \<Rightarrow> 0 | Some c \<Rightarrow> c)
               in Inr (s2\<lparr>potion_counts := map_put potion_name (c + 1) (potion_counts s2)\<rparr>,
                       ''Alchemy item created: '' @ potion_name))"

definition handle_sign_knowledge :: "string list \<Rightarrow> Inventory \<Rightarrow> halt + Inventory \<times> string" where
  "handle_sign_knowledge ws s =
     bindE (word_at ws 2) (\<lambda>sign_name.
     bindE (word_at ws 7) (\<lambda>monster_name.
       case map_of (monsters s) monster_name of
         None \<Rightarrow>
           Inr (s\<lparr>monsters := map_put monster_name (add_sign sign_name new_monster) (monsters s)\<rparr>,
                ''New bestiary entry added: '' @ monster_name)
       | Some m \<Rightarrow>
           if sign_name \<notin> set (signs_against m) then
             Inr (s\<lparr>monsters := map_put monster_name (add_sign sign_name m) (monsters s)\<rparr>,
                  ''Bestiary entry updated: '' @ monster_name)
           else Inr (s, ''Already known effectiveness'')))"

text \<open>
  The name-building loop of \<^verbatim>\<open>handle_potion_knowledge\<close> and \<^verbatim>\<open>handle_potion_recipe\<close>:
  \<^verbatim>\<open>while (words[curr_index] != "potion")\<close>; it returns the name and the index of
  \<^verbatim>\<open>potion\<close>.
\<close>

function potion_name_until ::
  "string list \<Rightarrow> nat \<Rightarrow> string \<Rightarrow> halt + string \<times> nat" where
  "potion_name_until ws i name =
     bindE (word_at ws i) (\<lambda>w.
       if w \<noteq> ''potion'' then
         bindE (word_at ws (i + 1)) (\<lambda>next_word.
           potion_name_until ws (i + 1)
             (name @ w @ (if next_word \<noteq> ''potion'' then '' '' else [])))
       else Inr (name, i))"
  by pat_completeness auto
termination
  by (relation "measure (\<lambda>(ws, i, name). length ws - i)") (auto simp: word_at_Inr_iff)

definition handle_potion_knowledge :: "string list \<Rightarrow> Inventory \<Rightarrow> halt + Inventory \<times> string" where
  "handle_potion_knowledge ws s =
     bindE (potion_name_until ws 2 []) (\<lambda>(potion_name, curr_index).
     bindE (word_at ws (curr_index + 4)) (\<lambda>monster_name.
       case map_of (monsters s) monster_name of
         None \<Rightarrow>
           Inr (s\<lparr>monsters :=
                    map_put monster_name (add_potion potion_name new_monster) (monsters s)\<rparr>,
                ''New bestiary entry added: '' @ monster_name)
       | Some m \<Rightarrow>
           if potion_name \<notin> set (potions_against m) then
             Inr (s\<lparr>monsters := map_put monster_name (add_potion potion_name m) (monsters s)\<rparr>,
                  ''Bestiary entry updated: '' @ monster_name)
           else Inr (s, ''Already known effectiveness'')))"

text \<open>The parsing loop of \<^verbatim>\<open>handle_potion_recipe\<close>, with \<^verbatim>\<open>push_back\<close>.\<close>

function formula_from :: "string list \<Rightarrow> nat \<Rightarrow> Potion \<Rightarrow> halt + Potion" where
  "formula_from ws i formula_ingredients =
     (if i + 1 < length ws then
        bindE (word_at ws i) (\<lambda>w.
        bindE (stoi w) (\<lambda>cnt.
        bindE (word_at ws (i + 1)) (\<lambda>ing.
          formula_from ws (i + 3) (formula_ingredients @ [(ing, cnt)]))))
      else Inr formula_ingredients)"
  by pat_completeness auto
termination
  by (relation "measure (\<lambda>(ws, i, f). length ws - i)") auto

definition handle_potion_recipe :: "string list \<Rightarrow> Inventory \<Rightarrow> halt + Inventory \<times> string" where
  "handle_potion_recipe ws s =
     bindE (potion_name_until ws 2 []) (\<lambda>(potion_name, curr_index).
       case map_of (potions s) potion_name of
         Some p \<Rightarrow>
           if length (get_ingredients p) > 0 then
             Inr (s\<lparr>potions := map_put potion_name (get_ingredients p) (potions s)\<rparr>,
                  ''Already known formula'')
           else
             bindE (formula_from ws (curr_index + 3) []) (\<lambda>formula_ingredients.
               Inr (s\<lparr>potions := map_put potion_name formula_ingredients
                                    (map_put potion_name (get_ingredients p) (potions s))\<rparr>,
                    ''New alchemy formula obtained: '' @ potion_name))
       | None \<Rightarrow>
           bindE (formula_from ws (curr_index + 3) []) (\<lambda>formula_ingredients.
             Inr (s\<lparr>potions := map_put potion_name formula_ingredients (potions s)\<rparr>,
                  ''New alchemy formula obtained: '' @ potion_name)))"


definition use_potion :: "string \<Rightarrow> Inventory \<Rightarrow> Inventory" where
  \<comment> \<open>the body of the loop of \<^verbatim>\<open>use_one_potion_each\<close>\<close>
  "use_potion potion s =
     (case map_of (potion_counts s) potion of
        Some c \<Rightarrow>
          if sint c > 0 then
            (if c - 1 = 0 then s\<lparr>potion_counts := map_erase potion (potion_counts s)\<rparr>
             else s\<lparr>potion_counts := map_put potion (c - 1) (potion_counts s)\<rparr>)
          else s
      | None \<Rightarrow> s)"

definition use_one_potion_each :: "string \<Rightarrow> Inventory \<Rightarrow> Inventory" where
  \<comment> \<open>\<^verbatim>\<open>monsters[monster_name]\<close> creates an entry when there is none\<close>
  "use_one_potion_each monster_name s =
     (case map_of (monsters s) monster_name of
        Some m \<Rightarrow> fold use_potion (potions_against m) s
      | None \<Rightarrow> s\<lparr>monsters := map_put monster_name new_monster (monsters s)\<rparr>)"

definition award_trophy :: "string \<Rightarrow> Inventory \<Rightarrow> Inventory" where
  \<comment> \<open>the last statement of \<^verbatim>\<open>handle_encounter\<close>\<close>
  "award_trophy monster_name s =
     (case map_of (trophies s) monster_name of
        None \<Rightarrow> s\<lparr>trophies := map_put monster_name 1 (trophies s)\<rparr>
      | Some c \<Rightarrow> s\<lparr>trophies := map_put monster_name (c + 1) (trophies s)\<rparr>)"

definition unprepared :: string where
  "unprepared = ''Geralt is unprepared and barely escapes with his life''"

definition in_stock :: "Inventory \<Rightarrow> string \<Rightarrow> bool" where
  \<comment> \<open>\<^verbatim>\<open>potion_counts.find(potion) != potion_counts.end() && potion_counts[potion] > 0\<close>\<close>
  "in_stock s potion =
     (case map_of (potion_counts s) potion of None \<Rightarrow> False | Some c \<Rightarrow> sint c > 0)"

definition handle_encounter :: "string list \<Rightarrow> Inventory \<Rightarrow> halt + Inventory \<times> string" where
  "handle_encounter ws s =
     bindE (word_at ws 3) (\<lambda>monster_name.
       case map_of (monsters s) monster_name of
         None \<Rightarrow> Inr (s, unprepared)
       | Some m \<Rightarrow>
           if length (signs_against m) = 0 \<and> length (potions_against m) = 0
           then Inr (s, unprepared)
           else if length (signs_against m) = 0 \<and> \<not> list_ex (in_stock s) (potions_against m)
           then Inr (s, unprepared)
           else Inr (award_trophy monster_name (use_one_potion_each monster_name s),
                     ''Geralt defeats '' @ monster_name))"

subsection \<open>Queries\<close>

definition digit_char :: "nat \<Rightarrow> char" where
  "digit_char d = ''0123456789'' ! d"

function show_nat :: "nat \<Rightarrow> string" where
  "show_nat n = (if n < 10 then [digit_char n] else show_nat (n div 10) @ [digit_char (n mod 10)])"
  by pat_completeness auto
termination
  by (relation "measure id") auto

definition show_int :: "cpp_int \<Rightarrow> string" where
  \<comment> \<open>\<^verbatim>\<open>std::cout << n\<close> for an \<^verbatim>\<open>int\<close>\<close>
  "show_int n = (if sint n < 0 then CHR ''-'' # show_nat (nat (- sint n)) else show_nat (nat (sint n)))"

fun join_with :: "string \<Rightarrow> string list \<Rightarrow> string" where
  "join_with sep [] = []"
| "join_with sep [x] = x"
| "join_with sep (x # y # xs) = x @ sep @ join_with sep (y # xs)"

definition show_pair :: "string \<times> cpp_int \<Rightarrow> string" where
  \<comment> \<open>\<^verbatim>\<open>pair.second << " " << pair.first\<close>\<close>
  "show_pair pair = show_int (snd pair) @ '' '' @ fst pair"

definition get_ingredient_count :: "string \<Rightarrow> Inventory \<Rightarrow> cpp_int" where
  "get_ingredient_count name s = (case map_of (ingredients s) name of Some c \<Rightarrow> c | None \<Rightarrow> 0)"

definition get_trophy_count :: "string \<Rightarrow> Inventory \<Rightarrow> cpp_int" where
  "get_trophy_count name s = (case map_of (trophies s) name of Some c \<Rightarrow> c | None \<Rightarrow> 0)"

definition get_potion_count :: "string list \<Rightarrow> Inventory \<Rightarrow> cpp_int" where
  "get_potion_count ws s =
     (case map_of (potion_counts s) (join_words (drop 2 (butlast ws))) of
        Some c \<Rightarrow> c | None \<Rightarrow> 0)"

definition print_counts :: "(string \<times> cpp_int) list \<Rightarrow> string" where
  \<comment> \<open>\<^verbatim>\<open>print_ingredients\<close>, \<^verbatim>\<open>print_potions\<close> and \<^verbatim>\<open>print_trophies\<close>, on their map\<close>
  "print_counts m = (if length m = 0 then ''None'' else join_with '', '' (map show_pair m))"

fun merge_names :: "string list \<Rightarrow> string list \<Rightarrow> string list" where
  \<comment> \<open>\<^verbatim>\<open>std::merge\<close>\<close>
  "merge_names [] ys = ys"
| "merge_names xs [] = xs"
| "merge_names (x # xs) (y # ys) =
     (if y < x then y # merge_names (x # xs) ys else x # merge_names xs (y # ys))"

definition print_monster_knowledge :: "string \<Rightarrow> Inventory \<Rightarrow> string" where
  "print_monster_knowledge monster_name s =
     (case map_of (monsters s) monster_name of
        None \<Rightarrow> ''No knowledge of '' @ monster_name
      | Some m \<Rightarrow>
          if signs_against m = [] \<and> potions_against m = []
          then ''No knowledge of '' @ monster_name
          else join_with '', '' (merge_names (signs_against m) (potions_against m)))"

definition print_potion_formula :: "string list \<Rightarrow> Inventory \<Rightarrow> Inventory \<times> string" where
  "print_potion_formula ws s =
     (let potion_name = join_words (drop 3 (butlast ws)) in
      case map_of (potions s) potion_name of
        None \<Rightarrow> (s, ''No formula for '' @ potion_name)
      | Some p \<Rightarrow>
          let ingredients = get_ingredients p;
              s1 = s\<lparr>potions := map_put potion_name ingredients (potions s)\<rparr>
          in if ingredients = [] then (s1, ''No formula for '' @ potion_name)
             else (s1, join_with '', '' (map show_pair ingredients)))"

subsection \<open>\<^verbatim>\<open>execute_line\<close> (\<^verbatim>\<open>main.cpp\<close>)\<close>

definition answer_question :: "int \<Rightarrow> string list \<Rightarrow> Inventory \<Rightarrow> halt + Inventory \<times> string" where
  \<comment> \<open>the \<^verbatim>\<open>switch (question_type)\<close>\<close>
  "answer_question question_type ws s =
     (if question_type = 0 then
        bindE (word_at ws 2) (\<lambda>name. Inr (s, show_int (get_ingredient_count name s)))
      else if question_type = 1 then Inr (s, print_counts (ingredients s))
      else if question_type = 2 then Inr (s, show_int (get_potion_count ws s))
      else if question_type = 3 then Inr (s, print_counts (potion_counts s))
      else if question_type = 4 then
        bindE (word_at ws 2) (\<lambda>name. Inr (s, show_int (get_trophy_count name s)))
      else if question_type = 5 then Inr (s, print_counts (trophies s))
      else if question_type = 6 then
        bindE (word_at ws 4) (\<lambda>monster_name. Inr (s, print_monster_knowledge monster_name s))
      else if question_type = 7 then Inr (print_potion_formula ws s)
      else Inr (s, ''INVALID''))"

definition perform_sentence :: "int \<Rightarrow> string list \<Rightarrow> Inventory \<Rightarrow> halt + Inventory \<times> string" where
  \<comment> \<open>the \<^verbatim>\<open>switch (sentence_type)\<close>\<close>
  "perform_sentence sentence_type ws s =
     (if sentence_type = 0 then handle_loot ws s
      else if sentence_type = 1 then handle_trade ws s
      else if sentence_type = 2 then handle_brew ws s
      else if sentence_type = 3 then handle_sign_knowledge ws s
      else if sentence_type = 4 then handle_potion_knowledge ws s
      else if sentence_type = 5 then handle_potion_recipe ws s
      else if sentence_type = 6 then handle_encounter ws s
      else Inr (s, ''INVALID''))"

definition execute_line :: "string \<Rightarrow> Inventory \<Rightarrow> halt + Inventory \<times> string" where
  "execute_line line s =
     (let ws = split_line line; type = detect_type ws in
      if type = 2 then Inl Exit0
      else if type = 1 then
        bindE (detect_question_type ws line) (\<lambda>question_type.
          if question_type = - 1 then Inr (s, ''INVALID'')
          else answer_question question_type ws s)
      else if type = 0 then
        bindE (detect_sentence_type ws line) (\<lambda>sentence_type.
          if sentence_type = - 1 then Inr (s, ''INVALID'')
          else perform_sentence sentence_type ws s)
      else Inr (s, ''INVALID''))"

text \<open>
  The loop of \<^verbatim>\<open>main\<close> over the lines read: it stops at the line \<^verbatim>\<open>Exit\<close> and when
  \<^verbatim>\<open>execute_line\<close> does not return. The result is the state and the lines printed.
\<close>

fun run_lines :: "string list \<Rightarrow> Inventory \<Rightarrow> string list \<Rightarrow> halt + Inventory \<times> string list" where
  "run_lines [] s out = Inr (s, out)"
| "run_lines (line # rest) s out =
     (if line = ''Exit'' then Inr (s, out)
      else bindE (execute_line line s) (\<lambda>(s', response). run_lines rest s' (out @ [response])))"

text \<open>The states the program can be in after some lines, starting from the empty inventory.\<close>

inductive reachable :: "Inventory \<Rightarrow> bool" where
  reachable_init: "reachable empty_inventory"
| reachable_step: "reachable s \<Longrightarrow> execute_line line s = Inr (s', response) \<Longrightarrow> reachable s'"


subsection \<open>Orders and sample states used in the statements\<close>



text \<open>
  The lists that stand for a \<^verbatim>\<open>std::map\<close> or a \<^verbatim>\<open>std::set\<close>: keys and elements
  strictly ascending, as the containers keep them.
\<close>

definition sorted_keys :: "(string \<times> 'v) list \<Rightarrow> bool" where
  "sorted_keys m = sorted_wrt (<) (map fst m)"

definition well_formed :: "Inventory \<Rightarrow> bool" where
  "well_formed s =
     (sorted_keys (ingredients s) \<and> sorted_keys (trophies s) \<and> sorted_keys (potion_counts s) \<and>
      sorted_keys (potions s) \<and> sorted_keys (monsters s) \<and>
      list_all (\<lambda>entry. sorted_wrt (<) (signs_against (snd entry)) \<and>
                         sorted_wrt (<) (potions_against (snd entry))) (monsters s))"

text \<open>
  What one use of a potion leaves of its stock, and when an encounter is survivable, in
  the words of the specification.
\<close>

definition after_sip :: "cpp_int option \<Rightarrow> cpp_int option" where
  "after_sip stock =
     (case stock of
        None \<Rightarrow> None
      | Some c \<Rightarrow> if sint c > 0 then (if c = 1 then None else Some (c - 1)) else Some c)"

definition prepared :: "Inventory \<Rightarrow> string \<Rightarrow> bool" where
  "prepared s monster_name =
     (case map_of (monsters s) monster_name of
        None \<Rightarrow> False
      | Some m \<Rightarrow> signs_against m \<noteq> [] \<or> list_ex (in_stock s) (potions_against m))"

definition harpy_hunter :: Inventory where
  "harpy_hunter = empty_inventory
     \<lparr>potion_counts := [(''Swallow'', 1)],
      monsters := [(''Harpy'', \<lparr>signs_against = [''Igni''], potions_against = [''Swallow'', ''Thunder'']\<rparr>)]\<rparr>"

text \<open>The formula book holds no empty ingredient list.\<close>

definition formulas_nonempty :: "Inventory \<Rightarrow> bool" where
  "formulas_nonempty s = list_all (\<lambda>entry. snd entry \<noteq> []) (potions s)"

text \<open>
  The grammar of an ingredient list, on the tokens themselves. A count is a non-empty
  string of digits whose value lies between 1 and \<^verbatim>\<open>INT_MAX\<close>; a list is a sequence of
  groups (count, alphabetic name, comma) whose last group has no comma. \<open>fits_int\<close>
  holds of a token unless it is all digits and \<^verbatim>\<open>std::stoi\<close> would throw on it.
\<close>

definition count_token :: "string \<Rightarrow> bool" where
  "count_token c = (c \<noteq> [] \<and> is_integer c \<and> 0 < digits_value c \<and> int (digits_value c) \<le> INT_MAX)"

definition count_of :: "string \<Rightarrow> cpp_int" where
  "count_of c = word_of_int (int (digits_value c))"

definition fits_int :: "string \<Rightarrow> bool" where
  "fits_int c = (\<not> is_integer c \<or> (c \<noteq> [] \<and> int (digits_value c) \<le> INT_MAX))"

fun ingredient_list :: "string list \<Rightarrow> bool" where
  "ingredient_list [c, n] = (count_token c \<and> is_alphabetical n)"
| "ingredient_list (c # n # sep # rest) =
     (count_token c \<and> is_alphabetical n \<and> sep = '','' \<and> ingredient_list rest)"
| "ingredient_list _ = False"

text \<open>
  Two consecutive spaces in a string (what the code looks for) and two consecutive
  whitespace characters (what the specification speaks of); a line with two tabs
  inside a name.
\<close>

fun double_space :: "string \<Rightarrow> bool" where
  "double_space (a # b # cs) = ((a = CHR '' '' \<and> b = CHR '' '') \<or> double_space (b # cs))"
| "double_space _ = False"

fun double_whitespace :: "string \<Rightarrow> bool" where
  "double_whitespace (a # b # cs) = ((is_space a \<and> is_space b) \<or> double_whitespace (b # cs))"
| "double_whitespace _ = False"

definition tabbed_brew :: string where
  "tabbed_brew = ''Geralt brews Black'' @ [CHR 0x09, CHR 0x09] @ ''Blood''"

text \<open>
  What a deduction leaves of a stock (an entry that reaches zero or less is removed), when
  a ledger does not cover one request on its own, and the total a list of requests asks
  of one name; two sample states.
\<close>

definition deduct :: "cpp_int option \<Rightarrow> cpp_int \<Rightarrow> cpp_int option" where
  "deduct stock q =
     (case stock of None \<Rightarrow> None | Some c \<Rightarrow> if sint (c - q) \<le> 0 then None else Some (c - q))"

definition short_of :: "(string \<times> cpp_int) list \<Rightarrow> string \<times> cpp_int \<Rightarrow> bool" where
  "short_of ledger request =
     (case map_of ledger (fst request) of None \<Rightarrow> True | Some c \<Rightarrow> sint c < sint (snd request))"

definition required_total :: "(string \<times> cpp_int) list \<Rightarrow> string \<Rightarrow> int" where
  "required_total requests name = sum_list (map (\<lambda>r. sint (snd r)) (filter (\<lambda>r. fst r = name) requests))"

definition brewer :: Inventory where
  "brewer = empty_inventory
     \<lparr>ingredients := [(''Rebis'', 5), (''Vitriol'', 3)],
      potions := [(''Swallow'', [(''Vitriol'', 3), (''Rebis'', 2)])]\<rparr>"

definition twin_ready :: Inventory where
  "twin_ready = empty_inventory
     \<lparr>ingredients := [(''Rebis'', 5)],
      potions := [(''Twin'', [(''Rebis'', 3), (''Rebis'', 3)])]\<rparr>"

text \<open>
  The grammar of a Trade sentence after \<^verbatim>\<open>Geralt trades\<close>, on the tokens themselves:
  listings \<open>count name\<close> separated by commas, the last one followed by \<^verbatim>\<open>trophy for\<close>.
  \<open>trophy_listing\<close> returns the listings in order and the tokens that follow \<^verbatim>\<open>for\<close>;
  \<open>ingredient_requests\<close> reads an ingredient list as pairs of name and count, and
  \<open>requested_sum\<close> adds the counts requested for one name.
\<close>

fun trophy_listing :: "string list \<Rightarrow> ((string \<times> cpp_int) list \<times> string list) option" where
  "trophy_listing (c # n # t # f # rest) =
     (if \<not> count_token c \<or> \<not> is_alphabetical n then None
      else if f = ''for'' then (if t = ''trophy'' then Some ([(n, count_of c)], rest) else None)
      else if t = '','' then
        (case trophy_listing (f # rest) of
           None \<Rightarrow> None
         | Some (l, r) \<Rightarrow> Some ((n, count_of c) # l, r))
      else None)"
| "trophy_listing _ = None"

fun ingredient_requests :: "string list \<Rightarrow> (string \<times> cpp_int) list" where
  "ingredient_requests (c # n # sep # rest) = (n, count_of c) # ingredient_requests rest"
| "ingredient_requests [c, n] = [(n, count_of c)]"
| "ingredient_requests _ = []"

definition requested_sum :: "(string \<times> cpp_int) list \<Rightarrow> string \<Rightarrow> cpp_int" where
  "requested_sum requests name = sum_list (map snd (filter (\<lambda>r. fst r = name) requests))"

text \<open>Geralt after learning one sign against the Harpy and defeating it twice.\<close>

definition harpy_slayer :: Inventory where
  "harpy_slayer = empty_inventory
     \<lparr>trophies := [(''Harpy'', 2)],
      monsters := [(''Harpy'', \<lparr>signs_against = [''Igni''], potions_against = []\<rparr>)]\<rparr>"

text \<open>
  Every count stored in the ingredient ledger, the trophy ledger and the potion stock is
  strictly positive.
\<close>

definition positive_counts :: "Inventory \<Rightarrow> bool" where
  "positive_counts s =
     (list_all (\<lambda>entry. 0 < sint (snd entry)) (ingredients s) \<and>
      list_all (\<lambda>entry. 0 < sint (snd entry)) (trophies s) \<and>
      list_all (\<lambda>entry. 0 < sint (snd entry)) (potion_counts s))"

text \<open>The state after looting \<^verbatim>\<open>INT_MAX\<close> Rebis and then one more.\<close>

definition overflowed :: Inventory where
  "overflowed = empty_inventory\<lparr>ingredients := [(''Rebis'', 2147483647 + 1)]\<rparr>"

section \<open>Evaluation lemmas\<close>

declare no_double_space.simps [simp del]
declare ingredient_groups.simps [simp del]
declare trade_trophy_groups.simps [simp del]
declare recipe_groups.simps [simp del]
declare scan_potion.simps [simp del]
declare scan_question_mark.simps [simp del]
declare add_ingredients_from.simps [simp del]
declare collect_trophies.simps [simp del]
declare potion_name_until.simps [simp del]
declare formula_from.simps [simp del]
declare show_nat.simps [simp del]

lemma stoi_eleven_digits: "stoi ''99999999999'' = Inl StoiOutOfRange"
  by (simp add: stoi_def is_space_def is_digit_def digits_value_def digit_val_def
      INT_MAX_def INT_MIN_def)

lemma split_line_long_count:
  "split_line ''Geralt loots 99999999999 Rebis, 0 Vitriol'' =
     [''Geralt'', ''loots'', ''99999999999'', ''Rebis'', '','', ''0'', ''Vitriol'']"
  by (simp add: split_line_def is_space_def)





lemma mset_insert_ingredient: "mset (insert_ingredient a xs) = add_mset a (mset xs)"
  by (induction xs) auto


lemma mset_get_ingredients: "mset (get_ingredients p) = mset p"
  by (induction p) (auto simp: get_ingredients_def mset_insert_ingredient)


lemma get_ingredients_Nil_iff: "get_ingredients p = [] \<longleftrightarrow> p = []"
  using mset_get_ingredients [of p] by (metis mset_zero_iff)


lemma execute_question:
  "detect_type (split_line line) = 1 \<Longrightarrow> detect_question_type (split_line line) line = Inr k
     \<Longrightarrow> k \<noteq> - 1 \<Longrightarrow> execute_line line s = answer_question k (split_line line) s"
  by (simp add: execute_line_def bindE_def)

lemma execute_sentence:
  "detect_type (split_line line) = 0 \<Longrightarrow> detect_sentence_type (split_line line) line = Inr k
     \<Longrightarrow> k \<noteq> - 1 \<Longrightarrow> execute_line line s = perform_sentence k (split_line line) s"
  by (simp add: execute_line_def bindE_def)




lemma map_of_map_put [simp]: "map_of (map_put k v m) = (map_of m)(k \<mapsto> v)"
  by (induction m) (auto simp: fun_eq_iff)

lemma map_of_map_erase [simp]: "map_of (map_erase k m) = (map_of m)(k := None)"
  by (induction m) (auto simp: map_erase_def fun_eq_iff)

lemma set_map_put: "set (map_put k v m) \<subseteq> insert (k, v) (set m)"
  by (induction m) (auto split: if_splits)

lemma fst_set_map_put: "fst ` set (map_put k v m) = insert k (fst ` set m)"
proof (induction m)
  case Nil
  then show ?case by simp
next
  case (Cons p m)
  then show ?case by (cases p) (simp add: insert_commute)
qed

lemma sorted_keys_map_put: "sorted_keys m \<Longrightarrow> sorted_keys (map_put k v m)"
proof (induction m)
  case Nil
  then show ?case by (simp add: sorted_keys_def)
next
  case (Cons p m)
  obtain k' v' where p: "p = (k', v')" by (cases p)
  from Cons.prems have tl: "sorted_keys m" and hd: "\<forall>x\<in>set m. k' < fst x"
    by (auto simp: sorted_keys_def p)
  show ?case
  proof (cases "k = k'")
    case True
    with Cons.prems show ?thesis by (simp add: sorted_keys_def p)
  next
    case False
    show ?thesis
    proof (cases "k < k'")
      case True
      with Cons.prems hd show ?thesis by (auto simp: sorted_keys_def p)
    next
      case gt: False
      with False have "k' < k" by simp
      moreover have "sorted_keys (map_put k v m)" using Cons.IH tl by simp
      moreover have "fst ` set (map_put k v m) = insert k (fst ` set m)" by (rule fst_set_map_put)
      ultimately show ?thesis using False gt hd
        by (auto simp: sorted_keys_def p)
    qed
  qed
qed

lemma sorted_keys_map_erase: "sorted_keys m \<Longrightarrow> sorted_keys (map_erase k m)"
  by (simp add: sorted_keys_def map_erase_def sorted_wrt_filter sorted_wrt_map)

lemma set_set_insert [simp]: "set (set_insert x xs) = insert x (set xs)"
  by (induction xs) auto

lemma sorted_set_insert: "sorted_wrt (<) xs \<Longrightarrow> sorted_wrt (<) (set_insert x xs)"
  by (induction xs) auto

lemma sorted_keys_distinct: "sorted_keys m \<Longrightarrow> distinct (map fst m)"
  by (simp add: sorted_keys_def strict_sorted_iff)


lemma use_potion_fields [simp]:
  "ingredients (use_potion p s) = ingredients s"
  "trophies (use_potion p s) = trophies s"
  "potions (use_potion p s) = potions s"
  "monsters (use_potion p s) = monsters s"
  by (auto simp: use_potion_def split: option.splits)

lemma map_of_use_potion:
  "map_of (potion_counts (use_potion p s)) q =
     (if q = p then after_sip (map_of (potion_counts s) p) else map_of (potion_counts s) q)"
  by (auto simp: use_potion_def after_sip_def split: option.splits)

lemma fold_use_potion_fields [simp]:
  "ingredients (fold use_potion ps s) = ingredients s"
  "trophies (fold use_potion ps s) = trophies s"
  "potions (fold use_potion ps s) = potions s"
  "monsters (fold use_potion ps s) = monsters s"
  by (induction ps arbitrary: s) auto

lemma map_of_fold_use_potion:
  "distinct ps \<Longrightarrow>
   map_of (potion_counts (fold use_potion ps s)) q =
     (if q \<in> set ps then after_sip (map_of (potion_counts s) q) else map_of (potion_counts s) q)"
proof (induction ps arbitrary: s)
  case Nil
  then show ?case by simp
next
  case (Cons p ps)
  then show ?case by (auto simp: map_of_use_potion)
qed

lemma award_trophy_fields [simp]:
  "ingredients (award_trophy n s) = ingredients s"
  "potion_counts (award_trophy n s) = potion_counts s"
  "potions (award_trophy n s) = potions s"
  "monsters (award_trophy n s) = monsters s"
  by (auto simp: award_trophy_def split: option.splits)

lemma map_of_award_trophy:
  "map_of (trophies (award_trophy n s)) =
     (map_of (trophies s))(n \<mapsto> (case map_of (trophies s) n of None \<Rightarrow> 1 | Some c \<Rightarrow> c + 1))"
  by (auto simp: award_trophy_def split: option.splits)

lemma well_formed_monster_lists:
  "well_formed s \<Longrightarrow> map_of (monsters s) n = Some m
     \<Longrightarrow> sorted_wrt (<) (signs_against m) \<and> sorted_wrt (<) (potions_against m)"
  by (auto simp: well_formed_def list_all_iff dest!: map_of_SomeD)

lemma encounter_shape:
  "detect_sentence_type ws line = Inr 6 \<Longrightarrow> length ws = 4"
  by (auto simp: detect_sentence_type_def bindE_def is_valid_encounter_def learns_potion_def
      split: sum.splits if_splits)

lemma split_line_encounter:
  "split_line ''Geralt encounters a Harpy'' = [''Geralt'', ''encounters'', ''a'', ''Harpy'']"
  by (simp add: split_line_def is_space_def)

lemma encounter_sentence:
  "detect_sentence_type [''Geralt'', ''encounters'', ''a'', ''Harpy''] line = Inr 6"
  by (simp add: detect_sentence_type_def bindE_def word_at_def is_valid_encounter_def
      is_alphabetical_def is_alpha_def)

lemma bindE_Inr_iff: "bindE m f = Inr y \<longleftrightarrow> (\<exists>x. m = Inr x \<and> f x = Inr y)"
  by (cases m) (auto simp: bindE_def)

lemma bindE_Inr [simp]: "bindE (Inr x) f = f x"
  by (simp add: bindE_def)

lemma bindE_Inl [simp]: "bindE (Inl e) f = Inl e"
  by (simp add: bindE_def)

lemma formula_from_acc:
  "formula_from ws i acc = bindE (formula_from ws i []) (\<lambda>f. Inr (acc @ f))"
proof -
  have "\<forall>acc'. formula_from ws i acc' = bindE (formula_from ws i []) (\<lambda>f. Inr (acc' @ f))"
  proof (induction ws i acc rule: formula_from.induct)
    case (1 ws i acc)
    show ?case
    proof (cases "i + 1 < length ws")
      case False
      then show ?thesis by (simp add: formula_from.simps)
    next
      case True
      show ?thesis
      proof
        fix acc'
        show "formula_from ws i acc' = bindE (formula_from ws i []) (\<lambda>f. Inr (acc' @ f))"
        proof (cases "word_at ws i")
          case (Inl e)
          then show ?thesis using True by (simp add: formula_from.simps [of ws i])
        next
          case w: (Inr w)
          show ?thesis
          proof (cases "stoi w")
            case (Inl e)
            then show ?thesis using True w by (simp add: formula_from.simps [of ws i])
          next
            case c: (Inr cnt)
            show ?thesis
            proof (cases "word_at ws (i + 1)")
              case (Inl e)
              then show ?thesis using True w c by (simp add: formula_from.simps [of ws i])
            next
              case n: (Inr ing)
              have ih: "\<And>a. formula_from ws (i + 3) a =
                          bindE (formula_from ws (i + 3) []) (\<lambda>f. Inr (a @ f))"
                using "1.IH" [OF True w c n] by blast
              show ?thesis
                using True w c n ih [of "acc' @ [(ing, cnt)]"] ih [of "[(ing, cnt)]"]
                by (cases "formula_from ws (i + 3) []") (simp_all add: formula_from.simps [of ws i])
            qed
          qed
        qed
      qed
    qed
  qed
  then show ?thesis by blast
qed

lemma add_ingredients_from_fold:
  "add_ingredients_from ws i s =
     bindE (formula_from ws i []) (\<lambda>f. Inr (fold (\<lambda>p. add_ingredient (fst p) (snd p)) f s))"
proof (induction ws i s rule: add_ingredients_from.induct)
  case (1 ws i s)
  show ?case
  proof (cases "i + 1 < length ws")
    case False
    then show ?thesis by (simp add: formula_from.simps add_ingredients_from.simps)
  next
    case True
    show ?thesis
    proof (cases "word_at ws i")
      case (Inl e)
      then show ?thesis using True
        by (simp add: formula_from.simps [of ws i] add_ingredients_from.simps [of ws i])
    next
      case w: (Inr w)
      show ?thesis
      proof (cases "stoi w")
        case (Inl e)
        then show ?thesis using True w
          by (simp add: formula_from.simps [of ws i] add_ingredients_from.simps [of ws i])
      next
        case c: (Inr cnt)
        show ?thesis
        proof (cases "word_at ws (i + 1)")
          case (Inl e)
          then show ?thesis using True w c
            by (simp add: formula_from.simps [of ws i] add_ingredients_from.simps [of ws i])
        next
          case n: (Inr ing)
          show ?thesis
            using True w c n "1.IH" [OF True w c n]
              formula_from_acc [of ws "i + 3" "[(ing, cnt)]"]
            by (cases "formula_from ws (i + 3) []")
               (simp_all add: formula_from.simps [of ws i] add_ingredients_from.simps [of ws i])
        qed
      qed
    qed
  qed
qed

lemma formula_from_step:
  "i + 1 < length ws \<Longrightarrow>
   formula_from ws i [] =
     bindE (word_at ws i) (\<lambda>w. bindE (stoi w) (\<lambda>cnt. bindE (word_at ws (i + 1)) (\<lambda>ing.
       bindE (formula_from ws (i + 3) []) (\<lambda>f. Inr ((ing, cnt) # f)))))"
  by (subst formula_from.simps, subst formula_from_acc) simp

lemma formula_from_stop: "\<not> i + 1 < length ws \<Longrightarrow> formula_from ws i [] = Inr []"
  by (simp add: formula_from.simps)

lemma formula_from_nonempty:
  "formula_from ws i [] = Inr f \<Longrightarrow> i + 1 < length ws \<Longrightarrow> f \<noteq> []"
  by (auto simp: formula_from_step bindE_Inr_iff)


lemma add_ingredient_fields [simp]:
  "trophies (add_ingredient n c s) = trophies s"
  "potion_counts (add_ingredient n c s) = potion_counts s"
  "potions (add_ingredient n c s) = potions s"
  "monsters (add_ingredient n c s) = monsters s"
  by (auto simp: add_ingredient_def split: option.splits)

lemma decrease_trophy_fields [simp]:
  "ingredients (decrease_trophy n c s) = ingredients s"
  "potion_counts (decrease_trophy n c s) = potion_counts s"
  "potions (decrease_trophy n c s) = potions s"
  "monsters (decrease_trophy n c s) = monsters s"
  by (auto simp: decrease_trophy_def split: option.splits)

lemma use_ingredient_fields [simp]:
  "trophies (use_ingredient n c s) = trophies s"
  "potion_counts (use_ingredient n c s) = potion_counts s"
  "potions (use_ingredient n c s) = potions s"
  "monsters (use_ingredient n c s) = monsters s"
  by (auto simp: use_ingredient_def split: option.splits)

lemma fold_add_ingredient_fields [simp]:
  "trophies (fold (\<lambda>p. add_ingredient (fst p) (snd p)) f s) = trophies s"
  "potion_counts (fold (\<lambda>p. add_ingredient (fst p) (snd p)) f s) = potion_counts s"
  "potions (fold (\<lambda>p. add_ingredient (fst p) (snd p)) f s) = potions s"
  "monsters (fold (\<lambda>p. add_ingredient (fst p) (snd p)) f s) = monsters s"
  by (induction f arbitrary: s) auto

lemma fold_decrease_trophy_fields [simp]:
  "ingredients (fold (\<lambda>p. decrease_trophy (fst p) (snd p)) f s) = ingredients s"
  "potion_counts (fold (\<lambda>p. decrease_trophy (fst p) (snd p)) f s) = potion_counts s"
  "potions (fold (\<lambda>p. decrease_trophy (fst p) (snd p)) f s) = potions s"
  "monsters (fold (\<lambda>p. decrease_trophy (fst p) (snd p)) f s) = monsters s"
  by (induction f arbitrary: s) auto

lemma fold_use_ingredient_fields [simp]:
  "trophies (fold (\<lambda>p. use_ingredient (fst p) (snd p)) f s) = trophies s"
  "potion_counts (fold (\<lambda>p. use_ingredient (fst p) (snd p)) f s) = potion_counts s"
  "potions (fold (\<lambda>p. use_ingredient (fst p) (snd p)) f s) = potions s"
  "monsters (fold (\<lambda>p. use_ingredient (fst p) (snd p)) f s) = monsters s"
  by (induction f arbitrary: s) auto

lemma sorted_keys_ingredients_add:
  "sorted_keys (ingredients s) \<Longrightarrow> sorted_keys (ingredients (add_ingredient n c s))"
  by (auto simp: add_ingredient_def sorted_keys_map_put split: option.splits)

lemma sorted_keys_ingredients_use:
  "sorted_keys (ingredients s) \<Longrightarrow> sorted_keys (ingredients (use_ingredient n c s))"
  by (auto simp: use_ingredient_def sorted_keys_map_put sorted_keys_map_erase split: option.splits)

lemma sorted_keys_trophies_decrease:
  "sorted_keys (trophies s) \<Longrightarrow> sorted_keys (trophies (decrease_trophy n c s))"
  by (auto simp: decrease_trophy_def sorted_keys_map_put sorted_keys_map_erase split: option.splits)

lemma sorted_keys_potion_counts_use:
  "sorted_keys (potion_counts s) \<Longrightarrow> sorted_keys (potion_counts (use_potion p s))"
  by (auto simp: use_potion_def sorted_keys_map_put sorted_keys_map_erase split: option.splits)

lemma sorted_keys_trophies_award:
  "sorted_keys (trophies s) \<Longrightarrow> sorted_keys (trophies (award_trophy n s))"
  by (auto simp: award_trophy_def sorted_keys_map_put split: option.splits)

lemma sorted_keys_fold_add:
  "sorted_keys (ingredients s) \<Longrightarrow>
   sorted_keys (ingredients (fold (\<lambda>p. add_ingredient (fst p) (snd p)) f s))"
  by (induction f arbitrary: s) (auto simp: sorted_keys_ingredients_add)

lemma sorted_keys_fold_use:
  "sorted_keys (ingredients s) \<Longrightarrow>
   sorted_keys (ingredients (fold (\<lambda>p. use_ingredient (fst p) (snd p)) f s))"
  by (induction f arbitrary: s) (auto simp: sorted_keys_ingredients_use)

lemma sorted_keys_fold_decrease:
  "sorted_keys (trophies s) \<Longrightarrow>
   sorted_keys (trophies (fold (\<lambda>p. decrease_trophy (fst p) (snd p)) f s))"
  by (induction f arbitrary: s) (auto simp: sorted_keys_trophies_decrease)

lemma sorted_keys_fold_use_potion:
  "sorted_keys (potion_counts s) \<Longrightarrow> sorted_keys (potion_counts (fold use_potion ps s))"
  by (induction ps arbitrary: s) (auto simp: sorted_keys_potion_counts_use)

lemma list_all_map_put:
  "list_all P m \<Longrightarrow> P (k, v) \<Longrightarrow> list_all P (map_put k v m)"
  using set_map_put [of k v m] by (auto simp: list_all_iff)

lemma handle_loot_effect:
  "handle_loot ws s = Inr (s', r) \<Longrightarrow>
   \<exists>f. s' = fold (\<lambda>p. add_ingredient (fst p) (snd p)) f s"
  by (auto simp: handle_loot_def add_ingredients_from_fold bindE_Inr_iff)

lemma handle_trade_effect:
  assumes "handle_trade ws s = Inr (s', r)"
  obtains "s' = s"
  | tt f where "s' = fold (\<lambda>p. add_ingredient (fst p) (snd p)) f
                       (fold (\<lambda>pair. decrease_trophy (fst pair) (snd pair)) tt s)"
  using assms
  by (auto simp: handle_trade_def add_ingredients_from_fold bindE_Inr_iff split: option.splits)

lemma handle_sign_knowledge_effect:
  assumes "handle_sign_knowledge ws s = Inr (s', r)"
  obtains "s' = s"
  | n m sign where "map_of (monsters s) n = Some m"
      "s' = s\<lparr>monsters := map_put n (add_sign sign m) (monsters s)\<rparr>"
  | n sign where "map_of (monsters s) n = None"
      "s' = s\<lparr>monsters := map_put n (add_sign sign new_monster) (monsters s)\<rparr>"
proof -
  from assms obtain sign n where w: "word_at ws 2 = Inr sign" "word_at ws 7 = Inr n"
    by (auto simp: handle_sign_knowledge_def bindE_Inr_iff)
  show thesis
  proof (cases "map_of (monsters s) n")
    case None
    with assms w that(3) [of n sign] show thesis
      by (simp add: handle_sign_knowledge_def)
  next
    case (Some m)
    with assms w that(1) that(2) [of n m sign] show thesis
      by (simp add: handle_sign_knowledge_def split: if_splits)
  qed
qed

lemma handle_potion_knowledge_effect:
  assumes "handle_potion_knowledge ws s = Inr (s', r)"
  obtains "s' = s"
  | n m potion where "map_of (monsters s) n = Some m"
      "s' = s\<lparr>monsters := map_put n (add_potion potion m) (monsters s)\<rparr>"
  | n potion where "map_of (monsters s) n = None"
      "s' = s\<lparr>monsters := map_put n (add_potion potion new_monster) (monsters s)\<rparr>"
proof -
  from assms obtain potion ci n where
    w: "potion_name_until ws 2 [] = Inr (potion, ci)" "word_at ws (ci + 4) = Inr n"
    by (auto simp: handle_potion_knowledge_def bindE_Inr_iff)
  show thesis
  proof (cases "map_of (monsters s) n")
    case None
    with assms w that(3) [of n potion] show thesis
      by (simp add: handle_potion_knowledge_def)
  next
    case (Some m)
    with assms w that(1) that(2) [of n m potion] show thesis
      by (simp add: handle_potion_knowledge_def split: if_splits)
  qed
qed

lemma well_formed_monsters_put:
  assumes "well_formed s" and "sorted_wrt (<) (signs_against m)"
    and "sorted_wrt (<) (potions_against m)"
  shows "well_formed (s\<lparr>monsters := map_put k m (monsters s)\<rparr>)"
  using assms by (simp add: well_formed_def sorted_keys_map_put list_all_map_put)

lemma well_formed_loot:
  "well_formed s \<Longrightarrow> handle_loot ws s = Inr (s', r) \<Longrightarrow> well_formed s'"
  by (auto simp: well_formed_def sorted_keys_fold_add dest!: handle_loot_effect)

lemma well_formed_trade:
  assumes "well_formed s" and "handle_trade ws s = Inr (s', r)"
  shows "well_formed s'"
  using assms(2)
proof (cases rule: handle_trade_effect)
  case 1
  then show ?thesis using assms(1) by simp
next
  case (2 tt f)
  then show ?thesis using assms(1)
    by (simp add: well_formed_def sorted_keys_fold_add sorted_keys_fold_decrease)
qed

lemma well_formed_brew:
  "well_formed s \<Longrightarrow> handle_brew ws s = Inr (s', r) \<Longrightarrow> well_formed s'"
  by (auto simp: well_formed_def handle_brew_def Let_def sorted_keys_map_put sorted_keys_fold_use
      split: option.splits if_splits)

lemma well_formed_recipe:
  "well_formed s \<Longrightarrow> handle_potion_recipe ws s = Inr (s', r) \<Longrightarrow> well_formed s'"
  by (auto simp: well_formed_def handle_potion_recipe_def bindE_Inr_iff sorted_keys_map_put
      split: option.splits if_splits)

lemma well_formed_sign:
  assumes "well_formed s" and "handle_sign_knowledge ws s = Inr (s', r)"
  shows "well_formed s'"
  using assms(2)
proof (cases rule: handle_sign_knowledge_effect)
  case 1
  then show ?thesis using assms(1) by simp
next
  case (2 n m sign)
  then show ?thesis
    using well_formed_monster_lists [OF assms(1) 2(1)] assms(1)
    by (simp add: well_formed_monsters_put add_sign_def sorted_set_insert)
next
  case (3 n sign)
  then show ?thesis using assms(1)
    by (simp add: well_formed_monsters_put add_sign_def new_monster_def)
qed

lemma well_formed_potion_knowledge:
  assumes "well_formed s" and "handle_potion_knowledge ws s = Inr (s', r)"
  shows "well_formed s'"
  using assms(2)
proof (cases rule: handle_potion_knowledge_effect)
  case 1
  then show ?thesis using assms(1) by simp
next
  case (2 n m potion)
  then show ?thesis
    using well_formed_monster_lists [OF assms(1) 2(1)] assms(1)
    by (simp add: well_formed_monsters_put add_potion_def sorted_set_insert)
next
  case (3 n potion)
  then show ?thesis using assms(1)
    by (simp add: well_formed_monsters_put add_potion_def new_monster_def)
qed

lemma well_formed_encounter:
  "well_formed s \<Longrightarrow> handle_encounter ws s = Inr (s', r) \<Longrightarrow> well_formed s'"
  by (auto simp: well_formed_def handle_encounter_def bindE_Inr_iff use_one_potion_each_def
      sorted_keys_trophies_award sorted_keys_fold_use_potion
      split: option.splits if_splits)

lemma well_formed_question:
  "well_formed s \<Longrightarrow> answer_question k ws s = Inr (s', r) \<Longrightarrow> well_formed s'"
  by (auto simp: well_formed_def answer_question_def bindE_Inr_iff print_potion_formula_def
      Let_def sorted_keys_map_put split: option.splits if_splits)

lemma execute_line_cases:
  assumes "execute_line line s = Inr (s', r)"
  shows "s' = s \<or> (\<exists>k. answer_question k (split_line line) s = Inr (s', r)) \<or>
         (\<exists>k. detect_type (split_line line) = 0 \<and>
               detect_sentence_type (split_line line) line = Inr k \<and>
               perform_sentence k (split_line line) s = Inr (s', r))"
  using assms by (auto simp: execute_line_def Let_def bindE_Inr_iff split: if_splits)

lemma well_formed_execute_line:
  assumes "well_formed s" and "execute_line line s = Inr (s', r)"
  shows "well_formed s'"
  using execute_line_cases [OF assms(2)] assms(1)
  by (auto simp: perform_sentence_def split: if_splits
      intro: well_formed_loot well_formed_trade well_formed_brew well_formed_recipe
        well_formed_sign well_formed_potion_knowledge well_formed_encounter well_formed_question)

lemma reachable_well_formed: "reachable s \<Longrightarrow> well_formed s"
proof (induction rule: reachable.induct)
  case reachable_init
  show ?case by (simp add: well_formed_def empty_inventory_def sorted_keys_def)
next
  case (reachable_step s line s' response)
  then show ?case by (auto intro: well_formed_execute_line)
qed


lemma potion_name_until_Inr:
  "potion_name_until ws i acc = Inr (nm, c) \<Longrightarrow>
   nm = acc @ join_words (takeWhile (\<lambda>w. w \<noteq> ''potion'') (drop i ws)) \<and>
   c = i + length (takeWhile (\<lambda>w. w \<noteq> ''potion'') (drop i ws)) \<and>
   c < length ws \<and> ws ! c = ''potion''"
proof (induction ws i acc rule: potion_name_until.induct)
  case (1 ws i acc)
  from "1.prems" obtain w where w: "word_at ws i = Inr w"
    by (subst (asm) potion_name_until.simps) (auto simp: bindE_Inr_iff)
  then have i: "i < length ws" and wi: "w = ws ! i" by (auto simp: word_at_Inr_iff)
  then have d: "drop i ws = w # drop (Suc i) ws" by (simp add: Cons_nth_drop_Suc)
  show ?case
  proof (cases "w = ''potion''")
    case True
    then show ?thesis using "1.prems" w i wi d
      by (subst (asm) potion_name_until.simps) simp
  next
    case False
    from "1.prems" w False obtain nw where nw: "word_at ws (i + 1) = Inr nw"
      and rec: "potion_name_until ws (i + 1)
                  (acc @ w @ (if nw \<noteq> ''potion'' then '' '' else [])) = Inr (nm, c)"
      by (subst (asm) potion_name_until.simps) (auto simp: bindE_Inr_iff)
    from nw have d2: "drop (Suc i) ws = nw # drop (Suc (Suc i)) ws"
      by (auto simp: word_at_Inr_iff Cons_nth_drop_Suc)
    from "1.IH" [OF w False nw rec] show ?thesis
      using False d d2 by (cases "nw = ''potion''") auto
  qed
qed

lemma scan_potion_Inr:
  "scan_potion ws i = Inr c \<Longrightarrow>
   c = i + length (takeWhile (\<lambda>w. w \<noteq> ''potion'') (drop i ws)) \<and> c < length ws"
proof (induction ws i rule: scan_potion.induct)
  case (1 ws i)
  from "1.prems" obtain w where w: "word_at ws i = Inr w"
    by (subst (asm) scan_potion.simps) (auto simp: bindE_Inr_iff)
  then have i: "i < length ws" and wi: "w = ws ! i" by (auto simp: word_at_Inr_iff)
  then have d: "drop i ws = w # drop (Suc i) ws" by (simp add: Cons_nth_drop_Suc)
  show ?case
  proof (cases "w = ''potion''")
    case True
    then show ?thesis using "1.prems" w i wi d
      by (subst (asm) scan_potion.simps) simp
  next
    case False
    then have cond: "w \<noteq> ''potion'' \<and> i < length ws" using i by simp
    from "1.prems" w cond obtain nw where nw: "word_at ws (i + 1) = Inr nw"
      and rec: "scan_potion ws (i + 1) = Inr c"
      by (subst (asm) scan_potion.simps) (auto simp: bindE_Inr_iff)
    from "1.IH" [OF w cond nw rec] show ?thesis
      using False d by auto
  qed
qed

lemma cpp_rem_3_2:
  assumes "cpp_rem (int n - int j) 3 = 2"
  shows "j + 1 < n"
proof (rule ccontr)
  assume "\<not> j + 1 < n"
  then consider "n < j" | "n = j" | "n = j + 1" by linarith
  then show False
  proof cases
    case 1
    then have "sgn (int n - int j) = - 1" by simp
    with assms have "- (\<bar>int n - int j\<bar> mod 3) = 2" by (simp add: cpp_rem_def)
    moreover have "0 \<le> \<bar>int n - int j\<bar> mod 3" by simp
    ultimately show False by linarith
  next
    case 2
    with assms show False by (simp add: cpp_rem_def)
  next
    case 3
    with assms show False by (simp add: cpp_rem_def)
  qed
qed

lemma recipe_sentence_shape:
  assumes "detect_sentence_type ws line = Inr 5"
  shows "\<exists>c. scan_potion ws 2 = Inr c \<and> is_valid_potion_recipe ws (c + 3) = Inr True"
proof -
  from assms have "learns_potion ws line = Inr 5"
    by (auto simp: detect_sentence_type_def bindE_Inr_iff split: if_splits)
  then show ?thesis
    by (auto simp: learns_potion_def bindE_Inr_iff split: if_splits)
qed

lemma recipe_sentence_formula:
  assumes "detect_sentence_type ws line = Inr 5"
    and "potion_name_until ws 2 [] = Inr (nm, c)"
    and "formula_from ws (c + 3) [] = Inr f"
  shows "f \<noteq> []"
proof -
  from recipe_sentence_shape [OF assms(1)] obtain c' where
    c': "scan_potion ws 2 = Inr c'" and ok: "is_valid_potion_recipe ws (c' + 3) = Inr True"
    by blast
  have "c' = c" using scan_potion_Inr [OF c'] potion_name_until_Inr [OF assms(2)] by simp
  with ok have "cpp_rem (int (length ws) - int (c + 3)) 3 = 2"
    by (auto simp: is_valid_potion_recipe_def split: if_splits)
  then have "c + 3 + 1 < length ws" by (rule cpp_rem_3_2)
  with assms(3) show ?thesis by (rule formula_from_nonempty)
qed

lemma formulas_nonempty_put:
  "formulas_nonempty s \<Longrightarrow> f \<noteq> [] \<Longrightarrow>
   formulas_nonempty (s\<lparr>potions := map_put n f (potions s)\<rparr>)"
  by (simp add: formulas_nonempty_def list_all_map_put)

lemma formulas_nonempty_lookup:
  "formulas_nonempty s \<Longrightarrow> map_of (potions s) n = Some p \<Longrightarrow> p \<noteq> []"
  by (auto simp: formulas_nonempty_def list_all_iff dest!: map_of_SomeD)

lemma formulas_nonempty_recipe:
  assumes inv: "formulas_nonempty s"
    and ty: "detect_sentence_type ws line = Inr 5"
    and run: "handle_potion_recipe ws s = Inr (s', r)"
  shows "formulas_nonempty s'"
proof -
  from run obtain nm c where pn: "potion_name_until ws 2 [] = Inr (nm, c)"
    by (auto simp: handle_potion_recipe_def bindE_Inr_iff)
  show ?thesis
  proof (cases "map_of (potions s) nm")
    case None
    with run pn obtain f where f: "formula_from ws (c + 3) [] = Inr f"
      and s': "s' = s\<lparr>potions := map_put nm f (potions s)\<rparr>"
      by (auto simp: handle_potion_recipe_def bindE_Inr_iff)
    from recipe_sentence_formula [OF ty pn f] inv s' show ?thesis
      by (simp add: formulas_nonempty_put)
  next
    case (Some p)
    then have "p \<noteq> []" using inv by (rule formulas_nonempty_lookup [rotated])
    then have "get_ingredients p \<noteq> []" by (simp add: get_ingredients_Nil_iff)
    with run pn Some inv show ?thesis
      by (auto simp: handle_potion_recipe_def formulas_nonempty_put)
  qed
qed

lemma formulas_nonempty_brew:
  assumes "formulas_nonempty s" and "handle_brew ws s = Inr (s', r)"
  shows "formulas_nonempty s'"
proof (cases "map_of (potions s) (join_words (drop 2 ws))")
  case None
  with assms show ?thesis by (simp add: handle_brew_def Let_def)
next
  case (Some p)
  then have "get_ingredients p \<noteq> []"
    using formulas_nonempty_lookup [OF assms(1) Some] by (simp add: get_ingredients_Nil_iff)
  with assms Some show ?thesis
    by (auto simp: handle_brew_def Let_def formulas_nonempty_def list_all_map_put
        split: if_splits)
qed

lemma formulas_nonempty_question:
  assumes "formulas_nonempty s" and "answer_question k ws s = Inr (s', r)"
  shows "formulas_nonempty s'"
proof (cases "k = 7")
  case False
  with assms show ?thesis
    by (auto simp: answer_question_def bindE_Inr_iff split: if_splits)
next
  case True
  show ?thesis
  proof (cases "map_of (potions s) (join_words (drop 3 (butlast ws)))")
    case None
    with assms True show ?thesis
      by (simp add: answer_question_def print_potion_formula_def Let_def)
  next
    case (Some p)
    then have "get_ingredients p \<noteq> []"
      using formulas_nonempty_lookup [OF assms(1) Some] by (simp add: get_ingredients_Nil_iff)
    with assms True Some show ?thesis
      by (auto simp: answer_question_def print_potion_formula_def Let_def
          formulas_nonempty_def list_all_map_put)
  qed
qed

lemma handle_encounter_fields:
  "handle_encounter ws s = Inr (s', r) \<Longrightarrow>
   ingredients s' = ingredients s \<and> potions s' = potions s \<and> monsters s' = monsters s"
  by (auto simp: handle_encounter_def bindE_Inr_iff use_one_potion_each_def
      split: option.splits if_splits)

lemma handle_knowledge_potions:
  "handle_sign_knowledge ws s = Inr (s', r) \<Longrightarrow> potions s' = potions s"
  "handle_potion_knowledge ws s = Inr (s', r) \<Longrightarrow> potions s' = potions s"
  by (auto elim!: handle_sign_knowledge_effect handle_potion_knowledge_effect)

lemma formulas_nonempty_sentence:
  assumes inv: "formulas_nonempty s"
    and ty: "detect_sentence_type ws line = Inr k"
    and run: "perform_sentence k ws s = Inr (s', r)"
  shows "formulas_nonempty s'"
proof -
  consider "k = 0" | "k = 1" | "k = 2" | "k = 3" | "k = 4" | "k = 5" | "k = 6"
    | "k \<notin> {0, 1, 2, 3, 4, 5, 6}" by auto
  then show ?thesis
  proof cases
    case 1
    with run have "potions s' = potions s"
      by (auto simp: perform_sentence_def dest!: handle_loot_effect)
    with inv show ?thesis by (simp add: formulas_nonempty_def)
  next
    case 2
    with run have "handle_trade ws s = Inr (s', r)" by (simp add: perform_sentence_def)
    then have "potions s' = potions s" by (cases rule: handle_trade_effect) auto
    with inv show ?thesis by (simp add: formulas_nonempty_def)
  next
    case 3
    with run inv show ?thesis by (auto simp: perform_sentence_def intro: formulas_nonempty_brew)
  next
    case 4
    with run have "potions s' = potions s"
      by (auto simp: perform_sentence_def dest: handle_knowledge_potions)
    with inv show ?thesis by (simp add: formulas_nonempty_def)
  next
    case 5
    with run have "potions s' = potions s"
      by (auto simp: perform_sentence_def dest: handle_knowledge_potions)
    with inv show ?thesis by (simp add: formulas_nonempty_def)
  next
    case 6
    with run ty inv show ?thesis
      by (auto simp: perform_sentence_def intro: formulas_nonempty_recipe)
  next
    case 7
    with run have "potions s' = potions s"
      by (auto simp: perform_sentence_def dest: handle_encounter_fields)
    with inv show ?thesis by (simp add: formulas_nonempty_def)
  next
    case 8
    with run inv show ?thesis by (auto simp: perform_sentence_def split: if_splits)
  qed
qed

lemma formulas_nonempty_execute_line:
  assumes "formulas_nonempty s" and "execute_line line s = Inr (s', r)"
  shows "formulas_nonempty s'"
  using execute_line_cases [OF assms(2)] assms(1)
  by (auto intro: formulas_nonempty_question formulas_nonempty_sentence)

lemma reachable_formulas_nonempty: "reachable s \<Longrightarrow> formulas_nonempty s"
proof (induction rule: reachable.induct)
  case reachable_init
  show ?case by (simp add: formulas_nonempty_def empty_inventory_def)
next
  case (reachable_step s line s' response)
  then show ?case by (auto intro: formulas_nonempty_execute_line)
qed

lemma stoi_small:
  "stoi ''1'' = Inr 1" "stoi ''2'' = Inr 2" "stoi ''3'' = Inr 3" "stoi ''5'' = Inr 5"
  by (simp_all add: stoi_def is_space_def is_digit_def digits_value_def digit_val_def
      INT_MAX_def INT_MIN_def)

lemma split_line_recipe:
  "split_line ''Geralt learns Swallow potion consists of 3 Vitriol, 2 Rebis'' =
     [''Geralt'', ''learns'', ''Swallow'', ''potion'', ''consists'', ''of'', ''3'', ''Vitriol'',
      '','', ''2'', ''Rebis'']"
  by (simp add: split_line_def is_space_def)

lemma recipe_sentence:
  "detect_sentence_type
     [''Geralt'', ''learns'', ''Swallow'', ''potion'', ''consists'', ''of'', ''3'', ''Vitriol'',
      '','', ''2'', ''Rebis'']
     ''Geralt learns Swallow potion consists of 3 Vitriol, 2 Rebis'' = Inr 5"
  by (simp add: detect_sentence_type_def learns_potion_def word_at_def word_is_def andE_def
      scan_potion.simps is_valid_potion_name_def str_find_def is_alphabetical_def is_alpha_def
      no_double_space.simps line_at_def is_valid_potion_recipe_def cpp_rem_def
      recipe_groups.simps is_integer_def is_digit_def stoi_small)

lemma recipe_handled:
  "handle_potion_recipe
     [''Geralt'', ''learns'', ''Swallow'', ''potion'', ''consists'', ''of'', ''3'', ''Vitriol'',
      '','', ''2'', ''Rebis''] empty_inventory =
   Inr (empty_inventory\<lparr>potions := [(''Swallow'', [(''Vitriol'', 3), (''Rebis'', 2)])]\<rparr>,
        ''New alchemy formula obtained: Swallow'')"
  by (simp add: handle_potion_recipe_def potion_name_until.simps word_at_def
      empty_inventory_def formula_from.simps stoi_small)

lemma swallow_learnt:
  "execute_line ''Geralt learns Swallow potion consists of 3 Vitriol, 2 Rebis'' empty_inventory =
   Inr (empty_inventory\<lparr>potions := [(''Swallow'', [(''Vitriol'', 3), (''Rebis'', 2)])]\<rparr>,
        ''New alchemy formula obtained: Swallow'')"
proof -
  have "detect_type (split_line ''Geralt learns Swallow potion consists of 3 Vitriol, 2 Rebis'') = 0"
    by (simp add: split_line_recipe detect_type_def)
  moreover have "detect_sentence_type
      (split_line ''Geralt learns Swallow potion consists of 3 Vitriol, 2 Rebis'')
      ''Geralt learns Swallow potion consists of 3 Vitriol, 2 Rebis'' = Inr 5"
    by (simp only: split_line_recipe recipe_sentence)
  ultimately show ?thesis
    by (simp add: execute_sentence perform_sentence_def split_line_recipe recipe_handled)
qed

lemma scan_potion_name:
  "scan_potion ws i = Inr c \<Longrightarrow> \<exists>nm. potion_name_until ws i acc = Inr (nm, c)"
proof -
  have "scan_potion ws i = Inr c \<longrightarrow> (\<forall>acc. \<exists>nm. potion_name_until ws i acc = Inr (nm, c))"
  proof (induction ws i rule: scan_potion.induct)
    case (1 ws i)
    show ?case
    proof
      assume run: "scan_potion ws i = Inr c"
      then obtain w where w: "word_at ws i = Inr w"
        by (subst (asm) scan_potion.simps) (auto simp: bindE_Inr_iff)
      then have i: "i < length ws" by (simp add: word_at_Inr_iff)
      show "\<forall>acc. \<exists>nm. potion_name_until ws i acc = Inr (nm, c)"
      proof (cases "w = ''potion''")
        case True
        with run w have "c = i" by (subst (asm) scan_potion.simps) simp
        with True w show ?thesis by (subst potion_name_until.simps) simp
      next
        case False
        then have cond: "w \<noteq> ''potion'' \<and> i < length ws" using i by simp
        from run w cond obtain nw where nw: "word_at ws (i + 1) = Inr nw"
          and rec: "scan_potion ws (i + 1) = Inr c"
          by (subst (asm) scan_potion.simps) (auto simp: bindE_Inr_iff)
        from "1.IH" [OF w cond nw] rec
        have "\<forall>acc. \<exists>nm. potion_name_until ws (i + 1) acc = Inr (nm, c)" by simp
        with w nw False show ?thesis by (subst potion_name_until.simps) simp
      qed
    qed
  qed
  then show "scan_potion ws i = Inr c \<Longrightarrow> \<exists>nm. potion_name_until ws i acc = Inr (nm, c)"
    by blast
qed

lemma monsters_step:
  assumes "execute_line line s = Inr (s', r)"
  obtains "monsters s' = monsters s"
  | k m0 m1 where "map_of (monsters s) k = Some m0" "monsters s' = map_put k m1 (monsters s)"
      "set (signs_against m0) \<subseteq> set (signs_against m1)"
      "set (potions_against m0) \<subseteq> set (potions_against m1)"
  | k m1 where "map_of (monsters s) k = None" "monsters s' = map_put k m1 (monsters s)"
proof -
  from execute_line_cases [OF assms]
  consider "s' = s" | k where "answer_question k (split_line line) s = Inr (s', r)"
    | k where "perform_sentence k (split_line line) s = Inr (s', r)" by blast
  then show thesis
  proof cases
    case 1
    then show thesis using that(1) by simp
  next
    case 2
    then have "monsters s' = monsters s"
      by (auto simp: answer_question_def bindE_Inr_iff print_potion_formula_def Let_def
          split: if_splits option.splits)
    then show thesis by (rule that(1))
  next
    case 3
    let ?ws = "split_line line"
    consider "handle_loot ?ws s = Inr (s', r)" | "handle_trade ?ws s = Inr (s', r)"
      | "handle_brew ?ws s = Inr (s', r)" | "handle_sign_knowledge ?ws s = Inr (s', r)"
      | "handle_potion_knowledge ?ws s = Inr (s', r)" | "handle_potion_recipe ?ws s = Inr (s', r)"
      | "handle_encounter ?ws s = Inr (s', r)" | "s' = s"
      using 3 by (auto simp: perform_sentence_def split: if_splits)
    then show thesis
    proof cases
      case 1
      then have "monsters s' = monsters s" by (auto dest!: handle_loot_effect)
      then show thesis by (rule that(1))
    next
      case 2
      then have "monsters s' = monsters s" by (cases rule: handle_trade_effect) auto
      then show thesis by (rule that(1))
    next
      case 3
      then have "monsters s' = monsters s"
        by (auto simp: handle_brew_def Let_def split: option.splits if_splits)
      then show thesis by (rule that(1))
    next
      case 4
      then show thesis
      proof (cases rule: handle_sign_knowledge_effect)
        case 1
        then show ?thesis using that(1) by simp
      next
        case (2 n m sign)
        then show ?thesis using that(2) [of n m "add_sign sign m"]
          by (auto simp: add_sign_def)
      next
        case (3 n sign)
        then show ?thesis using that(3) [of n] by simp
      qed
    next
      case 5
      then show thesis
      proof (cases rule: handle_potion_knowledge_effect)
        case 1
        then show ?thesis using that(1) by simp
      next
        case (2 n m potion)
        then show ?thesis using that(2) [of n m "add_potion potion m"]
          by (auto simp: add_potion_def)
      next
        case (3 n potion)
        then show ?thesis using that(3) [of n] by simp
      qed
    next
      case 6
      then have "monsters s' = monsters s"
        by (auto simp: handle_potion_recipe_def bindE_Inr_iff split: option.splits if_splits)
      then show thesis by (rule that(1))
    next
      case 7
      then have "monsters s' = monsters s" by (simp add: handle_encounter_fields)
      then show thesis by (rule that(1))
    next
      case 8
      then show thesis using that(1) by simp
    qed
  qed
qed

lemma knowledge_kept_step:
  assumes "execute_line line s = Inr (s', r)" and "map_of (monsters s) n = Some m"
  shows "\<exists>m'. map_of (monsters s') n = Some m' \<and>
           set (signs_against m) \<subseteq> set (signs_against m') \<and>
           set (potions_against m) \<subseteq> set (potions_against m')"
  using assms(1)
proof (cases rule: monsters_step)
  case 1
  with assms(2) show ?thesis by simp
next
  case (2 k m0 m1)
  with assms(2) show ?thesis by (cases "n = k") auto
next
  case (3 k m1)
  with assms(2) show ?thesis by (cases "n = k") auto
qed

lemma knowledge_kept_run:
  "run_lines lines s out = Inr (s', out') \<Longrightarrow> map_of (monsters s) n = Some m \<Longrightarrow>
   \<exists>m'. map_of (monsters s') n = Some m' \<and>
         set (signs_against m) \<subseteq> set (signs_against m') \<and>
         set (potions_against m) \<subseteq> set (potions_against m')"
proof (induction lines arbitrary: s out m)
  case Nil
  then show ?case by simp
next
  case (Cons line rest)
  show ?case
  proof (cases "line = ''Exit''")
    case True
    with Cons.prems show ?thesis by simp
  next
    case False
    with Cons.prems(1) obtain s1 r where
      step: "execute_line line s = Inr (s1, r)"
      and rest: "run_lines rest s1 (out @ [r]) = Inr (s', out')"
      by (auto simp: bindE_Inr_iff)
    from knowledge_kept_step [OF step Cons.prems(2)] obtain m1 where
      m1: "map_of (monsters s1) n = Some m1"
        "set (signs_against m) \<subseteq> set (signs_against m1)"
        "set (potions_against m) \<subseteq> set (potions_against m1)" by blast
    from Cons.IH [OF rest m1(1)] m1 show ?thesis by blast
  qed
qed

lemma relearn_sign:
  assumes ty: "detect_type (split_line line) = 0"
    and st: "detect_sentence_type (split_line line) line = Inr 3"
    and known: "map_of (monsters s) (split_line line ! 7) = Some m"
    and sign: "split_line line ! 2 \<in> set (signs_against m)"
  shows "execute_line line s = Inr (s, ''Already known effectiveness'')"
proof -
  from st have "is_valid_sign_knowledge (split_line line) = Inr True"
    by (auto simp: detect_sentence_type_def learns_potion_def bindE_Inr_iff split: if_splits)
  then have len: "length (split_line line) = 8"
    by (auto simp: is_valid_sign_knowledge_def split: if_splits)
  have "execute_line line s = handle_sign_knowledge (split_line line) s"
    using execute_sentence [OF ty st] by (simp add: perform_sentence_def)
  with len known sign show ?thesis
    by (simp add: handle_sign_knowledge_def word_at_def)
qed

lemma relearn_potion:
  assumes ty: "detect_type (split_line line) = 0"
    and st: "detect_sentence_type (split_line line) line = Inr 4"
    and known: "map_of (monsters s) (last (split_line line)) = Some m"
    and potion: "join_words (takeWhile (\<lambda>w. w \<noteq> ''potion'') (drop 2 (split_line line)))
                   \<in> set (potions_against m)"
  shows "execute_line line s = Inr (s, ''Already known effectiveness'')"
proof -
  let ?ws = "split_line line"
  from st have "learns_potion ?ws line = Inr 4"
    by (auto simp: detect_sentence_type_def bindE_Inr_iff split: if_splits)
  then obtain c where c: "scan_potion ?ws 2 = Inr c"
    and ok: "is_valid_potion_knowledge ?ws c = Inr True"
    by (auto simp: learns_potion_def bindE_Inr_iff split: if_splits)
  from scan_potion_name [OF c] obtain nm where nm: "potion_name_until ?ws 2 [] = Inr (nm, c)"
    by blast
  from potion_name_until_Inr [OF nm]
  have nm_eq: "nm = join_words (takeWhile (\<lambda>w. w \<noteq> ''potion'') (drop 2 ?ws))" by simp
  from ok obtain mon where mon: "word_at ?ws (c + 4) = Inr mon"
    and last: "word_at ?ws (length ?ws - 1) = Inr mon"
    by (auto simp: is_valid_potion_knowledge_def bindE_Inr_iff split: if_splits)
  from last have "mon = last ?ws"
    by (cases "?ws = []") (auto simp: word_at_Inr_iff last_conv_nth)
  moreover have "execute_line line s = handle_potion_knowledge ?ws s"
    using execute_sentence [OF ty st] by (simp add: perform_sentence_def)
  ultimately show ?thesis
    using nm nm_eq mon known potion by (simp add: handle_potion_knowledge_def)
qed

lemma split_line_learn_sign:
  "split_line ''Geralt learns Igni sign is effective against Harpy'' =
     [''Geralt'', ''learns'', ''Igni'', ''sign'', ''is'', ''effective'', ''against'', ''Harpy'']"
  by (simp add: split_line_def is_space_def)

lemma learn_sign_sentence:
  "detect_sentence_type
     [''Geralt'', ''learns'', ''Igni'', ''sign'', ''is'', ''effective'', ''against'', ''Harpy'']
     line = Inr 3"
  by (simp add: detect_sentence_type_def word_at_def word_is_def andE_def
      is_valid_sign_knowledge_def is_alphabetical_def is_alpha_def)

lemma split_line_learn_potion:
  "split_line ''Geralt learns Swallow potion is effective against Harpy'' =
     [''Geralt'', ''learns'', ''Swallow'', ''potion'', ''is'', ''effective'', ''against'',
      ''Harpy'']"
  by (simp add: split_line_def is_space_def)

lemma learn_potion_sentence:
  "detect_sentence_type
     [''Geralt'', ''learns'', ''Swallow'', ''potion'', ''is'', ''effective'', ''against'',
      ''Harpy'']
     ''Geralt learns Swallow potion is effective against Harpy'' = Inr 4"
  by (simp add: detect_sentence_type_def learns_potion_def word_at_def word_is_def andE_def
      scan_potion.simps is_valid_potion_name_def str_find_def is_alphabetical_def is_alpha_def
      no_double_space.simps line_at_def is_valid_potion_knowledge_def)

lemma sint_count: "int n \<le> INT_MAX \<Longrightarrow> sint (word_of_nat n :: cpp_int) = int n"
proof -
  assume "int n \<le> INT_MAX"
  then have "signed_take_bit 31 (int n) = int n"
    by (intro signed_take_bit_int_eq_self) (simp_all add: INT_MAX_def)
  moreover have "sint (word_of_nat n :: cpp_int) = signed_take_bit 31 (int n)"
    using signed_of_nat [of n, where ?'a = int and ?'b = 32] by simp
  ultimately show ?thesis by simp
qed

lemma digit_not_space: "is_digit c \<Longrightarrow> \<not> is_space c"
  by (auto simp: is_digit_def is_space_def Let_def)

lemma digit_not_sign: "is_digit c \<Longrightarrow> c \<noteq> CHR ''-'' \<and> c \<noteq> CHR ''+''"
  by (auto simp: is_digit_def Let_def)

lemma stoi_digits:
  assumes "is_integer c"
  shows "stoi c =
     (if c = [] then Inl StoiInvalidArgument
      else if int (digits_value c) \<le> INT_MAX then Inr (count_of c)
      else Inl StoiOutOfRange)"
proof (cases "c = []")
  case True
  then show ?thesis by (simp add: stoi_def)
next
  case False
  from assms have all: "\<forall>x\<in>set c. is_digit x"
    by (auto simp: is_integer_def list_all_iff)
  with False have d: "is_digit (hd c)" by simp
  have 1: "dropWhile is_space c = c"
    using d by (simp add: dropWhile_eq_self_iff digit_not_space)
  have 2: "takeWhile is_digit c = c" using all by simp
  have 3: "hd c \<noteq> CHR ''-''" "hd c \<noteq> CHR ''+''" using d digit_not_sign by auto
  have 4: "\<not> int (digits_value c) < INT_MIN" by (simp add: INT_MIN_def)
  have 5: "(if c \<noteq> [] \<and> (hd c = CHR ''-'' \<or> hd c = CHR ''+'') then tl c else c) = c"
    using 3 by simp
  have "stoi c = (if int (digits_value c) < INT_MIN \<or> INT_MAX < int (digits_value c)
                  then Inl StoiOutOfRange else Inr (word_of_int (int (digits_value c))))"
    unfolding stoi_def Let_def 1 5 2 using False 3 by simp
  with False 4 show ?thesis by (simp add: count_of_def)
qed

lemma stoi_count_token:
  "count_token c \<Longrightarrow> stoi c = Inr (count_of c) \<and> 0 < sint (count_of c) \<and>
     sint (count_of c) = int (digits_value c)"
  by (simp add: count_token_def stoi_digits count_of_def sint_count)

lemma stoi_not_count_token:
  assumes "is_integer c" and "\<not> count_token c"
  shows "stoi c = Inl StoiInvalidArgument \<or> stoi c = Inl StoiOutOfRange \<or>
         (\<exists>v. stoi c = Inr v \<and> sint v \<le> 0)"
  using assms by (auto simp: stoi_digits count_token_def count_of_def)

lemma stoi_fits:
  assumes "is_integer c" and "\<not> count_token c" and "fits_int c"
  shows "\<exists>v. stoi c = Inr v \<and> sint v \<le> 0"
  using assms by (auto simp: stoi_digits count_token_def count_of_def fits_int_def)

lemma ingredient_groups_end: "\<not> i + 1 < length ws \<Longrightarrow> ingredient_groups ws i = Inr True"
  by (simp add: ingredient_groups.simps)

lemma ingredient_groups_step:
  assumes "i + 1 < length ws" and "count_token (ws ! i)" and "is_alphabetical (ws ! (i + 1))"
  shows "ingredient_groups ws i =
     (if i + 3 < length ws \<and> ws ! (i + 2) \<noteq> '','' then Inr False
      else ingredient_groups ws (i + 3))"
proof -
  have "is_integer (ws ! i)" using assms(2) by (simp add: count_token_def)
  then show ?thesis
    using assms stoi_count_token [OF assms(2)]
    by (subst ingredient_groups.simps) (simp add: word_at_def word_is_def)
qed

lemma ingredient_groups_bad_name:
  assumes "i + 1 < length ws" and "count_token (ws ! i)" and "\<not> is_alphabetical (ws ! (i + 1))"
  shows "ingredient_groups ws i = Inr False"
proof -
  have "is_integer (ws ! i)" using assms(2) by (simp add: count_token_def)
  then show ?thesis
    using assms stoi_count_token [OF assms(2)]
    by (subst ingredient_groups.simps) (simp add: word_at_def)
qed

lemma ingredient_groups_bad_count:
  assumes "i + 1 < length ws" and "\<not> count_token (ws ! i)"
  shows "ingredient_groups ws i \<noteq> Inr True \<and>
         (fits_int (ws ! i) \<longrightarrow> ingredient_groups ws i = Inr False)"
proof (cases "is_integer (ws ! i)")
  case False
  with assms show ?thesis by (subst (1 2) ingredient_groups.simps) (simp add: word_at_def)
next
  case True
  have a: "ingredient_groups ws i \<noteq> Inr True"
    using stoi_not_count_token [OF True assms(2)] assms(1) True
    by (subst ingredient_groups.simps) (auto simp: word_at_def)
  have b: "ingredient_groups ws i = Inr False" if "fits_int (ws ! i)"
    using stoi_fits [OF True assms(2) that] assms(1) True
    by (subst ingredient_groups.simps) (auto simp: word_at_def)
  from a b show ?thesis by blast
qed

lemma ingredient_list_shape:
  "ingredient_list xs \<Longrightarrow> xs \<noteq> [] \<and> length xs mod 3 = 2 \<and> is_alphabetical (last xs)"
  by (induction xs rule: ingredient_list.induct) (auto simp: mod_Suc)

lemma ingredient_groups_list:
  assumes "(length ws - i) mod 3 = 2"
  shows "(ingredient_groups ws i = Inr True \<longleftrightarrow> ingredient_list (drop i ws)) \<and>
         (list_all fits_int (drop i ws) \<longrightarrow>
            ingredient_groups ws i = Inr (ingredient_list (drop i ws)))"
  using assms
proof (induction "length ws - i" arbitrary: i rule: less_induct)
  case less
  from less.prems have i1: "i + 1 < length ws" by (cases "length ws - i \<le> 1") auto
  then have d: "drop i ws = ws ! i # ws ! (i + 1) # drop (i + 2) ws"
    using Cons_nth_drop_Suc [of i ws] Cons_nth_drop_Suc [of "Suc i" ws] by simp
  show ?case
  proof (cases "count_token (ws ! i)")
    case False
    have "\<not> ingredient_list (drop i ws)"
      using False d by (cases "drop (i + 2) ws") auto
    moreover have "fits_int (ws ! i)" if "list_all fits_int (drop i ws)"
      using that d by simp
    ultimately show ?thesis using ingredient_groups_bad_count [OF i1 False] by auto
  next
    case ct: True
    show ?thesis
    proof (cases "is_alphabetical (ws ! (i + 1))")
      case False
      have "\<not> ingredient_list (drop i ws)"
        using False d by (cases "drop (i + 2) ws") auto
      then show ?thesis using ingredient_groups_bad_name [OF i1 ct False] by simp
    next
      case al: True
      note step = ingredient_groups_step [OF i1 ct al]
      show ?thesis
      proof (cases "length ws = i + 2")
        case True
        then have "drop i ws = [ws ! i, ws ! (i + 1)]" using d by simp
        moreover have "ingredient_groups ws (i + 3) = Inr True"
          using True by (simp add: ingredient_groups_end)
        ultimately show ?thesis using step True ct al by simp
      next
        case False
        with less.prems i1 have len: "i + 3 < length ws"
          by (cases "length ws = i + 3"; cases "length ws = i + 4") auto
        then have "drop (i + 2) ws = ws ! (i + 2) # drop (Suc (i + 2)) ws"
          using Cons_nth_drop_Suc [of "i + 2" ws] by simp
        then have d2: "drop (i + 2) ws = ws ! (i + 2) # drop (i + 3) ws"
          by (simp add: numeral_3_eq_3)
        obtain k where k: "length ws = i + 3 + k" using len by (metis less_imp_add_positive)
        have m: "(length ws - (i + 3)) mod 3 = 2"
          using less.prems k by (simp add: mod_simps)
        have ih: "(ingredient_groups ws (i + 3) = Inr True \<longleftrightarrow>
                     ingredient_list (drop (i + 3) ws)) \<and>
            (list_all fits_int (drop (i + 3) ws) \<longrightarrow>
               ingredient_groups ws (i + 3) = Inr (ingredient_list (drop (i + 3) ws)))"
          using less.hyps [of "i + 3"] m len by simp
        have fits: "list_all fits_int (drop (i + 3) ws)" if "list_all fits_int (drop i ws)"
          using that d d2 by simp
        show ?thesis
          using step len ct al d d2 ih fits by (cases "ws ! (i + 2) = '',''") auto
      qed
    qed
  qed
qed


lemma mod3_shift: "(k::nat) mod 3 = 2 \<longleftrightarrow> (k + 2) mod 3 = 1"
  by arith

lemma mod3_two_ge: "(k::nat) mod 3 = 2 \<Longrightarrow> 2 \<le> k"
  by arith

lemma comma_not_count: "\<not> count_token '',''"
  by (simp add: count_token_def is_integer_def is_digit_def)

lemma not_alphabetical_marks: "\<not> is_alphabetical '',''" "\<not> is_alphabetical ''?''"
  by (simp_all add: is_alphabetical_def is_alpha_def)

lemma ingredient_list_head: "ingredient_list xs \<Longrightarrow> count_token (hd xs)"
  by (induction xs rule: ingredient_list.induct) auto

lemma loot_sentence_type:
  assumes g: "ws ! 0 = ''Geralt''" and l: "ws ! 1 = ''loots''" and len: "2 \<le> length ws"
  shows "(detect_sentence_type ws line = Inr 0 \<longleftrightarrow> ingredient_list (drop 2 ws)) \<and>
         (list_all fits_int ws \<longrightarrow> \<not> ingredient_list (drop 2 ws) \<longrightarrow>
            detect_sentence_type ws line = Inr (- 1))"
proof (cases "length ws \<le> 2")
  case True
  with g len show ?thesis by (simp add: detect_sentence_type_def word_at_def)
next
  case False
  then have len3: "2 < length ws" by simp
  then have d: "drop 2 ws \<noteq> []" and hd2: "hd (drop 2 ws) = ws ! 2"
    and last2: "last (drop 2 ws) = last ws" and lastn: "last ws = ws ! (length ws - 1)"
  proof -
    show "drop 2 ws \<noteq> []" using len3 by simp
    show "hd (drop 2 ws) = ws ! 2" using len3 by (simp add: hd_drop_conv_nth)
    show "last (drop 2 ws) = last ws" using len3 by simp
    have "ws \<noteq> []" using len3 by auto
    then show "last ws = ws ! (length ws - 1)" by (rule last_conv_nth)
  qed
  have dst: "detect_sentence_type ws line =
      (if ws ! 2 = '','' then Inr (- 1)
       else if last ws = '','' then Inr (- 1)
       else bindE (is_valid_loot ws) (\<lambda>ok. if \<not> ok then Inr (- 1) else Inr 0))"
  proof -
    have w0: "word_at ws 0 = Inr ''Geralt''" using g len3 by (auto simp: word_at_Inr_iff)
    have w1: "word_at ws 1 = Inr ''loots''" using l len3 by (auto simp: word_at_Inr_iff)
    have w2: "word_at ws 2 = Inr (ws ! 2)" using len3 by (auto simp: word_at_Inr_iff)
    have wl: "word_at ws (length ws - 1) = Inr (last ws)"
      using lastn len3 by (auto simp: word_at_Inr_iff)
    show ?thesis
      unfolding detect_sentence_type_def w0 w1 w2 wl using False by simp
  qed
  show ?thesis
  proof (cases "ws ! 2 = '','' \<or> last ws = '',''")
    case True
    have "\<not> ingredient_list (drop 2 ws)"
      using True ingredient_list_head [of "drop 2 ws"] ingredient_list_shape [of "drop 2 ws"]
        hd2 last2 comma_not_count not_alphabetical_marks by auto
    with True dst show ?thesis by auto
  next
    case marks: False
    show ?thesis
    proof (cases "length ws mod 3 \<noteq> 1 \<or> length ws < 4")
      case True
      have "\<not> ingredient_list (drop 2 ws)"
      proof
        assume "ingredient_list (drop 2 ws)"
        then have "(length ws - 2) mod 3 = 2"
          using ingredient_list_shape [of "drop 2 ws"] by simp
        moreover have "\<exists>k. length ws = k + 2"
          using len3 by (intro exI [of _ "length ws - 2"]) simp
        ultimately obtain k where k: "length ws = k + 2" and "k mod 3 = 2" by auto
        then have "(k + 2) mod 3 = 1" "2 \<le> k"
          using mod3_shift [of k] mod3_two_ge [of k] by auto
        with True k show False by simp
      qed
      with True marks dst show ?thesis by (auto simp: is_valid_loot_def)
    next
      case False
      have "\<exists>k. length ws = k + 2"
        using len3 by (intro exI [of _ "length ws - 2"]) simp
      then obtain k where k: "length ws = k + 2" by auto
      with False have "(k + 2) mod 3 = 1" by simp
      then have "k mod 3 = 2" using mod3_shift [of k] by simp
      then have m: "(length ws - 2) mod 3 = 2" using k by simp
      from False have "is_valid_loot ws = ingredient_groups ws 2"
        by (auto simp: is_valid_loot_def)
      moreover have "list_all fits_int (drop 2 ws)" if "list_all fits_int ws"
        using that by (auto simp: list_all_iff dest: in_set_dropD)
      ultimately show ?thesis
        using ingredient_groups_list [OF m] marks dst
        by (cases "ingredient_groups ws 2") auto
    qed
  qed
qed

lemma geralt_question_invalid:
  assumes "ws ! 0 = ''Geralt''" and "ws \<noteq> []"
  shows "detect_question_type ws line = Inr (- 1)"
  using assms
  by (simp add: detect_question_type_def or_else_def question_ingredient_def
      question_potion_def question_trophy_def question_monster_def question_formula_def
      andE_def word_is_def word_at_def)

lemma split_line_loot_two:
  "split_line ''Geralt loots 5 Rebis, 3 Vitriol'' =
     [''Geralt'', ''loots'', ''5'', ''Rebis'', '','', ''3'', ''Vitriol'']"
  by (simp add: split_line_def is_space_def)

lemma split_line_loot_swapped:
  "split_line ''Geralt loots 5, Rebis'' = [''Geralt'', ''loots'', ''5'', '','', ''Rebis'']"
  by (simp add: split_line_def is_space_def)

lemma split_line_loot_one:
  "split_line ''Geralt loots 5 Rebis'' = [''Geralt'', ''loots'', ''5'', ''Rebis'']"
  by (simp add: split_line_def is_space_def)

lemma count_token_small: "count_token ''5''" "count_token ''3''"
  by (simp_all add: count_token_def is_integer_def is_digit_def digits_value_def digit_val_def
      INT_MAX_def)

lemma alphabetical_names: "is_alphabetical ''Rebis''" "is_alphabetical ''Vitriol''"
  by (simp_all add: is_alphabetical_def is_alpha_def)

lemma fits_int_samples:
  "fits_int ''Geralt''" "fits_int ''loots''" "fits_int ''5''" "fits_int '',''" "fits_int ''Rebis''"
  by (simp_all add: fits_int_def is_integer_def is_digit_def digits_value_def digit_val_def
      INT_MAX_def)

lemma line_at_middle:
  "line_at (pre @ a # rest) (int (length pre)) = Inr a"
  by (simp add: line_at_def nth_append)

lemma no_double_space_span:
  "no_double_space (pre @ xs @ post) (int (length pre)) (int (length pre) + int (length xs) - 1)
     = Inr (\<not> double_space xs)"
proof (induction xs arbitrary: pre rule: double_space.induct)
  case (1 a b cs)
  have a: "line_at (pre @ (a # b # cs) @ post) (int (length pre)) = Inr a"
    using line_at_middle [of pre a "b # cs @ post"] by simp
  have b: "line_at (pre @ (a # b # cs) @ post) (int (length pre) + 1) = Inr b"
    using line_at_middle [of "pre @ [a]" b "cs @ post"] by (simp add: add.commute)
  have rec: "no_double_space (pre @ (a # b # cs) @ post) (int (length pre) + 1)
               (int (length pre) + int (length (a # b # cs)) - 1) = Inr (\<not> double_space (b # cs))"
    using "1.IH" [of "pre @ [a]"] by (simp add: add.commute add.left_commute)
  show ?case
    using a b rec
    by (subst no_double_space.simps) (auto simp: add.commute add.left_commute)
qed (subst no_double_space.simps, simp)+

lemma split_line_brew_single:
  "split_line ''Geralt brews Black Blood'' = [''Geralt'', ''brews'', ''Black'', ''Blood'']"
  by (simp add: split_line_def is_space_def)

lemma split_line_brew_double:
  "split_line ''Geralt brews Black  Blood'' = [''Geralt'', ''brews'', ''Black'', ''Blood'']"
  by (simp add: split_line_def is_space_def)

lemma split_line_brew_tabs:
  "split_line tabbed_brew = [''Geralt'', ''brews'', ''Black'', ''Blood'']"
  by (simp add: tabbed_brew_def split_line_def is_space_def)

lemma split_line_brew_geralt:
  "split_line ''Geralt brews Ge  ralt'' = [''Geralt'', ''brews'', ''Ge'', ''ralt'']"
  by (simp add: split_line_def is_space_def)

lemma find_black_blood:
  "str_find ''Geralt brews Black Blood'' ''Black'' = 13"
  "str_find ''Geralt brews Black Blood'' ''Blood'' = 19"
  "str_find ''Geralt brews Black  Blood'' ''Black'' = 13"
  "str_find ''Geralt brews Black  Blood'' ''Blood'' = 20"
  by (simp_all add: str_find_def)

lemma alphabetical_black_blood: "is_alphabetical ''Black''" "is_alphabetical ''Blood''"
  by (simp_all add: is_alphabetical_def is_alpha_def)

lemma first_occurrence_accepts_double_space:
  "is_valid_potion_name (split_line ''Geralt brews Ge  ralt'') ''Geralt brews Ge  ralt'' 2 3
     = Inr True \<and> double_space ''Ge  ralt''"
proof -
  have "[2 ..< Suc 3] = [2, 3]" by (simp add: upt_rec)
  then have "is_valid_potion_name [''Geralt'', ''brews'', ''Ge'', ''ralt'']
     ''Geralt brews Ge  ralt'' 2 3 = Inr True"
    by (simp add: is_valid_potion_name_def word_at_def str_find_def is_alphabetical_def
        is_alpha_def no_double_space.simps line_at_def)
  then show ?thesis by (simp add: split_line_brew_geralt)
qed

lemma set_get_ingredients: "set (get_ingredients p) = set p"
  using mset_get_ingredients [of p] by (rule mset_eq_setD)

lemma distinct_get_ingredients:
  assumes "distinct (map fst p)"
  shows "distinct (map fst (get_ingredients p))"
proof -
  have "mset (map fst (get_ingredients p)) = mset (map fst p)"
    by (metis mset_map mset_get_ingredients)
  then show ?thesis using assms by (metis mset_eq_imp_distinct_iff)
qed

lemma map_of_get_ingredients:
  assumes "distinct (map fst p)"
  shows "map_of (get_ingredients p) = map_of p"
  using assms distinct_get_ingredients [OF assms] set_get_ingredients
  by (simp add: map_of_inject_set)

lemma map_of_use_ingredient:
  "map_of (ingredients (use_ingredient n q s)) k =
     (if k = n then deduct (map_of (ingredients s) n) q else map_of (ingredients s) k)"
  by (auto simp: use_ingredient_def deduct_def split: option.splits)

lemma map_of_fold_use_ingredient:
  "distinct (map fst xs) \<Longrightarrow>
   map_of (ingredients (fold (\<lambda>e. use_ingredient (fst e) (snd e)) xs s)) k =
     (case map_of xs k of
        None \<Rightarrow> map_of (ingredients s) k
      | Some q \<Rightarrow> deduct (map_of (ingredients s) k) q)"
proof (induction xs arbitrary: s)
  case Nil
  then show ?case by simp
next
  case (Cons e xs)
  obtain n q where e: "e = (n, q)" by (cases e)
  from Cons.prems e have nin: "map_of xs n = None" and d: "distinct (map fst xs)"
    by (auto simp: map_of_eq_None_iff)
  show ?case
    using Cons.IH [OF d, of "use_ingredient n q s"] nin e
    by (auto simp: map_of_use_ingredient split: option.splits)
qed

lemma brew_sentence_run:
  "detect_type (split_line line) = 0 \<Longrightarrow> detect_sentence_type (split_line line) line = Inr 2
     \<Longrightarrow> execute_line line s = handle_brew (split_line line) s"
  by (simp add: execute_sentence perform_sentence_def)

lemma split_line_brew_swallow:
  "split_line ''Geralt brews Swallow'' = [''Geralt'', ''brews'', ''Swallow'']"
  by (simp add: split_line_def is_space_def)

lemma brew_swallow_sentence:
  "detect_sentence_type [''Geralt'', ''brews'', ''Swallow''] ''Geralt brews Swallow'' = Inr 2"
  by (simp add: detect_sentence_type_def word_at_def is_valid_potion_name_def str_find_def
      is_alphabetical_def is_alpha_def no_double_space.simps line_at_def)

lemma split_line_brew_twin:
  "split_line ''Geralt brews Twin'' = [''Geralt'', ''brews'', ''Twin'']"
  by (simp add: split_line_def is_space_def)

lemma brew_twin_sentence:
  "detect_sentence_type [''Geralt'', ''brews'', ''Twin''] ''Geralt brews Twin'' = Inr 2"
  by (simp add: detect_sentence_type_def word_at_def is_valid_potion_name_def str_find_def
      is_alphabetical_def is_alpha_def no_double_space.simps line_at_def)

lemma split_line_learn_twin:
  "split_line ''Geralt learns Twin potion consists of 3 Rebis, 3 Rebis'' =
     [''Geralt'', ''learns'', ''Twin'', ''potion'', ''consists'', ''of'', ''3'', ''Rebis'',
      '','', ''3'', ''Rebis'']"
  by (simp add: split_line_def is_space_def)

lemma learn_twin_sentence:
  "detect_sentence_type
     [''Geralt'', ''learns'', ''Twin'', ''potion'', ''consists'', ''of'', ''3'', ''Rebis'',
      '','', ''3'', ''Rebis'']
     ''Geralt learns Twin potion consists of 3 Rebis, 3 Rebis'' = Inr 5"
  by (simp add: detect_sentence_type_def learns_potion_def word_at_def word_is_def andE_def
      scan_potion.simps is_valid_potion_name_def str_find_def is_alphabetical_def is_alpha_def
      no_double_space.simps line_at_def is_valid_potion_recipe_def cpp_rem_def
      recipe_groups.simps is_integer_def is_digit_def stoi_small)

lemma learn_twin:
  "execute_line ''Geralt learns Twin potion consists of 3 Rebis, 3 Rebis'' empty_inventory =
   Inr (empty_inventory\<lparr>potions := [(''Twin'', [(''Rebis'', 3), (''Rebis'', 3)])]\<rparr>,
        ''New alchemy formula obtained: Twin'')"
proof -
  have "detect_type (split_line ''Geralt learns Twin potion consists of 3 Rebis, 3 Rebis'') = 0"
    by (simp add: split_line_learn_twin detect_type_def)
  moreover have "detect_sentence_type
      (split_line ''Geralt learns Twin potion consists of 3 Rebis, 3 Rebis'')
      ''Geralt learns Twin potion consists of 3 Rebis, 3 Rebis'' = Inr 5"
    by (simp only: split_line_learn_twin learn_twin_sentence)
  ultimately show ?thesis
    by (simp add: execute_sentence perform_sentence_def split_line_learn_twin
        handle_potion_recipe_def potion_name_until.simps word_at_def empty_inventory_def
        formula_from.simps stoi_small)
qed

lemma loot_five_sentence:
  "detect_sentence_type [''Geralt'', ''loots'', ''5'', ''Rebis''] line = Inr 0"
  by (simp add: detect_sentence_type_def word_at_def is_valid_loot_def ingredient_groups.simps
      is_integer_def is_digit_def stoi_small is_alphabetical_def is_alpha_def)

lemma loot_five:
  "execute_line ''Geralt loots 5 Rebis''
     (empty_inventory\<lparr>potions := [(''Twin'', [(''Rebis'', 3), (''Rebis'', 3)])]\<rparr>) =
   Inr (twin_ready, ''Alchemy ingredients obtained'')"
proof -
  have "detect_type (split_line ''Geralt loots 5 Rebis'') = 0"
    by (simp add: split_line_loot_one detect_type_def)
  moreover have "detect_sentence_type (split_line ''Geralt loots 5 Rebis'')
      ''Geralt loots 5 Rebis'' = Inr 0"
    by (simp only: split_line_loot_one loot_five_sentence)
  ultimately show ?thesis
    by (simp add: execute_sentence perform_sentence_def split_line_loot_one handle_loot_def
        add_ingredients_from.simps word_at_def stoi_small add_ingredient_def
        empty_inventory_def twin_ready_def)
qed

lemma stoi_positive_count:
  assumes "is_integer w" and "stoi w = Inr cnt" and "\<not> sint cnt \<le> 0"
  shows "count_token w \<and> cnt = count_of w"
proof -
  from assms(1,2) have ne: "w \<noteq> []" and fit: "int (digits_value w) \<le> INT_MAX"
    and cnt: "cnt = count_of w"
    by (auto simp: stoi_digits split: if_splits)
  from fit have "sint (count_of w) = int (digits_value w)"
    by (simp add: count_of_def sint_count)
  with assms(3) cnt have "0 < digits_value w" by simp
  with ne fit assms(1) cnt show ?thesis by (simp add: count_token_def)
qed

lemma drop_four:
  assumes "i + 3 < length ws"
  shows "drop i ws = ws ! i # ws ! (i + 1) # ws ! (i + 2) # ws ! (i + 3) # drop (i + 4) ws"
proof -
  have "drop i ws = ws ! i # drop (Suc i) ws" using assms by (simp add: Cons_nth_drop_Suc)
  also have "drop (Suc i) ws = ws ! Suc i # drop (Suc (Suc i)) ws"
    using assms by (simp add: Cons_nth_drop_Suc)
  also have "drop (Suc (Suc i)) ws = ws ! Suc (Suc i) # drop (Suc (Suc (Suc i))) ws"
    using assms by (simp add: Cons_nth_drop_Suc)
  also have "drop (Suc (Suc (Suc i))) ws =
      ws ! Suc (Suc (Suc i)) # drop (Suc (Suc (Suc (Suc i)))) ws"
    using assms by (simp add: Cons_nth_drop_Suc)
  finally show ?thesis by (simp add: numeral_eq_Suc)
qed

lemma trade_groups_bounds:
  assumes "trade_trophy_groups ws i = Inr (Some j)"
  shows "i + 3 < length ws"
proof (rule ccontr)
  assume "\<not> i + 3 < length ws"
  then have w3: "word_at ws (i + 3) = Inl WordsOutOfBounds" by (simp add: word_at_def)
  have "trade_trophy_groups ws i \<noteq> Inr (Some j)"
    by (subst trade_trophy_groups.simps)
       (simp only: w3 bindE_def sum.case split: sum.split if_split, simp)
  with assms show False by simp
qed

lemma trade_groups_step:
  assumes "i + 3 < length ws"
  shows "trade_trophy_groups ws i =
     (if \<not> is_integer (ws ! i) then Inr None
      else bindE (stoi (ws ! i)) (\<lambda>cnt.
        if sint cnt \<le> 0 then Inr None
        else if \<not> is_alphabetical (ws ! (i + 1)) then Inr None
        else if ws ! (i + 3) = ''for''
          then (if ws ! (i + 2) \<noteq> ''trophy'' then Inr None else Inr (Some (i + 4)))
          else if ws ! (i + 2) \<noteq> '','' then Inr None
          else trade_trophy_groups ws (i + 3)))"
proof -
  have w: "word_at ws i = Inr (ws ! i)" "word_at ws (i + 1) = Inr (ws ! (i + 1))"
    "word_at ws (i + 2) = Inr (ws ! (i + 2))" "word_at ws (i + 3) = Inr (ws ! (i + 3))"
    using assms by (simp_all add: word_at_def)
  show ?thesis
    by (subst trade_trophy_groups.simps) (simp only: w bindE_Inr)
qed

lemma collect_trophies_step:
  assumes "i + 3 < length ws" and "stoi (ws ! i) = Inr cnt"
  shows "collect_trophies ws i tt s =
      (if short_of (trophies s) (ws ! (i + 1), cnt) then Inr None
       else if ws ! (i + 3) = ''for''
         then Inr (Some (i + 4, map_put (ws ! (i + 1)) cnt tt))
         else collect_trophies ws (i + 3) (map_put (ws ! (i + 1)) cnt tt) s)"
proof -
  have w: "word_at ws i = Inr (ws ! i)" "word_at ws (i + 1) = Inr (ws ! (i + 1))"
    "word_at ws (i + 3) = Inr (ws ! (i + 3))"
    using assms by (simp_all add: word_at_def)
  show ?thesis
    unfolding short_of_def fst_conv snd_conv
    by (subst collect_trophies.simps) (simp only: w bindE_Inr assms(2))
qed

lemma trade_groups_listing:
  "trade_trophy_groups ws i = Inr (Some j) \<Longrightarrow>
   \<exists>l. trophy_listing (drop i ws) = Some (l, drop j ws) \<and> j \<le> length ws \<and>
       (\<forall>tt. collect_trophies ws i tt s =
          (if list_ex (short_of (trophies s)) l then Inr None
           else Inr (Some (j, fold (\<lambda>e. map_put (fst e) (snd e)) l tt))))"
proof (induction "length ws - i" arbitrary: i rule: less_induct)
  case less
  note i3 = trade_groups_bounds [OF less.prems]
  note step = less.prems [unfolded trade_groups_step [OF i3]]
  from step have int: "is_integer (ws ! i)" by (simp split: if_splits)
  with step obtain cnt where cnt: "stoi (ws ! i) = Inr cnt"
    by (cases "stoi (ws ! i)") (simp_all add: bindE_def)
  note step2 = step [unfolded cnt bindE_Inr]
  from step2 int have pos: "\<not> sint cnt \<le> 0" by (simp split: if_splits)
  from step2 int pos have al: "is_alphabetical (ws ! (i + 1))" by (simp split: if_splits)
  from stoi_positive_count [OF int cnt pos] have ct: "count_token (ws ! i)"
    and ceq: "cnt = count_of (ws ! i)" by auto
  note d = drop_four [OF i3]
  note collect = collect_trophies_step [OF i3 cnt]
  show ?case
  proof (cases "ws ! (i + 3) = ''for''")
    case True
    with step2 int pos al have tr: "ws ! (i + 2) = ''trophy''" and j: "j = i + 4"
      by (simp_all split: if_splits)
    have "trophy_listing (drop i ws) = Some ([(ws ! (i + 1), cnt)], drop j ws)"
      unfolding d using ct al True tr j ceq by simp
    moreover have "j \<le> length ws" using j i3 by simp
    moreover have "\<forall>tt. collect_trophies ws i tt s =
          (if list_ex (short_of (trophies s)) [(ws ! (i + 1), cnt)] then Inr None
           else Inr (Some (j, fold (\<lambda>e. map_put (fst e) (snd e)) [(ws ! (i + 1), cnt)] tt)))"
      unfolding collect using True j by simp
    ultimately show ?thesis by blast
  next
    case False
    with step2 int pos al have comma: "ws ! (i + 2) = '',''"
      and rec: "trade_trophy_groups ws (i + 3) = Inr (Some j)"
      by (simp_all split: if_splits)
    have "length ws - (i + 3) < length ws - i" using i3 by simp
    from less.hyps [OF this rec]
    obtain l where l: "trophy_listing (drop (i + 3) ws) = Some (l, drop j ws)"
      and jl: "j \<le> length ws"
      and coll: "\<And>tt. collect_trophies ws (i + 3) tt s =
          (if list_ex (short_of (trophies s)) l then Inr None
           else Inr (Some (j, fold (\<lambda>e. map_put (fst e) (snd e)) l tt)))"
      by blast
    have "ws ! (i + 3) # drop (i + 4) ws = drop (i + 3) ws"
      using i3 Cons_nth_drop_Suc [of "i + 3" ws] by (simp add: numeral_eq_Suc)
    with l have d3: "trophy_listing (ws ! (i + 3) # drop (i + 4) ws) = Some (l, drop j ws)"
      by simp
    have "trophy_listing (drop i ws) = Some ((ws ! (i + 1), cnt) # l, drop j ws)"
      unfolding d using ct al False comma ceq by (simp add: d3)
    moreover have "\<forall>tt. collect_trophies ws i tt s =
          (if list_ex (short_of (trophies s)) ((ws ! (i + 1), cnt) # l) then Inr None
           else Inr (Some (j, fold (\<lambda>e. map_put (fst e) (snd e)) ((ws ! (i + 1), cnt) # l) tt)))"
      unfolding collect coll using False by simp
    ultimately show ?thesis using jl by blast
  qed
qed

lemma trade_sentence_shape:
  assumes "detect_sentence_type ws line = Inr 1"
  shows "is_valid_trade ws = Inr True"
  using assms
  by (auto simp: detect_sentence_type_def learns_potion_def bindE_Inr_iff split: if_splits)

lemma cpp_rem_3_2_mod:
  assumes "cpp_rem (int n - int j) 3 = 2"
  shows "(n - j) mod 3 = 2"
proof -
  from assms have "j + 1 < n" by (rule cpp_rem_3_2)
  then obtain k where k: "n = j + k" and pos: "0 < k"
    by (intro that [of "n - j"]) simp_all
  from assms have "cpp_rem (int k) 3 = 2" unfolding k by simp
  with pos have "int k mod 3 = 2" by (simp add: cpp_rem_def)
  then have "int (k mod 3) = int 2" by (simp only: zmod_int) simp
  then have "k mod 3 = 2" by (simp only: of_nat_eq_iff)
  then show ?thesis unfolding k by simp
qed

lemma valid_trade_parts:
  assumes "is_valid_trade ws = Inr True"
  shows "\<exists>j. trade_trophy_groups ws 2 = Inr (Some j) \<and> ingredient_list (drop j ws)"
proof -
  from assms obtain r where r: "trade_trophy_groups ws 2 = Inr r"
    by (cases "trade_trophy_groups ws 2") (simp_all add: is_valid_trade_def)
  with assms obtain j where j: "r = Some j"
    by (cases r) (simp_all add: is_valid_trade_def)
  from assms have c: "cpp_rem (int (length ws) - int j) 3 = 2"
    and g: "ingredient_groups ws j = Inr True"
    unfolding is_valid_trade_def r j by (simp_all split: if_splits)
  from c have "(length ws - j) mod 3 = 2" by (rule cpp_rem_3_2_mod)
  with g have "ingredient_list (drop j ws)" using ingredient_groups_list [of ws j] by simp
  with r j show ?thesis by blast
qed

lemma formula_requests:
  "drop j ws = xs \<Longrightarrow> ingredient_list xs \<Longrightarrow>
     formula_from ws j [] = Inr (ingredient_requests xs)"
proof (induction xs arbitrary: j rule: ingredient_list.induct)
  case (1 c n)
  then have len: "length ws - j = 2" by (metis length_drop length_Cons list.size(3) numeral_2_eq_2)
  then have j1: "j + 1 < length ws" and stop: "\<not> (j + 3) + 1 < length ws" by simp_all
  have c: "ws ! j = c" using "1.prems"(1) by (simp add: nth_via_drop)
  have "drop (j + 1) ws = drop 1 (drop j ws)" by (simp add: add.commute)
  then have n: "ws ! (j + 1) = n" using "1.prems"(1) by (simp add: nth_via_drop)
  from "1.prems"(2) have st: "stoi c = Inr (count_of c)" by (simp add: stoi_count_token)
  have w: "word_at ws j = Inr c" "word_at ws (j + 1) = Inr n"
    using j1 c n by (simp_all add: word_at_def)
  show ?case
    unfolding formula_from_step [OF j1] formula_from_stop [OF stop] w bindE_Inr st by simp
next
  case (2 c n sep rest)
  then have len: "length ws - j = 3 + length rest" by (metis length_drop length_Cons add.commute
      add_Suc_right numeral_3_eq_3 add_0)
  then have j1: "j + 1 < length ws" by simp
  have c: "ws ! j = c" using "2.prems"(1) by (simp add: nth_via_drop)
  have "drop (j + 1) ws = drop 1 (drop j ws)" by (simp add: add.commute)
  then have n: "ws ! (j + 1) = n" using "2.prems"(1) by (simp add: nth_via_drop)
  have "drop (j + 3) ws = drop 3 (drop j ws)" by (simp add: add.commute)
  then have rest: "drop (j + 3) ws = rest" using "2.prems"(1) by simp
  from "2.prems"(2) have st: "stoi c = Inr (count_of c)" and il: "ingredient_list rest"
    by (simp_all add: stoi_count_token)
  have w: "word_at ws j = Inr c" "word_at ws (j + 1) = Inr n"
    using j1 c n by (simp_all add: word_at_def)
  show ?case
    unfolding formula_from_step [OF j1] "2.IH" [OF rest il] w bindE_Inr st by simp
qed simp_all

lemma map_of_decrease_trophy:
  "map_of (trophies (decrease_trophy n q s)) k =
     (if k = n then deduct (map_of (trophies s) n) q else map_of (trophies s) k)"
  by (auto simp: decrease_trophy_def deduct_def split: option.splits)

lemma map_of_fold_decrease_trophy:
  "distinct (map fst xs) \<Longrightarrow>
   map_of (trophies (fold (\<lambda>e. decrease_trophy (fst e) (snd e)) xs s)) k =
     (case map_of xs k of
        None \<Rightarrow> map_of (trophies s) k
      | Some q \<Rightarrow> deduct (map_of (trophies s) k) q)"
proof (induction xs arbitrary: s)
  case Nil
  then show ?case by simp
next
  case (Cons e xs)
  obtain n q where e: "e = (n, q)" by (cases e)
  from Cons.prems e have nin: "map_of xs n = None" and d: "distinct (map fst xs)"
    by (auto simp: map_of_eq_None_iff)
  show ?case
    using Cons.IH [OF d, of "decrease_trophy n q s"] nin e
    by (auto simp: map_of_decrease_trophy split: option.splits)
qed

lemma map_of_fold_map_put:
  "map_of (fold (\<lambda>e. map_put (fst e) (snd e)) l tt) k =
     (case map_of (rev l) k of None \<Rightarrow> map_of tt k | Some c \<Rightarrow> Some c)"
proof (induction l arbitrary: tt)
  case Nil
  show ?case by simp
next
  case (Cons e l)
  show ?case
    unfolding fold_Cons comp_apply Cons.IH
    by (cases e) (auto simp: map_add_def split: option.splits)
qed

lemma sorted_keys_fold_map_put:
  "sorted_keys tt \<Longrightarrow> sorted_keys (fold (\<lambda>e. map_put (fst e) (snd e)) l tt)"
  by (induction l arbitrary: tt) (simp_all add: sorted_keys_map_put)

lemma map_of_add_ingredient:
  "map_of (ingredients (add_ingredient n q s)) k =
     (if k = n then Some ((case map_of (ingredients s) n of None \<Rightarrow> 0 | Some c \<Rightarrow> c) + q)
      else map_of (ingredients s) k)"
  by (auto simp: add_ingredient_def split: option.splits)

lemma map_of_fold_add_ingredient:
  "map_of (ingredients (fold (\<lambda>e. add_ingredient (fst e) (snd e)) requests s)) k =
     (if k \<in> fst ` set requests
      then Some ((case map_of (ingredients s) k of None \<Rightarrow> 0 | Some c \<Rightarrow> c)
                  + requested_sum requests k)
      else map_of (ingredients s) k)"
proof (induction requests arbitrary: s)
  case Nil
  show ?case by simp
next
  case (Cons e requests)
  obtain n q where e: "e = (n, q)" by (cases e)
  have none: "filter (\<lambda>r. fst r = n) requests = []" if "n \<notin> fst ` set requests"
    using that by (auto simp: filter_empty_conv)
  show ?case
    unfolding fold_Cons comp_apply Cons.IH e
    by (auto simp: map_of_add_ingredient requested_sum_def none split: option.splits)
qed

lemma ingredients_fold_add_ingredient:
  "ingredients s = ingredients s' \<Longrightarrow>
     ingredients (fold (\<lambda>e. add_ingredient (fst e) (snd e)) requests s) =
     ingredients (fold (\<lambda>e. add_ingredient (fst e) (snd e)) requests s')"
proof (induction requests arbitrary: s s')
  case Nil
  then show ?case by simp
next
  case (Cons e requests)
  have "ingredients (add_ingredient (fst e) (snd e) s) =
        ingredients (add_ingredient (fst e) (snd e) s')"
    using Cons.prems by (simp add: add_ingredient_def split: option.splits)
  then show ?case unfolding fold_Cons comp_apply by (rule Cons.IH)
qed

lemma trade_sentence_run:
  "detect_type (split_line line) = 0 \<Longrightarrow> detect_sentence_type (split_line line) line = Inr 1
     \<Longrightarrow> execute_line line s = handle_trade (split_line line) s"
  by (simp add: execute_sentence perform_sentence_def)

lemma learn_igni:
  "execute_line ''Geralt learns Igni sign is effective against Harpy'' empty_inventory =
   Inr (empty_inventory
          \<lparr>monsters := [(''Harpy'', \<lparr>signs_against = [''Igni''], potions_against = []\<rparr>)]\<rparr>,
        ''New bestiary entry added: Harpy'')"
proof -
  have "detect_type (split_line ''Geralt learns Igni sign is effective against Harpy'') = 0"
    by (simp add: split_line_learn_sign detect_type_def)
  moreover have "detect_sentence_type
      (split_line ''Geralt learns Igni sign is effective against Harpy'')
      ''Geralt learns Igni sign is effective against Harpy'' = Inr 3"
    by (simp only: split_line_learn_sign learn_sign_sentence)
  ultimately show ?thesis
    by (simp add: execute_sentence perform_sentence_def split_line_learn_sign
        handle_sign_knowledge_def word_at_def empty_inventory_def new_monster_def add_sign_def)
qed

lemma first_harpy:
  "execute_line ''Geralt encounters a Harpy''
     (empty_inventory
        \<lparr>monsters := [(''Harpy'', \<lparr>signs_against = [''Igni''], potions_against = []\<rparr>)]\<rparr>) =
   Inr (harpy_slayer\<lparr>trophies := [(''Harpy'', 1)]\<rparr>, ''Geralt defeats Harpy'')"
proof -
  have "detect_type (split_line ''Geralt encounters a Harpy'') = 0"
    by (simp add: split_line_encounter detect_type_def)
  moreover have "detect_sentence_type (split_line ''Geralt encounters a Harpy'')
      ''Geralt encounters a Harpy'' = Inr 6"
    by (simp only: split_line_encounter encounter_sentence)
  ultimately show ?thesis
    by (simp add: execute_sentence perform_sentence_def split_line_encounter
        handle_encounter_def word_at_def empty_inventory_def harpy_slayer_def
        use_one_potion_each_def award_trophy_def)
qed

lemma second_harpy:
  "execute_line ''Geralt encounters a Harpy'' (harpy_slayer\<lparr>trophies := [(''Harpy'', 1)]\<rparr>) =
   Inr (harpy_slayer, ''Geralt defeats Harpy'')"
proof -
  have "detect_type (split_line ''Geralt encounters a Harpy'') = 0"
    by (simp add: split_line_encounter detect_type_def)
  moreover have "detect_sentence_type (split_line ''Geralt encounters a Harpy'')
      ''Geralt encounters a Harpy'' = Inr 6"
    by (simp only: split_line_encounter encounter_sentence)
  ultimately show ?thesis
    by (simp add: execute_sentence perform_sentence_def split_line_encounter
        handle_encounter_def word_at_def empty_inventory_def harpy_slayer_def
        use_one_potion_each_def award_trophy_def)
qed

lemma split_line_trade_one:
  "split_line ''Geralt trades 2 Harpy trophy for 1 Rebis'' =
     [''Geralt'', ''trades'', ''2'', ''Harpy'', ''trophy'', ''for'', ''1'', ''Rebis'']"
  by (simp add: split_line_def is_space_def)

lemma trade_one_sentence:
  "detect_sentence_type
     [''Geralt'', ''trades'', ''2'', ''Harpy'', ''trophy'', ''for'', ''1'', ''Rebis''] line = Inr 1"
  by (simp add: detect_sentence_type_def word_at_def word_is_def is_valid_trade_def
      trade_trophy_groups.simps ingredient_groups.simps cpp_rem_def
      is_integer_def is_digit_def stoi_small is_alphabetical_def is_alpha_def)

lemma split_line_trade_twice:
  "split_line ''Geralt trades 2 Harpy, 1 Harpy trophy for 1 Rebis'' =
     [''Geralt'', ''trades'', ''2'', ''Harpy'', '','', ''1'', ''Harpy'', ''trophy'', ''for'',
      ''1'', ''Rebis'']"
  by (simp add: split_line_def is_space_def)

lemma trade_twice_sentence:
  "detect_sentence_type
     [''Geralt'', ''trades'', ''2'', ''Harpy'', '','', ''1'', ''Harpy'', ''trophy'', ''for'',
      ''1'', ''Rebis''] line = Inr 1"
  by (simp add: detect_sentence_type_def word_at_def word_is_def is_valid_trade_def
      trade_trophy_groups.simps ingredient_groups.simps cpp_rem_def
      is_integer_def is_digit_def stoi_small is_alphabetical_def is_alpha_def)

lemma count_token_units: "count_token ''1''" "count_token ''2''"
  by (simp_all add: count_token_def is_integer_def is_digit_def digits_value_def digit_val_def
      INT_MAX_def)

lemma count_of_units: "count_of ''1'' = 1" "count_of ''2'' = 2"
  by (simp_all add: count_of_def digits_value_def digit_val_def)

lemma alphabetical_harpy: "is_alphabetical ''Harpy''"
  by (simp add: is_alphabetical_def is_alpha_def)

text \<open>
  The operations that take from a ledger keep every stored count positive, and so does
  \<^verbatim>\<open>add_ingredient\<close> as long as the sum stays within \<^verbatim>\<open>int\<close>.
\<close>

lemma stoi_int_max: "stoi ''2147483647'' = Inr 2147483647"
  by (simp add: stoi_def is_space_def is_digit_def digits_value_def digit_val_def
      INT_MAX_def INT_MIN_def)

lemma split_line_loot_max:
  "split_line ''Geralt loots 2147483647 Rebis'' = [''Geralt'', ''loots'', ''2147483647'', ''Rebis'']"
  by (simp add: split_line_def is_space_def)

lemma loot_max_sentence:
  "detect_sentence_type [''Geralt'', ''loots'', ''2147483647'', ''Rebis''] line = Inr 0"
  by (simp add: detect_sentence_type_def word_at_def is_valid_loot_def ingredient_groups.simps
      is_integer_def is_digit_def stoi_int_max is_alphabetical_def is_alpha_def)

lemma split_line_loot_unit:
  "split_line ''Geralt loots 1 Rebis'' = [''Geralt'', ''loots'', ''1'', ''Rebis'']"
  by (simp add: split_line_def is_space_def)

lemma loot_unit_sentence:
  "detect_sentence_type [''Geralt'', ''loots'', ''1'', ''Rebis''] line = Inr 0"
  by (simp add: detect_sentence_type_def word_at_def is_valid_loot_def ingredient_groups.simps
      is_integer_def is_digit_def stoi_small is_alphabetical_def is_alpha_def)

lemma loot_max:
  "execute_line ''Geralt loots 2147483647 Rebis'' empty_inventory =
   Inr (empty_inventory\<lparr>ingredients := [(''Rebis'', 2147483647)]\<rparr>,
        ''Alchemy ingredients obtained'')"
proof -
  have "detect_type (split_line ''Geralt loots 2147483647 Rebis'') = 0"
    by (simp add: split_line_loot_max detect_type_def)
  moreover have "detect_sentence_type (split_line ''Geralt loots 2147483647 Rebis'')
      ''Geralt loots 2147483647 Rebis'' = Inr 0"
    by (simp only: split_line_loot_max loot_max_sentence)
  ultimately show ?thesis
    by (simp add: execute_sentence perform_sentence_def split_line_loot_max handle_loot_def
        add_ingredients_from.simps word_at_def stoi_int_max add_ingredient_def
        empty_inventory_def)
qed

lemma loot_one_more:
  "execute_line ''Geralt loots 1 Rebis''
     (empty_inventory\<lparr>ingredients := [(''Rebis'', 2147483647)]\<rparr>) =
   Inr (overflowed, ''Alchemy ingredients obtained'')"
proof -
  have "detect_type (split_line ''Geralt loots 1 Rebis'') = 0"
    by (simp add: split_line_loot_unit detect_type_def)
  moreover have "detect_sentence_type (split_line ''Geralt loots 1 Rebis'')
      ''Geralt loots 1 Rebis'' = Inr 0"
    by (simp only: split_line_loot_unit loot_unit_sentence)
  ultimately show ?thesis
    by (simp add: execute_sentence perform_sentence_def split_line_loot_unit handle_loot_def
        add_ingredients_from.simps word_at_def stoi_small add_ingredient_def
        empty_inventory_def overflowed_def)
qed

lemma sint_wrapped: "sint (2147483647 + 1 :: cpp_int) = - 2147483648"
  by simp

lemma split_line_total_rebis:
  "split_line ''Total ingredient Rebis ?'' = [''Total'', ''ingredient'', ''Rebis'', ''?'']"
  by (simp add: split_line_def is_space_def)

lemma total_rebis_question:
  "detect_question_type [''Total'', ''ingredient'', ''Rebis'', ''?''] line = Inr 0"
  by (simp add: detect_question_type_def or_else_def question_ingredient_def andE_def
      word_is_def word_at_def is_alphabetical_def is_alpha_def)

lemma show_int_wrapped: "show_int (2147483647 + 1) = ''-2147483648''"
  by (simp add: show_int_def show_nat.simps digit_char_def)

lemma total_rebis:
  "execute_line ''Total ingredient Rebis ?'' overflowed = Inr (overflowed, ''-2147483648'')"
proof -
  have "detect_type (split_line ''Total ingredient Rebis ?'') = 1"
    by (simp add: split_line_total_rebis detect_type_def)
  moreover have "detect_question_type (split_line ''Total ingredient Rebis ?'')
      ''Total ingredient Rebis ?'' = Inr 0"
    by (simp only: split_line_total_rebis total_rebis_question)
  moreover have "get_ingredient_count ''Rebis'' overflowed = 2147483647 + 1"
    by (simp add: get_ingredient_count_def overflowed_def empty_inventory_def)
  ultimately show ?thesis
    using show_int_wrapped
    by (simp add: execute_question answer_question_def split_line_total_rebis word_at_def)
qed

lemma list_all_map_erase:
  "list_all P m \<Longrightarrow> list_all P (map_erase k m)"
  by (auto simp: map_erase_def list_all_iff)

lemma positive_lookup:
  assumes "list_all (\<lambda>entry. 0 < sint (snd entry)) m" and "map_of m k = Some c"
  shows "0 < sint c"
proof -
  from assms(2) have "(k, c) \<in> set m" by (rule map_of_SomeD)
  with assms(1) show ?thesis by (fastforce simp: list_all_iff)
qed

lemma use_ingredient_positive:
  "positive_counts s \<Longrightarrow> positive_counts (use_ingredient n q s)"
  by (auto simp: positive_counts_def use_ingredient_def list_all_map_erase list_all_map_put
      split: option.splits)

lemma decrease_trophy_positive:
  "positive_counts s \<Longrightarrow> positive_counts (decrease_trophy n q s)"
  by (auto simp: positive_counts_def decrease_trophy_def list_all_map_erase list_all_map_put
      split: option.splits)

lemma sint_pred:
  assumes "0 < sint (c :: cpp_int)"
  shows "sint (c - 1) = sint c - 1"
proof -
  have "sint c < 2 ^ 31" using sint_lt [of c] by simp
  with assms have "signed_take_bit 31 (sint c - 1) = sint c - 1"
    by (intro signed_take_bit_int_eq_self) simp_all
  then show ?thesis by (simp add: sint_word_ariths)
qed

lemma sint_sum:
  assumes "0 < sint (c :: cpp_int)" and "0 < sint (q :: cpp_int)"
    and "sint c + sint q \<le> INT_MAX"
  shows "sint (c + q) = sint c + sint q"
proof -
  from assms have "signed_take_bit 31 (sint c + sint q) = sint c + sint q"
    by (intro signed_take_bit_int_eq_self) (simp_all add: INT_MAX_def)
  then show ?thesis by (simp add: sint_word_ariths)
qed

lemma use_potion_positive:
  assumes "positive_counts s"
  shows "positive_counts (use_potion p s)"
proof (cases "map_of (potion_counts s) p")
  case None
  with assms show ?thesis by (simp add: use_potion_def)
next
  case (Some c)
  show ?thesis
  proof (cases "0 < sint c")
    case False
    with Some assms show ?thesis by (simp add: use_potion_def)
  next
    case True
    have "0 < sint (c - 1)" if "c - 1 \<noteq> 0"
    proof -
      from that have "sint (c - 1) \<noteq> 0" by (simp add: word_eq_iff_signed [where ?'a = int])
      with True show ?thesis by (simp add: sint_pred)
    qed
    with Some assms show ?thesis
      by (auto simp: positive_counts_def use_potion_def list_all_map_erase list_all_map_put)
  qed
qed

lemma add_ingredient_positive:
  assumes "positive_counts s" and "0 < sint q"
    and "case map_of (ingredients s) n of None \<Rightarrow> True | Some c \<Rightarrow> sint c + sint q \<le> INT_MAX"
  shows "positive_counts (add_ingredient n q s)"
proof (cases "map_of (ingredients s) n")
  case None
  with assms show ?thesis
    by (simp add: positive_counts_def add_ingredient_def list_all_map_put)
next
  case (Some c)
  with assms have c: "0 < sint c" and le: "sint c + sint q \<le> INT_MAX"
    by (auto simp: positive_counts_def dest: positive_lookup)
  then have "0 < sint (c + q)" using assms(2) by (simp add: sint_sum)
  with Some assms(1) show ?thesis
    by (simp add: positive_counts_def add_ingredient_def list_all_map_put)
qed

subsection \<open>What the Brew and Trade handlers do on every sentence\<close>

text \<open>
  \<^verbatim>\<open>handle_brew\<close>, for a Brew sentence whose potion has a stored formula. Its first loop
  compares each entry of the formula with the stock on its own: if some entry names an
  ingredient that is absent or stocked below the quantity of that entry, the brew fails
  with \<^verbatim>\<open>Not enough ingredients\<close> and no ingredient or potion count changes.
  Otherwise the second loop deducts the quantity of every entry in turn (an ingredient
  that reaches zero or less is removed) and the brewed count of the potion is
  incremented. For a formula that names no ingredient twice the first loop is sufficiency
  for the whole formula, and every required ingredient loses exactly its quantity.
\<close>

theorem brew_outcome:
  assumes ty: "detect_type (split_line line) = 0"
    and st: "detect_sentence_type (split_line line) line = Inr 2"
    and known: "map_of (potions s) (join_words (drop 2 (split_line line))) = Some p"
  shows "\<exists>s'. trophies s' = trophies s \<and> monsters s' = monsters s \<and>
           (if list_ex (short_of (ingredients s)) p then
              execute_line line s = Inr (s', ''Not enough ingredients'') \<and>
              ingredients s' = ingredients s \<and> potion_counts s' = potion_counts s
            else
              execute_line line s =
                Inr (s', ''Alchemy item created: '' @ join_words (drop 2 (split_line line))) \<and>
              ingredients s' =
                ingredients (fold (\<lambda>e. use_ingredient (fst e) (snd e)) (get_ingredients p) s) \<and>
              (distinct (map fst p) \<longrightarrow>
                 (\<forall>k. map_of (ingredients s') k =
                    (case map_of p k of
                       None \<Rightarrow> map_of (ingredients s) k
                     | Some q \<Rightarrow> deduct (map_of (ingredients s) k) q))) \<and>
              map_of (potion_counts s') =
                (map_of (potion_counts s))(join_words (drop 2 (split_line line)) \<mapsto>
                   (case map_of (potion_counts s) (join_words (drop 2 (split_line line))) of
                      None \<Rightarrow> 1 | Some c \<Rightarrow> c + 1)))"
proof -
  let ?name = "join_words (drop 2 (split_line line))"
  let ?s1 = "s\<lparr>potions := map_put ?name (get_ingredients p) (potions s)\<rparr>"
  have run: "execute_line line s = handle_brew (split_line line) s"
    using ty st by (rule brew_sentence_run)
  have short: "list_ex (\<lambda>pair. case map_of (ingredients ?s1) (fst pair) of
                                    None \<Rightarrow> True
                                  | Some c \<Rightarrow> sint c < sint (snd pair)) (get_ingredients p)
                 = list_ex (short_of (ingredients s)) p"
    by (simp add: list_ex_iff set_get_ingredients short_of_def)
  have fold_fields: "ingredients (fold (\<lambda>e. use_ingredient (fst e) (snd e)) xs ?s1) =
      ingredients (fold (\<lambda>e. use_ingredient (fst e) (snd e)) xs s)" for xs
  proof (induction xs rule: rev_induct)
    case Nil
    show ?case by simp
  next
    case (snoc x xs)
    then show ?case by (simp add: use_ingredient_def split: option.splits)
  qed
  show ?thesis
  proof (cases "list_ex (short_of (ingredients s)) p")
    case True
    with run known short show ?thesis
      by (intro exI [of _ ?s1]) (simp add: handle_brew_def Let_def)
  next
    case False
    let ?s2 = "fold (\<lambda>pair. use_ingredient (fst pair) (snd pair)) (get_ingredients p) ?s1"
    let ?c = "case map_of (potion_counts ?s2) ?name of None \<Rightarrow> 0 | Some c \<Rightarrow> c"
    let ?s3 = "?s2\<lparr>potion_counts := map_put ?name (?c + 1) (potion_counts ?s2)\<rparr>"
    have ex: "execute_line line s = Inr (?s3, ''Alchemy item created: '' @ ?name)"
      using run known short False by (simp add: handle_brew_def Let_def)
    have ing: "ingredients ?s3 =
        ingredients (fold (\<lambda>e. use_ingredient (fst e) (snd e)) (get_ingredients p) s)"
      using fold_fields by simp
    have dist: "\<forall>k. map_of (ingredients ?s3) k =
                    (case map_of p k of
                       None \<Rightarrow> map_of (ingredients s) k
                     | Some q \<Rightarrow> deduct (map_of (ingredients s) k) q)"
      if d: "distinct (map fst p)"
    proof -
      have d': "distinct (map fst (get_ingredients p))"
        using d by (rule distinct_get_ingredients)
      show ?thesis
        using map_of_fold_use_ingredient [OF d', of s] map_of_get_ingredients [OF d] ing
        by simp
    qed
    have cnt: "map_of (potion_counts ?s3) =
        (map_of (potion_counts s))(?name \<mapsto>
           (case map_of (potion_counts s) ?name of None \<Rightarrow> 1 | Some c \<Rightarrow> c + 1))"
      by (auto split: option.splits)
    show ?thesis
      using False ex ing dist cnt by (intro exI [of _ ?s3]) simp
  qed
qed


text \<open>
  Two runs of the handler: a brew that succeeds on 5 Rebis and 3 Vitriol, and one that
  fails on 1 Rebis.
\<close>

theorem brew_outcome_witness:
  "detect_type (split_line ''Geralt brews Swallow'') = 0 \<and>
   detect_sentence_type (split_line ''Geralt brews Swallow'') ''Geralt brews Swallow'' = Inr 2 \<and>
   map_of (potions brewer) (join_words (drop 2 (split_line ''Geralt brews Swallow''))) =
     Some [(''Vitriol'', 3), (''Rebis'', 2)] \<and>
   (\<exists>s'. execute_line ''Geralt brews Swallow'' brewer =
            Inr (s', ''Alchemy item created: Swallow'') \<and>
          map_of (ingredients s') ''Rebis'' = Some 3 \<and>
          map_of (ingredients s') ''Vitriol'' = None \<and>
          map_of (potion_counts s') ''Swallow'' = Some 1) \<and>
   (\<exists>s'. execute_line ''Geralt brews Swallow'' (brewer\<lparr>ingredients := [(''Rebis'', 1)]\<rparr>) =
            Inr (s', ''Not enough ingredients'') \<and>
          ingredients s' = [(''Rebis'', 1)] \<and> potion_counts s' = [])"
proof -
  have h1: "detect_type (split_line ''Geralt brews Swallow'') = 0"
    by (simp add: split_line_brew_swallow detect_type_def)
  have h2: "detect_sentence_type (split_line ''Geralt brews Swallow'') ''Geralt brews Swallow''
              = Inr 2"
    by (simp only: split_line_brew_swallow brew_swallow_sentence)
  have h3: "map_of (potions brewer) (join_words (drop 2 (split_line ''Geralt brews Swallow''))) =
              Some [(''Vitriol'', 3), (''Rebis'', 2)]"
    by (simp add: split_line_brew_swallow brewer_def empty_inventory_def)
  have h3': "map_of (potions (brewer\<lparr>ingredients := [(''Rebis'', 1)]\<rparr>))
               (join_words (drop 2 (split_line ''Geralt brews Swallow''))) =
              Some [(''Vitriol'', 3), (''Rebis'', 2)]"
    by (simp add: split_line_brew_swallow brewer_def empty_inventory_def)
  have a: "\<exists>s'. execute_line ''Geralt brews Swallow'' brewer =
            Inr (s', ''Alchemy item created: Swallow'') \<and>
          map_of (ingredients s') ''Rebis'' = Some 3 \<and>
          map_of (ingredients s') ''Vitriol'' = None \<and>
          map_of (potion_counts s') ''Swallow'' = Some 1"
    using brew_outcome [OF h1 h2 h3]
    by (auto simp: split_line_brew_swallow brewer_def empty_inventory_def short_of_def
        deduct_def)
  have b: "\<exists>s'. execute_line ''Geralt brews Swallow'' (brewer\<lparr>ingredients := [(''Rebis'', 1)]\<rparr>) =
            Inr (s', ''Not enough ingredients'') \<and>
          ingredients s' = [(''Rebis'', 1)] \<and> potion_counts s' = []"
    using brew_outcome [OF h1 h2 h3']
    by (auto simp: split_line_brew_swallow brewer_def empty_inventory_def short_of_def)
  from h1 h2 h3 a b show ?thesis by blast
qed

text \<open>
  \<^verbatim>\<open>handle_trade\<close>, for a Trade sentence: trophy listings (\<open>count name\<close>, separated by
  commas, closed by \<^verbatim>\<open>trophy for\<close>) and then ingredients. If some listing names a trophy
  that is absent from the ledger or stocked below the count of that listing, the trade
  fails with \<^verbatim>\<open>Not enough trophies\<close> and the state is unchanged. Otherwise it succeeds,
  the counts collected in \<^verbatim>\<open>trophies_to_trade\<close> are deducted (an entry that reaches zero
  or less is removed), every requested ingredient gains the sum of the counts requested
  for it, and nothing else changes. \<^verbatim>\<open>trophies_to_trade\<close> is assigned, not added to: for
  a sentence that lists no trophy twice every listing is deducted, and for a trophy
  listed more than once only the count of its last listing is.
\<close>

theorem trade_outcome:
  assumes ty: "detect_type (split_line line) = 0"
    and st: "detect_sentence_type (split_line line) line = Inr 1"
  shows "\<exists>offered requested.
           trophy_listing (drop 2 (split_line line)) = Some (offered, requested) \<and>
           ingredient_list requested \<and>
           (if list_ex (short_of (trophies s)) offered then
              execute_line line s = Inr (s, ''Not enough trophies'')
            else
              (\<exists>s'. execute_line line s = Inr (s', ''Trade successful'') \<and>
                 (\<forall>t. map_of (trophies s') t =
                    (case map_of (rev offered) t of
                       None \<Rightarrow> map_of (trophies s) t
                     | Some q \<Rightarrow> deduct (map_of (trophies s) t) q)) \<and>
                 (\<forall>k. map_of (ingredients s') k =
                    (if k \<in> fst ` set (ingredient_requests requested)
                     then Some ((case map_of (ingredients s) k of None \<Rightarrow> 0 | Some c \<Rightarrow> c)
                                 + requested_sum (ingredient_requests requested) k)
                     else map_of (ingredients s) k)) \<and>
                 potion_counts s' = potion_counts s \<and> potions s' = potions s \<and>
                 monsters s' = monsters s))"
proof -
  let ?ws = "split_line line"
  have run: "execute_line line s = handle_trade ?ws s" using ty st by (rule trade_sentence_run)
  from valid_trade_parts [OF trade_sentence_shape [OF st]] obtain j where
    j: "trade_trophy_groups ?ws 2 = Inr (Some j)" and il: "ingredient_list (drop j ?ws)"
    by blast
  from trade_groups_listing [OF j, of s] obtain l where
    l: "trophy_listing (drop 2 ?ws) = Some (l, drop j ?ws)"
    and coll: "collect_trophies ?ws 2 [] s =
          (if list_ex (short_of (trophies s)) l then Inr None
           else Inr (Some (j, fold (\<lambda>e. map_put (fst e) (snd e)) l [])))"
    by blast
  let ?tt = "fold (\<lambda>e. map_put (fst e) (snd e)) l []"
  let ?s1 = "fold (\<lambda>pair. decrease_trophy (fst pair) (snd pair)) ?tt s"
  let ?req = "ingredient_requests (drop j ?ws)"
  let ?s2 = "fold (\<lambda>p. add_ingredient (fst p) (snd p)) ?req ?s1"
  have ff: "formula_from ?ws j [] = Inr ?req" using il by (intro formula_requests) simp_all
  show ?thesis
  proof (cases "list_ex (short_of (trophies s)) l")
    case True
    with coll have "handle_trade ?ws s = Inr (s, ''Not enough trophies'')"
      by (simp add: handle_trade_def)
    with run l il True show ?thesis by simp
  next
    case False
    with coll have ex: "handle_trade ?ws s = Inr (?s2, ''Trade successful'')"
      by (simp add: handle_trade_def add_ingredients_from_fold ff)
    have "sorted_keys ?tt" by (intro sorted_keys_fold_map_put) (simp add: sorted_keys_def)
    then have "distinct (map fst ?tt)" by (rule sorted_keys_distinct)
    then have tr: "map_of (trophies ?s2) t =
        (case map_of (rev l) t of
           None \<Rightarrow> map_of (trophies s) t
         | Some q \<Rightarrow> deduct (map_of (trophies s) t) q)" for t
      by (simp add: map_of_fold_decrease_trophy map_of_fold_map_put split: option.splits)
    have "ingredients ?s2 = ingredients (fold (\<lambda>p. add_ingredient (fst p) (snd p)) ?req s)"
      by (intro ingredients_fold_add_ingredient) simp
    then have ing: "map_of (ingredients ?s2) k =
        (if k \<in> fst ` set ?req
         then Some ((case map_of (ingredients s) k of None \<Rightarrow> 0 | Some c \<Rightarrow> c)
                     + requested_sum ?req k)
         else map_of (ingredients s) k)" for k
      by (simp only: map_of_fold_add_ingredient)
    have "\<exists>s'. execute_line line s = Inr (s', ''Trade successful'') \<and>
                 (\<forall>t. map_of (trophies s') t =
                    (case map_of (rev l) t of
                       None \<Rightarrow> map_of (trophies s) t
                     | Some q \<Rightarrow> deduct (map_of (trophies s) t) q)) \<and>
                 (\<forall>k. map_of (ingredients s') k =
                    (if k \<in> fst ` set ?req
                     then Some ((case map_of (ingredients s) k of None \<Rightarrow> 0 | Some c \<Rightarrow> c)
                                 + requested_sum ?req k)
                     else map_of (ingredients s) k)) \<and>
                 potion_counts s' = potion_counts s \<and> potions s' = potions s \<and>
                 monsters s' = monsters s"
      using run ex tr ing by (intro exI [of _ ?s2]) simp
    with l il False show ?thesis by simp
  qed
qed

text \<open>
  Two runs of the handler: with two Harpy trophies in the ledger, trading both for one Rebis
  succeeds, removes the Harpy entry and adds the Rebis; with one Harpy trophy the same
  sentence fails and leaves the state as it was.
\<close>

theorem trade_outcome_witness:
  "detect_type (split_line ''Geralt trades 2 Harpy trophy for 1 Rebis'') = 0 \<and>
   detect_sentence_type (split_line ''Geralt trades 2 Harpy trophy for 1 Rebis'')
     ''Geralt trades 2 Harpy trophy for 1 Rebis'' = Inr 1 \<and>
   (\<exists>s'. execute_line ''Geralt trades 2 Harpy trophy for 1 Rebis'' harpy_slayer =
            Inr (s', ''Trade successful'') \<and>
          map_of (trophies s') ''Harpy'' = None \<and>
          map_of (ingredients s') ''Rebis'' = Some 1 \<and>
          monsters s' = monsters harpy_slayer) \<and>
   execute_line ''Geralt trades 2 Harpy trophy for 1 Rebis''
       (harpy_slayer\<lparr>trophies := [(''Harpy'', 1)]\<rparr>) =
     Inr (harpy_slayer\<lparr>trophies := [(''Harpy'', 1)]\<rparr>, ''Not enough trophies'')"
proof -
  have h1: "detect_type (split_line ''Geralt trades 2 Harpy trophy for 1 Rebis'') = 0"
    by (simp add: split_line_trade_one detect_type_def)
  have h2: "detect_sentence_type (split_line ''Geralt trades 2 Harpy trophy for 1 Rebis'')
     ''Geralt trades 2 Harpy trophy for 1 Rebis'' = Inr 1"
    by (simp only: split_line_trade_one trade_one_sentence)
  have a: "\<exists>s'. execute_line ''Geralt trades 2 Harpy trophy for 1 Rebis'' harpy_slayer =
            Inr (s', ''Trade successful'') \<and>
          map_of (trophies s') ''Harpy'' = None \<and>
          map_of (ingredients s') ''Rebis'' = Some 1 \<and>
          monsters s' = monsters harpy_slayer"
    using trade_outcome [OF h1 h2, of harpy_slayer]
    by (auto simp: split_line_trade_one count_token_units count_of_units alphabetical_harpy
        alphabetical_names harpy_slayer_def empty_inventory_def short_of_def deduct_def
        requested_sum_def)
  have b: "execute_line ''Geralt trades 2 Harpy trophy for 1 Rebis''
       (harpy_slayer\<lparr>trophies := [(''Harpy'', 1)]\<rparr>) =
     Inr (harpy_slayer\<lparr>trophies := [(''Harpy'', 1)]\<rparr>, ''Not enough trophies'')"
    using trade_outcome [OF h1 h2, of "harpy_slayer\<lparr>trophies := [(''Harpy'', 1)]\<rparr>"]
    by (auto simp: split_line_trade_one count_token_units count_of_units alphabetical_harpy
        alphabetical_names harpy_slayer_def empty_inventory_def short_of_def)
  from h1 h2 a b show ?thesis by blast
qed

section \<open>The claims\<close>

text \<open>
  C3. A line that breaks the grammar is answered by \<^verbatim>\<open>INVALID\<close>, the program does not
  crash on it whatever the input (also for arbitrarily long all-digit count tokens), and
  the state is unchanged.

  The code does not do this. \<^verbatim>\<open>is_integer\<close> checks the digits of a count, but the
  \<^verbatim>\<open>std::stoi\<close> that follows throws \<^verbatim>\<open>std::out_of_range\<close> for a value above
  \<^verbatim>\<open>INT_MAX\<close>, and nothing catches it. The line below breaks the grammar (its second
  count is 0); the first count is read first and ends the process.
\<close>

theorem long_count_token_crashes:
  "execute_line ''Geralt loots 99999999999 Rebis, 0 Vitriol'' s = Inl StoiOutOfRange"
  unfolding execute_line_def split_line_long_count
  by (simp add: detect_type_def detect_sentence_type_def bindE_def word_at_def
      is_valid_loot_def ingredient_groups.simps is_integer_def is_digit_def
      stoi_eleven_digits)



text \<open>
  C7. An encounter with a monster that is unknown, or known with no effective sign and no
  effective potion, or known with effective potions only and none of them in stock, is
  answered by the unprepared message and changes nothing. Otherwise (an effective sign is
  recorded, whatever the stock, or one of the effective potions is in stock) one unit of
  every effective potion that is in stock is used, an entry that reaches zero being
  removed and potions out of stock being skipped, the trophy count of the monster is
  incremented (or set to 1), and the answer is \<^verbatim>\<open>Geralt defeats <monster>\<close>.
\<close>

theorem encounter_outcome:
  assumes wf: "well_formed s"
    and ty: "detect_type (split_line line) = 0"
    and st: "detect_sentence_type (split_line line) line = Inr 6"
  shows "let monster_name = split_line line ! 3 in
         if \<not> prepared s monster_name then execute_line line s = Inr (s, unprepared)
         else \<exists>s'. execute_line line s = Inr (s', ''Geralt defeats '' @ monster_name) \<and>
                (\<forall>p. map_of (potion_counts s') p =
                       (if p \<in> set (potions_against (the (map_of (monsters s) monster_name)))
                        then after_sip (map_of (potion_counts s) p)
                        else map_of (potion_counts s) p)) \<and>
                map_of (trophies s') =
                  (map_of (trophies s))(monster_name \<mapsto>
                     (case map_of (trophies s) monster_name of None \<Rightarrow> 1 | Some c \<Rightarrow> c + 1)) \<and>
                ingredients s' = ingredients s \<and> potions s' = potions s \<and>
                monsters s' = monsters s"
proof -
  define ws where "ws = split_line line"
  have len: "length ws = 4" using st encounter_shape ws_def by simp
  have ex: "execute_line line s = handle_encounter ws s"
    using execute_sentence [OF ty st] by (simp add: perform_sentence_def ws_def)
  have w3: "word_at ws 3 = Inr (ws ! 3)" using len by (simp add: word_at_def)
  show ?thesis
  proof (cases "map_of (monsters s) (ws ! 3)")
    case None
    then show ?thesis
      using ex w3 by (simp add: handle_encounter_def bindE_def prepared_def ws_def [symmetric])
  next
    case (Some m)
    then have "distinct (potions_against m)"
      using well_formed_monster_lists [OF wf Some] by (simp add: strict_sorted_iff)
    then show ?thesis
      using ex w3 Some
      by (auto simp: handle_encounter_def bindE_def prepared_def ws_def [symmetric] Let_def
          use_one_potion_each_def map_of_fold_use_potion map_of_award_trophy list_ex_iff)
  qed
qed


theorem encounter_outcome_witness:
  "well_formed harpy_hunter \<and>
   detect_type (split_line ''Geralt encounters a Harpy'') = 0 \<and>
   detect_sentence_type (split_line ''Geralt encounters a Harpy'') ''Geralt encounters a Harpy''
     = Inr 6 \<and>
   prepared harpy_hunter ''Harpy'' \<and>
   (\<exists>s'. execute_line ''Geralt encounters a Harpy'' harpy_hunter =
            Inr (s', ''Geralt defeats Harpy'') \<and>
          map_of (potion_counts s') ''Swallow'' = None \<and>
          map_of (potion_counts s') ''Thunder'' = None \<and>
          map_of (trophies s') ''Harpy'' = Some 1)"
proof -
  have h0: "well_formed harpy_hunter"
    by (simp add: well_formed_def harpy_hunter_def empty_inventory_def sorted_keys_def)
  have h1: "detect_type (split_line ''Geralt encounters a Harpy'') = 0"
    by (simp add: split_line_encounter detect_type_def)
  have h2: "detect_sentence_type (split_line ''Geralt encounters a Harpy'')
              ''Geralt encounters a Harpy'' = Inr 6"
    by (simp add: split_line_encounter encounter_sentence)
  have h3: "prepared harpy_hunter ''Harpy''"
    by (simp add: prepared_def harpy_hunter_def empty_inventory_def)
  have "\<exists>s'. execute_line ''Geralt encounters a Harpy'' harpy_hunter =
            Inr (s', ''Geralt defeats Harpy'') \<and>
          map_of (potion_counts s') ''Swallow'' = None \<and>
          map_of (potion_counts s') ''Thunder'' = None \<and>
          map_of (trophies s') ''Harpy'' = Some 1"
    using encounter_outcome [OF h0 h1 h2] h3
    by (auto simp: split_line_encounter Let_def harpy_hunter_def empty_inventory_def
        after_sip_def)
  with h0 h1 h2 h3 show ?thesis by blast
qed

text \<open>
  C9. Once a sign or a potion is recorded as effective against a monster, no later command
  removes it: after any further lines the entry of the monster still holds every sign and
  potion it held. Learning again a sign or a potion that is already recorded against the
  monster leaves the state as it is and answers \<^verbatim>\<open>Already known effectiveness\<close>.
\<close>

theorem bestiary_only_grows:
  "(run_lines lines s out = Inr (s', out') \<longrightarrow> map_of (monsters s) monster_name = Some m \<longrightarrow>
      (\<exists>m'. map_of (monsters s') monster_name = Some m' \<and>
            set (signs_against m) \<subseteq> set (signs_against m') \<and>
            set (potions_against m) \<subseteq> set (potions_against m'))) \<and>
   (detect_type (split_line line) = 0 \<longrightarrow>
    detect_sentence_type (split_line line) line = Inr 3 \<longrightarrow>
    map_of (monsters s) (split_line line ! 7) = Some m \<longrightarrow>
    split_line line ! 2 \<in> set (signs_against m) \<longrightarrow>
      execute_line line s = Inr (s, ''Already known effectiveness'')) \<and>
   (detect_type (split_line line') = 0 \<longrightarrow>
    detect_sentence_type (split_line line') line' = Inr 4 \<longrightarrow>
    map_of (monsters s) (last (split_line line')) = Some m \<longrightarrow>
    join_words (takeWhile (\<lambda>w. w \<noteq> ''potion'') (drop 2 (split_line line')))
      \<in> set (potions_against m) \<longrightarrow>
      execute_line line' s = Inr (s, ''Already known effectiveness''))"
  using knowledge_kept_run relearn_sign relearn_potion by blast


theorem bestiary_only_grows_witness:
  "run_lines [''Geralt learns Igni sign is effective against Harpy''] harpy_hunter [] =
     Inr (harpy_hunter, [''Already known effectiveness'']) \<and>
   map_of (monsters harpy_hunter) ''Harpy'' =
     Some \<lparr>signs_against = [''Igni''], potions_against = [''Swallow'', ''Thunder'']\<rparr> \<and>
   execute_line ''Geralt learns Igni sign is effective against Harpy'' harpy_hunter =
     Inr (harpy_hunter, ''Already known effectiveness'') \<and>
   execute_line ''Geralt learns Swallow potion is effective against Harpy'' harpy_hunter =
     Inr (harpy_hunter, ''Already known effectiveness'')"
proof -
  let ?l1 = "''Geralt learns Igni sign is effective against Harpy''"
  let ?l3 = "''Geralt learns Swallow potion is effective against Harpy''"
  let ?m = "\<lparr>signs_against = [''Igni''], potions_against = [''Swallow'', ''Thunder'']\<rparr>"
  note inst = bestiary_only_grows [of "[?l1]" harpy_hunter "[]" harpy_hunter
      "[''Already known effectiveness'']" "''Harpy''" ?m ?l1 ?l3]
  have a1: "detect_type (split_line ?l1) = 0"
    by (simp add: split_line_learn_sign detect_type_def)
  have a2: "detect_sentence_type (split_line ?l1) ?l1 = Inr 3"
    by (simp only: split_line_learn_sign learn_sign_sentence)
  have a3: "map_of (monsters harpy_hunter) (split_line ?l1 ! 7) = Some ?m"
    by (simp add: split_line_learn_sign harpy_hunter_def empty_inventory_def)
  have a4: "split_line ?l1 ! 2 \<in> set (signs_against ?m)"
    by (simp add: split_line_learn_sign)
  have b1: "detect_type (split_line ?l3) = 0"
    by (simp add: split_line_learn_potion detect_type_def)
  have b2: "detect_sentence_type (split_line ?l3) ?l3 = Inr 4"
    by (simp only: split_line_learn_potion learn_potion_sentence)
  have b3: "map_of (monsters harpy_hunter) (last (split_line ?l3)) = Some ?m"
    by (simp add: split_line_learn_potion harpy_hunter_def empty_inventory_def)
  have b4: "join_words (takeWhile (\<lambda>w. w \<noteq> ''potion'') (drop 2 (split_line ?l3)))
              \<in> set (potions_against ?m)"
    by (simp add: split_line_learn_potion)
  have e1: "execute_line ?l1 harpy_hunter = Inr (harpy_hunter, ''Already known effectiveness'')"
    using inst a1 a2 a3 a4 by blast
  have e3: "execute_line ?l3 harpy_hunter = Inr (harpy_hunter, ''Already known effectiveness'')"
    using inst b1 b2 b3 b4 by blast
  have r: "run_lines [?l1] harpy_hunter [] =
             Inr (harpy_hunter, [''Already known effectiveness''])"
    using e1 by simp
  have k: "map_of (monsters harpy_hunter) ''Harpy'' = Some ?m"
    by (simp add: harpy_hunter_def empty_inventory_def)
  from inst r k have "\<exists>m'. map_of (monsters harpy_hunter) ''Harpy'' = Some m' \<and>
      set (signs_against ?m) \<subseteq> set (signs_against m') \<and>
      set (potions_against ?m) \<subseteq> set (potions_against m')" by blast
  with r k e1 e3 show ?thesis by blast
qed


text \<open>
  C10. In every reachable state every potion of the formula book has a non-empty
  ingredient list: a recipe sentence is accepted only with at least one (count,
  ingredient) group, and nothing else writes a formula. So the test
  \<^verbatim>\<open>get_ingredients().size() > 0\<close> of the recipe handler always succeeds for a stored
  formula, and the test \<^verbatim>\<open>ingredients.empty()\<close> of the formula question always fails.
\<close>

theorem formula_book_never_empty:
  assumes "reachable s" and "map_of (potions s) potion_name = Some p"
  shows "p \<noteq> [] \<and> 0 < length (get_ingredients p) \<and> get_ingredients p \<noteq> []"
proof -
  have "p \<noteq> []"
    using reachable_formulas_nonempty [OF assms(1)] assms(2) by (rule formulas_nonempty_lookup)
  then show ?thesis by (simp add: get_ingredients_Nil_iff)
qed

theorem formula_book_never_empty_witness:
  "reachable (empty_inventory\<lparr>potions := [(''Swallow'', [(''Vitriol'', 3), (''Rebis'', 2)])]\<rparr>) \<and>
   map_of (potions (empty_inventory
             \<lparr>potions := [(''Swallow'', [(''Vitriol'', 3), (''Rebis'', 2)])]\<rparr>)) ''Swallow''
     = Some [(''Vitriol'', 3), (''Rebis'', 2)] \<and>
   get_ingredients [(''Vitriol'', 3), (''Rebis'', 2 :: cpp_int)] \<noteq> []"
proof -
  have r: "reachable (empty_inventory
             \<lparr>potions := [(''Swallow'', [(''Vitriol'', 3), (''Rebis'', 2)])]\<rparr>)"
    using reachable_step [OF reachable_init swallow_learnt] .
  have m: "map_of (potions (empty_inventory
             \<lparr>potions := [(''Swallow'', [(''Vitriol'', 3), (''Rebis'', 2)])]\<rparr>)) ''Swallow''
     = Some [(''Vitriol'', 3), (''Rebis'', 2)]"
    by simp
  from formula_book_never_empty [OF r m] r m show ?thesis by simp
qed

text \<open>
  C5, as the code has it. A line whose first two tokens are \<^verbatim>\<open>Geralt loots\<close> is classified
  as a Loot sentence if and only if the tokens from index 2 on are groups of (count,
  alphabetic name, comma), the comma left out on the last group only, with at least one
  group, where a count is a string of digits with a value from 1 to 2147483647. Such a
  line has a total number of tokens congruent to 1 modulo 3, that is, 2 modulo 3 after
  \<^verbatim>\<open>loots\<close> (the claim says 1). Any other shape is answered \<^verbatim>\<open>INVALID\<close> with the
  state unchanged, as long as no all-digit token is empty or above 2147483647.
\<close>

theorem loot_classification:
  assumes "take 2 (split_line line) = [''Geralt'', ''loots'']"
  shows "((detect_type (split_line line) = 0 \<and>
           detect_sentence_type (split_line line) line = Inr 0)
            \<longleftrightarrow> ingredient_list (drop 2 (split_line line))) \<and>
         (ingredient_list (drop 2 (split_line line)) \<longrightarrow>
            length (split_line line) mod 3 = 1 \<and> length (drop 2 (split_line line)) mod 3 = 2) \<and>
         (\<not> ingredient_list (drop 2 (split_line line)) \<longrightarrow>
          list_all fits_int (split_line line) \<longrightarrow>
            execute_line line s = Inr (s, ''INVALID''))"
proof -
  define ws where "ws = split_line line"
  from assms have len: "2 \<le> length ws" and g: "ws ! 0 = ''Geralt''" and l: "ws ! 1 = ''loots''"
    unfolding ws_def
    by (cases "split_line line"; cases "tl (split_line line)"; simp)+
  note st = loot_sentence_type [OF g l len, of line]
  have shape: "length ws mod 3 = 1 \<and> length (drop 2 ws) mod 3 = 2 \<and> last ws \<noteq> ''?''"
    if "ingredient_list (drop 2 ws)"
  proof -
    from ingredient_list_shape [OF that]
    have a: "drop 2 ws \<noteq> []" "length (drop 2 ws) mod 3 = 2" "is_alphabetical (last (drop 2 ws))"
      by auto
    from a(1) have "last (drop 2 ws) = last ws" by simp
    with a(3) have "last ws \<noteq> ''?''" using not_alphabetical_marks by auto
    moreover have "length ws mod 3 = 1"
    proof -
      have "2 < length ws" using a(1) by simp
      then have "\<exists>k. length ws = k + 2"
        by (intro exI [of _ "length ws - 2"]) simp
      then obtain k where k: "length ws = k + 2" by auto
      with a(2) have "k mod 3 = 2" by simp
      then have "(k + 2) mod 3 = 1" using mod3_shift [of k] by simp
      with k show ?thesis by simp
    qed
    ultimately show ?thesis using a(2) by simp
  qed
  have ne: "ws \<noteq> []" using len by auto
  have ty: "detect_type ws = (if last ws = ''?'' then 1 else 0)"
    using len g last_conv_nth [OF ne] by (auto simp: detect_type_def)
  have invalid: "execute_line line s = Inr (s, ''INVALID'')"
    if "\<not> ingredient_list (drop 2 ws)" "list_all fits_int ws"
  proof (cases "last ws = ''?''")
    case True
    have "ws \<noteq> []" using len by auto
    from geralt_question_invalid [OF g this] True ty show ?thesis
      by (simp add: execute_line_def ws_def [symmetric])
  next
    case False
    with st that ty show ?thesis
      by (simp add: execute_line_def ws_def [symmetric])
  qed
  show ?thesis
    unfolding ws_def [symmetric] using st shape ty invalid by auto
qed


theorem loot_classification_witness:
  "take 2 (split_line ''Geralt loots 5 Rebis, 3 Vitriol'') = [''Geralt'', ''loots''] \<and>
   ingredient_list (drop 2 (split_line ''Geralt loots 5 Rebis, 3 Vitriol'')) \<and>
   detect_type (split_line ''Geralt loots 5 Rebis, 3 Vitriol'') = 0 \<and>
   detect_sentence_type (split_line ''Geralt loots 5 Rebis, 3 Vitriol'')
     ''Geralt loots 5 Rebis, 3 Vitriol'' = Inr 0 \<and>
   length (split_line ''Geralt loots 5 Rebis, 3 Vitriol'') mod 3 = 1 \<and>
   take 2 (split_line ''Geralt loots 5, Rebis'') = [''Geralt'', ''loots''] \<and>
   \<not> ingredient_list (drop 2 (split_line ''Geralt loots 5, Rebis'')) \<and>
   list_all fits_int (split_line ''Geralt loots 5, Rebis'') \<and>
   execute_line ''Geralt loots 5, Rebis'' empty_inventory = Inr (empty_inventory, ''INVALID'')"
proof -
  have v1: "take 2 (split_line ''Geralt loots 5 Rebis, 3 Vitriol'') = [''Geralt'', ''loots'']"
    by (simp add: split_line_loot_two)
  have v2: "ingredient_list (drop 2 (split_line ''Geralt loots 5 Rebis, 3 Vitriol''))"
    by (simp add: split_line_loot_two count_token_small alphabetical_names)
  have i1: "take 2 (split_line ''Geralt loots 5, Rebis'') = [''Geralt'', ''loots'']"
    by (simp add: split_line_loot_swapped)
  have i2: "\<not> ingredient_list (drop 2 (split_line ''Geralt loots 5, Rebis''))"
    by (simp add: split_line_loot_swapped not_alphabetical_marks)
  have i3: "list_all fits_int (split_line ''Geralt loots 5, Rebis'')"
    by (simp add: split_line_loot_swapped fits_int_samples)
  from loot_classification [OF v1] v2
  have "detect_type (split_line ''Geralt loots 5 Rebis, 3 Vitriol'') = 0 \<and>
        detect_sentence_type (split_line ''Geralt loots 5 Rebis, 3 Vitriol'')
          ''Geralt loots 5 Rebis, 3 Vitriol'' = Inr 0 \<and>
        length (split_line ''Geralt loots 5 Rebis, 3 Vitriol'') mod 3 = 1"
    by blast
  moreover from loot_classification [OF i1, of empty_inventory] i2 i3
  have "execute_line ''Geralt loots 5, Rebis'' empty_inventory = Inr (empty_inventory, ''INVALID'')"
    by blast
  ultimately show ?thesis using v1 v2 i1 i2 i3 by blast
qed

text \<open>
  The claim as written asks for a number of tokens after \<^verbatim>\<open>loots\<close> congruent to 1
  modulo 3. The Loot sentence \<^verbatim>\<open>Geralt loots 5 Rebis\<close> has two.
\<close>

theorem loot_token_count_counterexample:
  "\<not> ((detect_type (split_line ''Geralt loots 5 Rebis'') = 0 \<and>
        detect_sentence_type (split_line ''Geralt loots 5 Rebis'') ''Geralt loots 5 Rebis''
          = Inr 0)
       \<longleftrightarrow> (ingredient_list (drop 2 (split_line ''Geralt loots 5 Rebis'')) \<and>
            length (drop 2 (split_line ''Geralt loots 5 Rebis'')) mod 3 = 1))"
proof -
  have "ingredient_list [''5'', ''Rebis'']"
    by (simp add: count_token_small alphabetical_names)
  then have "detect_sentence_type [''Geralt'', ''loots'', ''5'', ''Rebis'']
               ''Geralt loots 5 Rebis'' = Inr 0"
    using loot_sentence_type [of "[''Geralt'', ''loots'', ''5'', ''Rebis'']"
        "''Geralt loots 5 Rebis''"] by simp
  moreover have "detect_type [''Geralt'', ''loots'', ''5'', ''Rebis''] = 0"
    by (simp add: detect_type_def)
  ultimately show ?thesis by (simp add: split_line_loot_one)
qed

text \<open>
  C6, as the code has it. \<^verbatim>\<open>is_valid_potion_name\<close> looks for the name in the raw line
  with \<^verbatim>\<open>line.find\<close> on its first and on its last token. When the first occurrence of
  the first token's text is where the name starts and the first occurrence of the last
  token's text is the last token of the name, so that \<open>name_text\<close> is the part of the
  line from the start of the first token to the end of the last one, the name passes if
  and only if every token of the range is alphabetic and \<open>name_text\<close> has no two
  consecutive space characters. Other whitespace is not looked at.
\<close>

theorem potion_name_validation:
  assumes "start_index < length ws" and "end_index < length ws"
    and "line = pre @ name_text @ post"
    and "str_find line (ws ! start_index) = int (length pre)"
    and "str_find line (ws ! end_index) + int (length (ws ! end_index))
           = int (length pre) + int (length name_text)"
  shows "is_valid_potion_name ws line start_index end_index =
           Inr (list_all (\<lambda>i. is_alphabetical (ws ! i)) [start_index ..< Suc end_index] \<and>
                \<not> double_space name_text)"
proof -
  have "str_find line (ws ! end_index) + int (length (ws ! end_index)) - 1
          = int (length pre) + int (length name_text) - 1"
    using assms(5) by simp
  then show ?thesis
    using assms(1-4) no_double_space_span [of pre name_text post]
    by (simp add: is_valid_potion_name_def word_at_def Let_def)
qed


theorem potion_name_validation_witness:
  "is_valid_potion_name (split_line ''Geralt brews Black Blood'')
     ''Geralt brews Black Blood'' 2 3 = Inr True \<and>
   is_valid_potion_name (split_line ''Geralt brews Black  Blood'')
     ''Geralt brews Black  Blood'' 2 3 = Inr False"
proof -
  have "is_valid_potion_name [''Geralt'', ''brews'', ''Black'', ''Blood'']
          ''Geralt brews Black Blood'' 2 3 =
        Inr (list_all (\<lambda>i. is_alphabetical ([''Geralt'', ''brews'', ''Black'', ''Blood''] ! i))
               [2 ..< Suc 3] \<and> \<not> double_space ''Black Blood'')"
    by (rule potion_name_validation [where pre = "''Geralt brews ''" and post = "[]"])
       (simp_all add: find_black_blood)
  moreover have "is_valid_potion_name [''Geralt'', ''brews'', ''Black'', ''Blood'']
          ''Geralt brews Black  Blood'' 2 3 =
        Inr (list_all (\<lambda>i. is_alphabetical ([''Geralt'', ''brews'', ''Black'', ''Blood''] ! i))
               [2 ..< Suc 3] \<and> \<not> double_space ''Black  Blood'')"
    by (rule potion_name_validation [where pre = "''Geralt brews ''" and post = "[]"])
       (simp_all add: find_black_blood)
  moreover have "[2 ..< Suc 3] = [2, 3]" by (simp add: upt_rec)
  ultimately show ?thesis
    by (simp add: split_line_brew_single split_line_brew_double alphabetical_black_blood)
qed

text \<open>
  The claim speaks of two consecutive whitespace characters. A name typed with two tabs
  between its words passes.
\<close>

theorem double_tab_name_counterexample:
  "split_line tabbed_brew = [''Geralt'', ''brews'', ''Black'', ''Blood''] \<and>
   tabbed_brew = ''Geralt brews '' @ (''Black'' @ [CHR 0x09, CHR 0x09] @ ''Blood'') \<and>
   double_whitespace (''Black'' @ [CHR 0x09, CHR 0x09] @ ''Blood'') \<and>
   is_valid_potion_name (split_line tabbed_brew) tabbed_brew 2 3 = Inr True"
proof -
  have "[2 ..< Suc 3] = [2, 3]" by (simp add: upt_rec)
  then have "is_valid_potion_name [''Geralt'', ''brews'', ''Black'', ''Blood'']
     tabbed_brew 2 3 = Inr True"
    by (simp add: is_valid_potion_name_def word_at_def str_find_def alphabetical_black_blood
        no_double_space.simps line_at_def tabbed_brew_def)
  then show ?thesis by (simp add: split_line_brew_tabs) (simp add: tabbed_brew_def is_space_def)
qed

text \<open>
  C2. A Brew sentence succeeds exactly when the potion has a known formula and every
  ingredient of the formula is in stock in the quantity the formula requires; then every
  required ingredient is decremented by its quantity and the brewed count is incremented.
  If any ingredient is insufficient, the brew fails and no count changes.

  The code does not do this for a formula that names an ingredient twice. The first loop
  of \<^verbatim>\<open>handle_brew\<close> (\<^verbatim>\<open>we will brew after making sure we have all necessary ingredients\<close>)
  compares each entry of the formula with the whole stock, and the second loop deducts
  every entry. After the two lines below the formula of Twin requires 3 + 3 Rebis and the
  stock holds 5: the brew succeeds, and the deduction of 6 removes the Rebis entry.
\<close>

theorem repeated_ingredient_brew_succeeds:
  "run_lines [''Geralt learns Twin potion consists of 3 Rebis, 3 Rebis'', ''Geralt loots 5 Rebis'']
     empty_inventory [] =
     Inr (twin_ready, [''New alchemy formula obtained: Twin'', ''Alchemy ingredients obtained'']) \<and>
   map_of (potions twin_ready) ''Twin'' = Some [(''Rebis'', 3), (''Rebis'', 3)] \<and>
   required_total [(''Rebis'', 3), (''Rebis'', 3)] ''Rebis'' = 6 \<and>
   map_of (ingredients twin_ready) ''Rebis'' = Some 5 \<and>
   execute_line ''Geralt brews Twin'' twin_ready =
     Inr (twin_ready\<lparr>ingredients := [], potion_counts := [(''Twin'', 1)]\<rparr>,
          ''Alchemy item created: Twin'')"
proof -
  have r: "run_lines [''Geralt learns Twin potion consists of 3 Rebis, 3 Rebis'',
             ''Geralt loots 5 Rebis''] empty_inventory [] =
     Inr (twin_ready, [''New alchemy formula obtained: Twin'', ''Alchemy ingredients obtained''])"
    by (simp add: learn_twin loot_five)
  have "detect_type (split_line ''Geralt brews Twin'') = 0"
    by (simp add: split_line_brew_twin detect_type_def)
  moreover have "detect_sentence_type (split_line ''Geralt brews Twin'') ''Geralt brews Twin''
                   = Inr 2"
    by (simp only: split_line_brew_twin brew_twin_sentence)
  ultimately have b: "execute_line ''Geralt brews Twin'' twin_ready =
     Inr (twin_ready\<lparr>ingredients := [], potion_counts := [(''Twin'', 1)]\<rparr>,
          ''Alchemy item created: Twin'')"
    by (simp add: execute_sentence perform_sentence_def split_line_brew_twin handle_brew_def
        twin_ready_def empty_inventory_def get_ingredients_def ingredient_before_def
        use_ingredient_def map_erase_def Let_def)
  show ?thesis
    using r b by (simp add: twin_ready_def empty_inventory_def required_total_def)
qed

text \<open>
  C1. For every Trade sentence, if any requested trophy is insufficient, the trade fails
  and no ingredient or trophy count changes; otherwise every listed trophy is decremented
  by its requested count (entries reaching zero removed) and every requested ingredient
  is added.

  The code does not do this for a sentence that lists a trophy twice. \<^verbatim>\<open>handle_trade\<close>
  compares each listing with the whole stock and stores it by
  \<^verbatim>\<open>trophies_to_trade[trophy] = cnt\<close>, which overwrites an earlier listing of the same
  name, where the loop over the ingredients of the same sentence adds repeated names up.
  After one sign and two encounters the ledger holds two Harpy trophies. The sentence
  below lists 2 + 1 Harpy trophies: the trade succeeds, one Harpy trophy is deducted and
  one remains.
\<close>

theorem repeated_trophy_trade_succeeds:
  "run_lines [''Geralt learns Igni sign is effective against Harpy'',
              ''Geralt encounters a Harpy'', ''Geralt encounters a Harpy'']
     empty_inventory [] =
     Inr (harpy_slayer, [''New bestiary entry added: Harpy'', ''Geralt defeats Harpy'',
                         ''Geralt defeats Harpy'']) \<and>
   map_of (trophies harpy_slayer) ''Harpy'' = Some 2 \<and>
   trophy_listing (drop 2 (split_line ''Geralt trades 2 Harpy, 1 Harpy trophy for 1 Rebis'')) =
     Some ([(''Harpy'', 2), (''Harpy'', 1)], [''1'', ''Rebis'']) \<and>
   required_total [(''Harpy'', 2), (''Harpy'', 1)] ''Harpy'' = 3 \<and>
   execute_line ''Geralt trades 2 Harpy, 1 Harpy trophy for 1 Rebis'' harpy_slayer =
     Inr (harpy_slayer\<lparr>ingredients := [(''Rebis'', 1)], trophies := [(''Harpy'', 1)]\<rparr>,
          ''Trade successful'')"
proof -
  have r: "run_lines [''Geralt learns Igni sign is effective against Harpy'',
              ''Geralt encounters a Harpy'', ''Geralt encounters a Harpy'']
     empty_inventory [] =
     Inr (harpy_slayer, [''New bestiary entry added: Harpy'', ''Geralt defeats Harpy'',
                         ''Geralt defeats Harpy''])"
    by (simp add: learn_igni first_harpy second_harpy)
  have l: "trophy_listing
       (drop 2 (split_line ''Geralt trades 2 Harpy, 1 Harpy trophy for 1 Rebis'')) =
     Some ([(''Harpy'', 2), (''Harpy'', 1)], [''1'', ''Rebis''])"
    by (simp add: split_line_trade_twice count_token_units count_of_units alphabetical_harpy)
  have "detect_type (split_line ''Geralt trades 2 Harpy, 1 Harpy trophy for 1 Rebis'') = 0"
    by (simp add: split_line_trade_twice detect_type_def)
  moreover have "detect_sentence_type
      (split_line ''Geralt trades 2 Harpy, 1 Harpy trophy for 1 Rebis'')
      ''Geralt trades 2 Harpy, 1 Harpy trophy for 1 Rebis'' = Inr 1"
    by (simp only: split_line_trade_twice trade_twice_sentence)
  ultimately have t: "execute_line ''Geralt trades 2 Harpy, 1 Harpy trophy for 1 Rebis''
      harpy_slayer =
     Inr (harpy_slayer\<lparr>ingredients := [(''Rebis'', 1)], trophies := [(''Harpy'', 1)]\<rparr>,
          ''Trade successful'')"
    by (simp add: execute_sentence perform_sentence_def split_line_trade_twice handle_trade_def
        collect_trophies.simps add_ingredients_from.simps word_at_def stoi_small
        add_ingredient_def decrease_trophy_def harpy_slayer_def empty_inventory_def)
  show ?thesis
    using r l t by (simp add: harpy_slayer_def empty_inventory_def required_total_def)
qed

text \<open>
  C4. After every sequence of executed commands, every count stored in the ingredient
  ledger, the trophy ledger and the potion stock is strictly positive.

  The code does not do this. \<^verbatim>\<open>use_ingredient\<close>, \<^verbatim>\<open>decrease_trophy\<close> and
  \<^verbatim>\<open>use_one_potion_each\<close> remove an entry that reaches zero or less, but
  \<^verbatim>\<open>add_ingredient\<close> adds to an \<^verbatim>\<open>int\<close> with no check of the sum. Looting \<^verbatim>\<open>INT_MAX\<close>
  Rebis and then one more stores a negative count, and the query that follows prints it.
\<close>

theorem stored_count_overflows:
  "run_lines [''Geralt loots 2147483647 Rebis'', ''Geralt loots 1 Rebis'',
              ''Total ingredient Rebis ?''] empty_inventory [] =
     Inr (overflowed, [''Alchemy ingredients obtained'', ''Alchemy ingredients obtained'',
                       ''-2147483648'']) \<and>
   map_of (ingredients overflowed) ''Rebis'' = Some (2147483647 + 1) \<and>
   sint (2147483647 + 1 :: cpp_int) = - 2147483648 \<and>
   \<not> positive_counts overflowed"
proof -
  have "run_lines [''Geralt loots 2147483647 Rebis'', ''Geralt loots 1 Rebis'',
              ''Total ingredient Rebis ?''] empty_inventory [] =
     Inr (overflowed, [''Alchemy ingredients obtained'', ''Alchemy ingredients obtained'',
                       ''-2147483648''])"
    by (simp add: loot_max loot_one_more total_rebis)
  moreover have "map_of (ingredients overflowed) ''Rebis'' = Some (2147483647 + 1)"
    by (simp add: overflowed_def empty_inventory_def)
  moreover have "\<not> positive_counts overflowed"
    by (simp add: positive_counts_def overflowed_def empty_inventory_def)
  ultimately show ?thesis by simp
qed

end
